(* ===== verification/Prelude.thy ===== *)
theory Prelude
  imports Main
begin

text \<open>
  Shared vocabulary of the crossword development: the coordinate type, the few
  JavaScript built-ins the solver relies on (\<^verbatim>\<open>Array.prototype.indexOf\<close>,
  reading an array slot that may be out of range, the first hit of a scanning loop,
  counting \<^verbatim>\<open>for\<close> loops up and down) and the generic lemmas about them that the
  component theories use through the collection \<open>js_simps\<close>.
\<close>

named_theorems js_simps "facts about the models of JavaScript built-ins"
named_theorems frame_simps "fields an operation of the solver leaves unchanged"
named_theorems frame_rules "an event handler keeps the session frame of the state it is given"

type_synonym coord = "int \<times> int"

subsection \<open>\<^verbatim>\<open>Array.prototype.indexOf\<close>\<close>

text \<open>The index of the first occurrence, \<open>-1\<close> when there is none.\<close>

fun index_of :: "'a list \<Rightarrow> 'a \<Rightarrow> int" where
  "index_of [] x = -1"
| "index_of (y # ys) x =
     (if y = x then 0 else (let i = index_of ys x in if i < 0 then -1 else i + 1))"

subsection \<open>Scanning loops\<close>

text \<open>The first element for which a loop body returns early.\<close>

fun first_some :: "('a \<Rightarrow> 'b option) \<Rightarrow> 'a list \<Rightarrow> 'b option" where
  "first_some f [] = None"
| "first_some f (x # xs) = (case f x of Some r \<Rightarrow> Some r | None \<Rightarrow> first_some f xs)"

text \<open>
  \<^verbatim>\<open>for (i = a; i >= lo; i--) { if (found(i)) return ...; }\<close> and its counting-up
  twin \<^verbatim>\<open>for (i = a; i <= hi; i++)\<close>.
\<close>

function for_down :: "(int \<Rightarrow> 'b option) \<Rightarrow> int \<Rightarrow> int \<Rightarrow> 'b option" where
  "for_down f i lo = (if lo \<le> i then (case f i of Some r \<Rightarrow> Some r | None \<Rightarrow> for_down f (i - 1) lo)
                      else None)"
  by pat_completeness auto
termination
  by (relation "measure (\<lambda>(f, i, lo). nat (i - lo + 1))") auto

function for_up :: "(int \<Rightarrow> 'b option) \<Rightarrow> int \<Rightarrow> int \<Rightarrow> 'b option" where
  "for_up f i hi = (if i \<le> hi then (case f i of Some r \<Rightarrow> Some r | None \<Rightarrow> for_up f (i + 1) hi)
                    else None)"
  by pat_completeness auto
termination
  by (relation "measure (\<lambda>(f, i, hi). nat (hi - i + 1))") auto

declare for_down.simps [simp del] for_up.simps [simp del]

subsection \<open>Lemmas on \<open>index_of\<close>\<close>

lemma index_of_ge [js_simps]: "-1 \<le> index_of xs x"
  by (induction xs) (auto simp: Let_def)

lemma index_of_neg_iff [js_simps]: "index_of xs x < 0 \<longleftrightarrow> x \<notin> set xs"
  by (induction xs) (auto simp: Let_def)

lemma index_of_notin [js_simps]: "x \<notin> set xs \<Longrightarrow> index_of xs x = -1"
  by (induction xs) (auto simp: Let_def)

lemma index_of_lt [js_simps]: "index_of xs x < int (length xs)"
  by (induction xs) (auto simp: Let_def)

lemma index_of_in:
  "x \<in> set xs \<Longrightarrow> 0 \<le> index_of xs x \<and> xs ! nat (index_of xs x) = x"
proof (induction xs)
  case Nil
  then show ?case by simp
next
  case (Cons y ys)
  show ?case
  proof (cases "y = x")
    case False
    with Cons have "0 \<le> index_of ys x" and "ys ! nat (index_of ys x) = x" by auto
    with False show ?thesis by (simp add: Let_def nat_add_distrib)
  qed simp
qed

lemma index_of_nth_distinct [js_simps]:
  "distinct xs \<Longrightarrow> i < length xs \<Longrightarrow> index_of xs (xs ! i) = int i"
proof (induction xs arbitrary: i)
  case (Cons y ys)
  show ?case
  proof (cases i)
    case (Suc j)
    with Cons have "index_of ys (ys ! j) = int j" and "y \<noteq> ys ! j" by auto
    with Suc show ?thesis by (simp add: Let_def)
  qed simp
qed simp

subsection \<open>Lemmas on scanning\<close>

lemma first_some_append [js_simps]:
  "first_some f (xs @ ys) = (case first_some f xs of Some r \<Rightarrow> Some r | None \<Rightarrow> first_some f ys)"
  by (induction xs) (auto split: option.splits)

lemma first_some_None_iff [js_simps]: "first_some f xs = None \<longleftrightarrow> (\<forall>x\<in>set xs. f x = None)"
  by (induction xs) (auto split: option.splits)

lemma first_some_SomeD:
  "first_some f xs = Some r \<Longrightarrow> \<exists>x\<in>set xs. f x = Some r"
  by (induction xs) (auto split: option.splits)

lemma first_some_unique:
  assumes "x \<in> set xs" and "f x = Some r" and "\<forall>y\<in>set xs. y \<noteq> x \<longrightarrow> f y = None"
  shows "first_some f xs = Some r"
  using assms by (induction xs) (auto split: option.splits)

lemma map_sum_eq_Inr [simp]: "map_sum f g x = Inr y \<longleftrightarrow> (\<exists>z. x = Inr z \<and> y = g z)"
  by (cases x) auto

lemma index_of_append_notin [js_simps]: "x \<notin> set xs \<Longrightarrow> index_of (xs @ x # ys) x = int (length xs)"
  by (induction xs) auto

lemma set_drop_union_take [simp]: "set (drop n xs) \<union> set (take n xs) = set xs"
  by (metis append_take_drop_id set_append sup_commute)

lemma set_map_filter [js_simps]:
  "set (List.map_filter f xs) = {y. \<exists>x\<in>set xs. f x = Some y}"
  by (induction xs) (auto split: option.splits)

lemma int_range_split_top:
  "(\<forall>k::int. lo \<le> k \<and> k \<le> i \<longrightarrow> P k) \<longleftrightarrow>
     (lo \<le> i \<longrightarrow> P i) \<and> (\<forall>k. lo \<le> k \<and> k \<le> i - 1 \<longrightarrow> P k)"
  by (metis add_le_cancel_right diff_add_cancel int_one_le_iff_zero_less le_less zle_diff1_eq
      order_trans linorder_not_le)

lemma int_range_split_bot:
  "(\<forall>k::int. i \<le> k \<and> k \<le> hi \<longrightarrow> P k) \<longleftrightarrow>
     (i \<le> hi \<longrightarrow> P i) \<and> (\<forall>k. i + 1 \<le> k \<and> k \<le> hi \<longrightarrow> P k)"
  by (metis add_le_cancel_right diff_add_cancel le_less zle_diff1_eq order_trans linorder_not_le)

lemma for_down_None_iff [js_simps]:
  "for_down f i lo = None \<longleftrightarrow> (\<forall>k. lo \<le> k \<and> k \<le> i \<longrightarrow> f k = None)"
proof (induction f i lo rule: for_down.induct)
  case (1 f i lo)
  then show ?case
    by (subst for_down.simps, subst int_range_split_top) (auto split: option.splits)
qed

lemma for_up_None_iff [js_simps]:
  "for_up f i hi = None \<longleftrightarrow> (\<forall>k. i \<le> k \<and> k \<le> hi \<longrightarrow> f k = None)"
proof (induction f i hi rule: for_up.induct)
  case (1 f i hi)
  then show ?case
    by (subst for_up.simps, subst int_range_split_bot) (auto split: option.splits)
qed

text \<open>A loop that writes one key per element of a list with distinct keys.\<close>

lemma fold_update_lookup:
  "distinct (map fst xs) \<Longrightarrow>
   fold (\<lambda>(i, d) c. c(i \<mapsto> f i d)) xs m k = (case map_of xs k of Some d \<Rightarrow> Some (f k d) | None \<Rightarrow> m k)"
proof (induction xs arbitrary: m)
  case Nil
  then show ?case by simp
next
  case (Cons x xs)
  obtain i d where x: "x = (i, d)" by fastforce
  have "k = i \<Longrightarrow> map_of xs k = None"
    using Cons.prems x by (simp add: map_of_eq_None_iff)
  with Cons x show ?case by (auto split: option.splits)
qed

end
