(* ===== verification/Cell.thy ===== *)
theory Cell
  imports Prelude
begin

text \<open>
  A grid cell of \<^verbatim>\<open>src/js/crosswords.js\<close> as \<^verbatim>\<open>parsePuzzle\<close> leaves it: the
  parser's fields plus the derived flags \<^verbatim>\<open>empty\<close> and \<^verbatim>\<open>clue\<close>, the bars, the
  colour and the mutable \<^verbatim>\<open>letter\<close>, \<^verbatim>\<open>checked\<close>, \<^verbatim>\<open>revealed\<close>.  The
  coordinates \<^verbatim>\<open>x\<close>, \<^verbatim>\<open>y\<close> are the key of the grid map (theory \<open>Grid\<close>).
  The theory also holds the answer check \<^verbatim>\<open>isCorrect\<close> and the upper-casing the
  input handler applies to a typed letter.
\<close>

subsection \<open>Data\<close>

text \<open>The parser's \<^verbatim>\<open>type\<close> string; every other value is a normal cell.\<close>

datatype cell_type = Normal | Block | Void | ClueCell

text \<open>
  The parser's \<^verbatim>\<open>number\<close>: a string, or absent (\<^verbatim>\<open>undefined\<close>) or
  \<^verbatim>\<open>null\<close>.  The two absent values are distinct object keys of
  \<^verbatim>\<open>number_to_cells\<close> and only \<^verbatim>\<open>null\<close> is skipped by \<^verbatim>\<open>check_reveal\<close>.
\<close>

datatype cell_number = NumUndefined | NumNull | Num string

record bars =
  bar_top :: bool
  bar_bottom :: bool
  bar_left :: bool
  bar_right :: bool

text \<open>Strings that JavaScript tests for truthiness are \<open>[]\<close> when empty or absent.\<close>

record cell =
  ctype :: cell_type
  solution :: string
  number :: cell_number
  letter :: string
  empty_cell :: bool
  is_clue :: bool
  bar :: bars
  color :: "string option"
  shape :: "string option"
  checked :: bool
  revealed :: bool

subsection \<open>Characters\<close>

text \<open>The class \<^verbatim>\<open>[A-Za-z]\<close> of the regular expression in \<^verbatim>\<open>isCorrect\<close>.\<close>

definition is_alpha :: "char \<Rightarrow> bool" where
  "is_alpha c \<longleftrightarrow> (let n = of_char c :: nat in (65 \<le> n \<and> n \<le> 90) \<or> (97 \<le> n \<and> n \<le> 122))"

definition is_alnum :: "char \<Rightarrow> bool" where
  "is_alnum c \<longleftrightarrow> is_alpha c \<or> (let n = of_char c :: nat in 48 \<le> n \<and> n \<le> 57)"

text \<open>
  \<^verbatim>\<open>String.prototype.toUpperCase\<close> on the ASCII letters (characters are bytes in
  the model; the Unicode case mappings of JavaScript are not modelled).
\<close>

definition to_upper_char :: "char \<Rightarrow> char" where
  "to_upper_char c = (let n = of_char c :: nat in if 97 \<le> n \<and> n \<le> 122 then char_of (n - 32) else c)"

definition to_upper :: "string \<Rightarrow> string" where
  "to_upper s = map to_upper_char s"

subsection \<open>\<^verbatim>\<open>isCorrect\<close>\<close>

text \<open>
  \<^verbatim>\<open>if (entry && (solution.length > 1 || /[^A-Za-z]/.test(solution))) return true;
  else return entry == solution;\<close>
\<close>

definition is_correct :: "string \<Rightarrow> string \<Rightarrow> bool" where
  "is_correct entry sol =
     (if entry \<noteq> [] \<and> (1 < length sol \<or> (\<exists>c\<in>set sol. \<not> is_alpha c)) then True
      else entry = sol)"

text \<open>A cell the player can write into.\<close>

definition fillable_cell :: "cell \<Rightarrow> bool" where
  "fillable_cell c \<longleftrightarrow> \<not> empty_cell c"

text \<open>The loader's consistency of the derived flags with the type.\<close>

definition cell_ok :: "cell \<Rightarrow> bool" where
  "cell_ok c \<longleftrightarrow> (empty_cell c \<longleftrightarrow> ctype c \<in> {Block, Void, ClueCell})
                \<and> (is_clue c \<longleftrightarrow> ctype c = ClueCell)
                \<and> (\<not> empty_cell c \<longrightarrow> solution c \<noteq> [])"

subsection \<open>Lemmas\<close>

lemma is_correct_refl [simp]: "is_correct s s"
  by (simp add: is_correct_def)

lemma is_correct_nonalpha [simp]:
  "entry \<noteq> [] \<Longrightarrow> c \<in> set sol \<Longrightarrow> \<not> is_alpha c \<Longrightarrow> is_correct entry sol"
  by (auto simp: is_correct_def)

lemma is_correct_single_alpha:
  "sol = [c] \<Longrightarrow> is_alpha c \<Longrightarrow> is_correct entry sol \<longleftrightarrow> entry = sol"
  by (auto simp: is_correct_def)

lemma to_upper_length [simp]: "length (to_upper s) = length s"
  by (simp add: to_upper_def)

lemma to_upper_Nil_iff [simp]: "to_upper s = [] \<longleftrightarrow> s = []"
  by (simp add: to_upper_def)

lemma to_upper_char_lower_range:
  "let n = of_char (to_upper_char c) :: nat in \<not> (97 \<le> n \<and> n \<le> 122)"
proof -
  have "of_char (char_of (m :: nat)) = m mod 256" for m
    by (simp add: of_char_of)
  then show ?thesis
    by (auto simp: to_upper_char_def Let_def)
qed

end
