(* ===== verification/Grid.thy ===== *)
theory Grid
  imports Cell
begin

text \<open>
  The grid of \<^verbatim>\<open>CrossWord\<close>: \<^verbatim>\<open>this.cells\<close>, a two-level object keyed by
  \<^verbatim>\<open>x\<close> then \<^verbatim>\<open>y\<close>, is a map from coordinates to cells, and
  \<^verbatim>\<open>this.number_to_cells\<close> a map from a cell number to the coordinates of the cells
  that carry it, in load order.  The loader is the cell loop of \<^verbatim>\<open>parsePuzzle\<close>; the
  lookup is \<^verbatim>\<open>getCell\<close>; the enumeration is the \<^verbatim>\<open>for (i in this.cells) for (j in
  this.cells[i])\<close> loop of \<^verbatim>\<open>checkIfSolved\<close> and \<^verbatim>\<open>check_reveal\<close>, which visits
  integer keys in ascending order.
\<close>

type_synonym grid = "coord \<rightharpoonup> cell"
type_synonym number_index = "cell_number \<rightharpoonup> coord list"

subsection \<open>Operations\<close>

definition get_cell :: "grid \<Rightarrow> int \<Rightarrow> int \<Rightarrow> cell option" where
  "get_cell g x y = g (x, y)"

text \<open>A write through a reference to an existing cell object.\<close>

definition update_cell :: "coord \<Rightarrow> (cell \<Rightarrow> cell) \<Rightarrow> grid \<Rightarrow> grid" where
  "update_cell p f g = (case g p of None \<Rightarrow> g | Some c \<Rightarrow> g(p \<mapsto> f c))"

definition letter_at :: "grid \<Rightarrow> coord \<Rightarrow> string" where
  "letter_at g p = (case g p of Some c \<Rightarrow> letter c | None \<Rightarrow> [])"

definition fillable :: "grid \<Rightarrow> coord \<Rightarrow> bool" where
  "fillable g p = (case g p of Some c \<Rightarrow> fillable_cell c | None \<Rightarrow> False)"

text \<open>The coordinates the enumeration loops visit, in their order.\<close>

definition grid_coords :: "grid \<Rightarrow> int \<Rightarrow> int \<Rightarrow> coord list" where
  "grid_coords g w h = filter (\<lambda>p. g p \<noteq> None) (List.product [1..w] [1..h])"

text \<open>The grid dimensions bound the keys.\<close>

definition cells_in_box :: "grid \<Rightarrow> int \<Rightarrow> int \<Rightarrow> bool" where
  "cells_in_box g w h \<longleftrightarrow> (\<forall>p\<in>dom g. 1 \<le> fst p \<and> fst p \<le> w \<and> 1 \<le> snd p \<and> snd p \<le> h)"

subsection \<open>Loading\<close>

text \<open>A cell record as the external parser \<^verbatim>\<open>JSCrossword\<close> hands it over (0-based).\<close>

record pcell =
  pc_x :: int
  pc_y :: int
  pc_type :: cell_type
  pc_solution :: string
  pc_number :: cell_number
  pc_letter :: string
  pc_top_bar :: bool
  pc_bottom_bar :: bool
  pc_left_bar :: bool
  pc_right_bar :: bool
  pc_background_color :: "string option"
  pc_background_shape :: "string option"

text \<open>The pattern \<^verbatim>\<open>^#[A-Za-z0-9]{6}$\<close> of the colour check.\<close>

definition valid_color :: "string \<Rightarrow> bool" where
  "valid_color s \<longleftrightarrow> length s = 7 \<and> hd s = CHR ''#'' \<and> list_all is_alnum (tl s)"

text \<open>
  One iteration of the cell loop.  A badly formed colour is replaced by
  \<^verbatim>\<open>this.default_background_color\<close>, a property the solver never assigns: the
  cell ends up with no colour (\<open>None\<close>).
\<close>

definition load_cell :: "pcell \<Rightarrow> cell" where
  "load_cell p =
     (let emp = (pc_type p = Block \<or> pc_type p = Void \<or> pc_type p = ClueCell);
          col = (case pc_background_color p of
                   None \<Rightarrow> None
                 | Some s \<Rightarrow> if s \<noteq> [] \<and> \<not> valid_color s then None else Some s)
      in \<lparr>ctype = pc_type p,
          solution = (if \<not> emp \<and> pc_solution p = [] then ''*'' else pc_solution p),
          number = pc_number p,
          letter = pc_letter p,
          empty_cell = emp,
          is_clue = (pc_type p = ClueCell),
          bar = \<lparr>bar_top = pc_top_bar p, bar_bottom = pc_bottom_bar p,
                 bar_left = pc_left_bar p, bar_right = pc_right_bar p\<rparr>,
          color = col,
          shape = pc_background_shape p,
          checked = False,
          revealed = False\<rparr>)"

definition cell_pos :: "pcell \<Rightarrow> coord" where
  "cell_pos p = (pc_x p + 1, pc_y p + 1)"

fun load_cells :: "pcell list \<Rightarrow> grid \<times> number_index \<Rightarrow> grid \<times> number_index" where
  "load_cells [] acc = acc"
| "load_cells (p # ps) (g, nums) =
     (let c = load_cell p; xy = cell_pos p in
      load_cells ps (g(xy \<mapsto> c),
                     nums(number c \<mapsto> (case nums (number c) of None \<Rightarrow> [xy] | Some l \<Rightarrow> l @ [xy]))))"

text \<open>Every coordinate listed under a number holds a cell with that number.\<close>

definition numbers_ok :: "grid \<Rightarrow> number_index \<Rightarrow> bool" where
  "numbers_ok g nums \<longleftrightarrow>
     (\<forall>n ps. nums n = Some ps \<longrightarrow> (\<forall>p\<in>set ps. \<exists>c. g p = Some c \<and> number c = n))"

subsection \<open>Lemmas\<close>

lemma update_cell_same [simp]:
  "update_cell p f g p = map_option f (g p)"
  by (auto simp: update_cell_def split: option.splits)

lemma update_cell_other [simp]:
  "q \<noteq> p \<Longrightarrow> update_cell p f g q = g q"
  by (auto simp: update_cell_def split: option.splits)

lemma dom_update_cell [simp]: "dom (update_cell p f g) = dom g"
  by (auto simp: update_cell_def split: option.splits)

lemma update_cell_apply:
  "update_cell p f g q = (if q = p then map_option f (g q) else g q)"
  by simp

lemma cells_in_box_update [simp]:
  "cells_in_box (update_cell p f g) w h = cells_in_box g w h"
  by (simp add: cells_in_box_def)

lemma cells_in_boxD:
  "cells_in_box g w h \<Longrightarrow> g (x, y) \<noteq> None \<Longrightarrow> 1 \<le> x \<and> x \<le> w \<and> 1 \<le> y \<and> y \<le> h"
  unfolding cells_in_box_def by (metis domIff fst_conv snd_conv)

lemma set_grid_coords:
  "cells_in_box g w h \<Longrightarrow> set (grid_coords g w h) = dom g"
  by (force simp: grid_coords_def cells_in_box_def)

lemma distinct_grid_coords: "distinct (grid_coords g w h)"
  by (simp add: grid_coords_def distinct_product)

lemma grid_coords_update [simp]:
  "grid_coords (update_cell p f g) w h = grid_coords g w h"
  unfolding grid_coords_def
  by (rule filter_cong) (auto simp: update_cell_def split: option.splits)

lemma load_cell_ok: "cell_ok (load_cell p)"
  by (auto simp: cell_ok_def load_cell_def Let_def)

lemma load_cell_number [simp]: "number (load_cell p) = pc_number p"
  by (simp add: load_cell_def Let_def)

lemma numbers_ok_load_step:
  assumes "numbers_ok g nums" and "\<forall>ps. nums n = Some ps \<longrightarrow> xy \<notin> set ps"
    and "\<forall>n' ps. nums n' = Some ps \<longrightarrow> xy \<notin> set ps" and "number c = n"
  shows "numbers_ok (g(xy \<mapsto> c)) (nums(n \<mapsto> (case nums n of None \<Rightarrow> [xy] | Some l \<Rightarrow> l @ [xy])))"
  using assms unfolding numbers_ok_def
  by (auto split: option.splits)

lemma load_cells_wf:
  assumes "distinct (map cell_pos ps)" and "\<forall>q\<in>cell_pos ` set ps. g q = None"
    and "numbers_ok g nums" and "\<forall>n qs. nums n = Some qs \<longrightarrow> set qs \<subseteq> dom g"
  shows "numbers_ok (fst (load_cells ps (g, nums))) (snd (load_cells ps (g, nums)))
         \<and> (\<forall>n qs. snd (load_cells ps (g, nums)) n = Some qs \<longrightarrow> set qs \<subseteq> dom (fst (load_cells ps (g, nums))))
         \<and> dom (fst (load_cells ps (g, nums))) = dom g \<union> cell_pos ` set ps
         \<and> (\<forall>q c. fst (load_cells ps (g, nums)) q = Some c \<longrightarrow> g q = Some c \<or> (\<exists>p\<in>set ps. c = load_cell p))"
  using assms
proof (induction ps arbitrary: g nums)
  case Nil
  then show ?case by simp
next
  case (Cons p ps)
  let ?xy = "cell_pos p" and ?c = "load_cell p"
  let ?g = "g(?xy \<mapsto> ?c)"
  let ?n = "nums(number ?c \<mapsto> (case nums (number ?c) of None \<Rightarrow> [?xy] | Some l \<Rightarrow> l @ [?xy]))"
  let ?r = "load_cells ps (?g, ?n)"
  have free: "g ?xy = None" using Cons.prems(2) by simp
  have notin: "\<forall>n' qs. nums n' = Some qs \<longrightarrow> ?xy \<notin> set qs"
    using Cons.prems(4) free by blast
  have ok: "numbers_ok ?g ?n"
    by (rule numbers_ok_load_step [OF Cons.prems(3)]) (use notin in auto)
  have sub: "\<forall>n qs. ?n n = Some qs \<longrightarrow> set qs \<subseteq> dom ?g"
  proof (intro allI impI)
    fix n qs assume n: "?n n = Some qs"
    show "set qs \<subseteq> dom ?g"
    proof (cases "n = number ?c")
      case True
      show ?thesis
      proof (cases "nums (number ?c)")
        case None
        with n True have "qs = [?xy]" by simp
        then show ?thesis by simp
      next
        case (Some l)
        with Cons.prems(4) have "set l \<subseteq> dom g" by blast
        with n True Some show ?thesis by auto
      qed
    next
      case False
      with n Cons.prems(4) show ?thesis by auto
    qed
  qed
  have fr: "\<forall>q\<in>cell_pos ` set ps. ?g q = None"
    using Cons.prems(1,2) by (auto simp: image_iff)
  have dist: "distinct (map cell_pos ps)" using Cons.prems(1) by simp
  have ih: "numbers_ok (fst ?r) (snd ?r)
         \<and> (\<forall>n qs. snd ?r n = Some qs \<longrightarrow> set qs \<subseteq> dom (fst ?r))
         \<and> dom (fst ?r) = dom ?g \<union> cell_pos ` set ps
         \<and> (\<forall>q c. fst ?r q = Some c \<longrightarrow> ?g q = Some c \<or> (\<exists>p\<in>set ps. c = load_cell p))"
    by (rule Cons.IH [OF dist fr ok sub])
  have eq: "load_cells (p # ps) (g, nums) = ?r"
    by (simp add: Let_def)
  have d: "dom (fst ?r) = dom g \<union> cell_pos ` set (p # ps)"
    using ih by auto
  have c: "\<forall>q c. fst ?r q = Some c \<longrightarrow> g q = Some c \<or> (\<exists>p'\<in>set (p # ps). c = load_cell p')"
  proof (intro allI impI)
    fix q c assume "fst ?r q = Some c"
    with ih have "?g q = Some c \<or> (\<exists>p\<in>set ps. c = load_cell p)" by blast
    then show "g q = Some c \<or> (\<exists>p'\<in>set (p # ps). c = load_cell p')"
      by (cases "q = ?xy") auto
  qed
  note A = conjunct1 [OF ih] and B = conjunct1 [OF conjunct2 [OF ih]]
  show ?case
    unfolding eq by (intro conjI A B d c)
qed


end
