(* ===== verification/Word.thy ===== *)
theory Word
  imports Grid
begin

text \<open>
  The class \<^verbatim>\<open>Word\<close> of \<^verbatim>\<open>src/js/crosswords.js\<close>: a word is an id, the cell
  ranges it was built from, the expanded coordinate list \<^verbatim>\<open>this.cells\<close> (the source
  keeps it as strings \<^verbatim>\<open>"x-y"\<close>, an injective encoding of the coordinate pair)
  and its clue.  Its methods read cells through \<^verbatim>\<open>this.crossword.getCell\<close>, so each
  one here takes the grid as a parameter; a method that returns a cell object returns
  the coordinate of an existing cell of the grid.
\<close>

type_synonym word_id = string

record clue =
  clue_word :: word_id
  clue_number :: string
  clue_text :: string

text \<open>
  One axis of a compact cell range, after \<^verbatim>\<open>split('-')\<close>: a single number or a
  span \<open>from-to\<close>.
\<close>

datatype axis = Single int | Span int int

type_synonym cell_range = "axis \<times> axis"

record word =
  w_id :: word_id
  cell_ranges :: "cell_range list"
  w_cells :: "coord list"
  w_clue :: "clue option"

subsection \<open>\<^verbatim>\<open>parseRanges\<close>\<close>

fun axis_first :: "axis \<Rightarrow> int" where
  "axis_first (Single a) = a"
| "axis_first (Span a b) = a"

text \<open>\<^verbatim>\<open>for (k = from; from < to ? k <= to : k >= to; from < to ? k++ : k--)\<close>\<close>

definition js_range :: "int \<Rightarrow> int \<Rightarrow> int list" where
  "js_range a b = (if a < b then [a..b] else rev [b..a])"

text \<open>
  A span on the x axis wins (its y is the first part of the y field), then a span on
  the y axis, else a single cell.
\<close>

fun range_cells :: "cell_range \<Rightarrow> coord list" where
  "range_cells (Span a b, ry) = map (\<lambda>k. (k, axis_first ry)) (js_range a b)"
| "range_cells (Single x, Span a b) = map (\<lambda>k. (x, k)) (js_range a b)"
| "range_cells (Single x, Single y) = [(x, y)]"

definition parse_ranges :: "cell_range list \<Rightarrow> coord list" where
  "parse_ranges rs = concat (map range_cells rs)"

text \<open>The constructor with its complete data (\<^verbatim>\<open>id\<close>, \<^verbatim>\<open>cell_ranges\<close>, \<^verbatim>\<open>clue\<close>).\<close>

definition new_word :: "word_id \<Rightarrow> cell_range list \<Rightarrow> clue option \<Rightarrow> word" where
  "new_word i rs c = \<lparr>w_id = i, cell_ranges = rs, w_cells = parse_ranges rs, w_clue = c\<rparr>"

subsection \<open>Methods\<close>

definition has_cell :: "word \<Rightarrow> int \<Rightarrow> int \<Rightarrow> bool" where
  "has_cell w x y \<longleftrightarrow> (x, y) \<in> set (w_cells w)"

definition get_cell_by_coordinates :: "grid \<Rightarrow> coord \<Rightarrow> coord option" where
  "get_cell_by_coordinates g p = (case g p of Some _ \<Rightarrow> Some p | None \<Rightarrow> None)"

text \<open>The test \<^verbatim>\<open>cell && !cell.letter\<close> of the scanning loops.\<close>

definition empty_cell_at :: "grid \<Rightarrow> coord \<Rightarrow> coord option" where
  "empty_cell_at g p = (case g p of Some c \<Rightarrow> if letter c = [] then Some p else None | None \<Rightarrow> None)"

text \<open>
  The start index of \<^verbatim>\<open>getFirstEmptyCell(x, y)\<close>: with a hint (\<^verbatim>\<open>x && y\<close>
  truthy) the index of the hinted cell, clamped at 0, and 0 again when that is the last
  cell.
\<close>

definition first_empty_start :: "word \<Rightarrow> coord option \<Rightarrow> nat" where
  "first_empty_start w hint =
     (case hint of
        None \<Rightarrow> 0
      | Some (x, y) \<Rightarrow>
          if x \<noteq> 0 \<and> y \<noteq> 0 then
            (let st = max 0 (index_of (w_cells w) (x, y))
             in if st = int (length (w_cells w)) - 1 then 0 else nat st)
          else 0)"

definition get_first_empty_cell :: "grid \<Rightarrow> word \<Rightarrow> coord option \<Rightarrow> coord option" where
  "get_first_empty_cell g w hint =
     (let cs = w_cells w; start = first_empty_start w hint in
      case first_some (empty_cell_at g) (drop start cs) of
        Some p \<Rightarrow> Some p
      | None \<Rightarrow> if 0 < start then first_some (empty_cell_at g) (take start cs) else None)"

definition is_filled :: "grid \<Rightarrow> word \<Rightarrow> bool" where
  "is_filled g w \<longleftrightarrow> get_first_empty_cell g w None = None"

definition get_first_cell :: "grid \<Rightarrow> word \<Rightarrow> coord option" where
  "get_first_cell g w = (case w_cells w of [] \<Rightarrow> None | p # _ \<Rightarrow> get_cell_by_coordinates g p)"

definition get_last_cell :: "grid \<Rightarrow> word \<Rightarrow> coord option" where
  "get_last_cell g w = (if w_cells w = [] then None else get_cell_by_coordinates g (last (w_cells w)))"

definition get_next_cell :: "grid \<Rightarrow> word \<Rightarrow> coord \<Rightarrow> coord option" where
  "get_next_cell g w p =
     (let cs = w_cells w; i = index_of cs p in
      if i < int (length cs) - 1 then get_cell_by_coordinates g (cs ! nat (i + 1)) else None)"

definition get_previous_cell :: "grid \<Rightarrow> word \<Rightarrow> coord \<Rightarrow> coord option" where
  "get_previous_cell g w p =
     (let cs = w_cells w; i = index_of cs p in
      if 0 < i then get_cell_by_coordinates g (cs ! nat (i - 1)) else None)"

text \<open>\<^verbatim>\<open>solve()\<close>: every cell of the word gets its solution as letter.\<close>

definition solve :: "grid \<Rightarrow> word \<Rightarrow> grid" where
  "solve g w = fold (\<lambda>p. update_cell p (\<lambda>c. c\<lparr>letter := solution c\<rparr>)) (w_cells w) g"

text \<open>\<^verbatim>\<open>getFirstEmptyCell() || getFirstCell()\<close>, the landing cell of a word.\<close>

definition landing_cell :: "grid \<Rightarrow> word \<Rightarrow> coord option" where
  "landing_cell g w = (case get_first_empty_cell g w None of Some p \<Rightarrow> Some p | None \<Rightarrow> get_first_cell g w)"

subsection \<open>Lemmas\<close>

lemma get_cell_by_coordinates_Some [simp]:
  "get_cell_by_coordinates g p = Some q \<longleftrightarrow> q = p \<and> g p \<noteq> None"
  by (auto simp: get_cell_by_coordinates_def split: option.splits)

lemma empty_cell_at_Some [simp]:
  "empty_cell_at g p = Some q \<longleftrightarrow> q = p \<and> g p \<noteq> None \<and> letter_at g p = []"
  by (auto simp: empty_cell_at_def letter_at_def split: option.splits)

lemma first_empty_start_bound:
  assumes "w_cells w \<noteq> []"
  shows "first_empty_start w hint < length (w_cells w)"
proof -
  have "nat (max 0 (index_of (w_cells w) p)) < length (w_cells w)" for p
    using index_of_lt [of "w_cells w" p] assms by (simp add: nat_less_iff)
  with assms show ?thesis
    by (auto simp: first_empty_start_def Let_def split: option.splits)
qed

lemma first_empty_start_Nil: "w_cells w = [] \<Longrightarrow> first_empty_start w hint = 0"
  by (auto simp: first_empty_start_def Let_def split: option.splits)

lemma first_some_empty_cell_at_Some:
  "first_some (empty_cell_at g) xs = Some p \<Longrightarrow> p \<in> set xs \<and> g p \<noteq> None \<and> letter_at g p = []"
  by (auto dest!: first_some_SomeD)

lemma empty_cell_at_None [simp]:
  "empty_cell_at g p = None \<longleftrightarrow> g p = None \<or> letter_at g p \<noteq> []"
  by (auto simp: empty_cell_at_def letter_at_def split: option.splits)

lemma length_js_range: "length (js_range a b) = nat \<bar>b - a\<bar> + 1"
  by (auto simp: js_range_def nat_add_distrib)

lemma distinct_js_range: "distinct (js_range a b)"
  by (simp add: js_range_def)

lemma set_js_range: "set (js_range a b) = {min a b..max a b}"
  by (auto simp: js_range_def)

lemma get_first_empty_cell_Some:
  "get_first_empty_cell g w hint = Some p \<Longrightarrow>
     p \<in> set (w_cells w) \<and> g p \<noteq> None \<and> letter_at g p = []"
  by (auto simp: get_first_empty_cell_def Let_def split: option.splits if_splits
           dest!: first_some_empty_cell_at_Some dest: in_set_dropD in_set_takeD)

text \<open>The two loops of \<^verbatim>\<open>getFirstEmptyCell\<close> scan the word's tail from the start, then its head.\<close>

lemma get_first_empty_cell_drop_take:
  "get_first_empty_cell g w hint =
     (let st = first_empty_start w hint in first_some (empty_cell_at g) (drop st (w_cells w) @ take st (w_cells w)))"
  by (auto simp: get_first_empty_cell_def Let_def first_some_append split: option.splits)

subsection \<open>Properties of the word methods\<close>

text \<open>
  C3: \<^verbatim>\<open>getFirstEmptyCell\<close> with its two loops (from the start index to the end,
  then from the beginning up to the start index) is the search for the first empty
  cell in the word rotated to its start index.
\<close>

theorem get_first_empty_cell_rotate:
  "get_first_empty_cell g w hint =
     first_some (empty_cell_at g) (rotate (first_empty_start w hint) (w_cells w))"
proof (cases "w_cells w = []")
  case True
  then show ?thesis by (simp add: get_first_empty_cell_def first_empty_start_Nil)
next
  case False
  let ?st = "first_empty_start w hint"
  from False have "?st < length (w_cells w)" by (rule first_empty_start_bound)
  then have "rotate ?st (w_cells w) = drop ?st (w_cells w) @ take ?st (w_cells w)"
    by (simp add: rotate_drop_take)
  then show ?thesis
    by (simp add: get_first_empty_cell_drop_take Let_def)
qed

text \<open>
  C2: the wrap-around law: on a word with exactly one empty cell the search finds
  that cell, whatever the start hint.
\<close>

theorem get_first_empty_cell_one_empty:
  assumes "p \<in> set (w_cells w)" and "g p \<noteq> None" and "letter_at g p = []"
    and "\<forall>q\<in>set (w_cells w). q \<noteq> p \<longrightarrow> g q = None \<or> letter_at g q \<noteq> []"
  shows "get_first_empty_cell g w hint = Some p"
  unfolding get_first_empty_cell_drop_take Let_def
  by (rule first_some_unique [where x = p]) (use assms in auto)

lemma get_first_empty_cell_filled:
  "\<forall>q\<in>set (w_cells w). g q = None \<or> letter_at g q \<noteq> [] \<Longrightarrow>
     get_first_empty_cell g w hint = None"
  by (simp add: get_first_empty_cell_drop_take Let_def first_some_None_iff)

lemma is_filled_iff:
  "is_filled g w \<longleftrightarrow> (\<forall>q\<in>set (w_cells w). g q = None \<or> letter_at g q \<noteq> [])"
  by (simp add: is_filled_def get_first_empty_cell_drop_take Let_def first_some_None_iff)

text \<open>
  C18: the search starts at the hinted cell itself, not after it: when that cell is
  empty and not the last of the word, it is the answer.
\<close>

theorem get_first_empty_cell_hint_itself:
  assumes "distinct (w_cells w)" and "Suc i < length (w_cells w)"
    and "w_cells w ! i = (x, y)" and "x \<noteq> 0" and "y \<noteq> 0"
    and "g (x, y) \<noteq> None" and "letter_at g (x, y) = []"
  shows "get_first_empty_cell g w (Some (x, y)) = Some (x, y)"
proof -
  have idx: "index_of (w_cells w) (x, y) = int i"
    using assms(1,2,3) index_of_nth_distinct [of "w_cells w" i] by simp
  then have "first_empty_start w (Some (x, y)) = i"
    using assms(2,4,5) by (simp add: first_empty_start_def)
  moreover have "drop i (w_cells w) = (x, y) # drop (Suc i) (w_cells w)"
    using assms(2,3) by (metis Cons_nth_drop_Suc Suc_lessD)
  moreover have e: "empty_cell_at g (x, y) = Some (x, y)"
    using assms(6,7) by (auto simp: empty_cell_at_def letter_at_def)
  ultimately show ?thesis
    by (simp add: get_first_empty_cell_def Let_def del: empty_cell_at_Some)
qed

lemma get_next_cell_nth:
  assumes "distinct (w_cells w)" and "Suc i < length (w_cells w)" and "g (w_cells w ! Suc i) \<noteq> None"
  shows "get_next_cell g w (w_cells w ! i) = Some (w_cells w ! Suc i)"
  using assms index_of_nth_distinct [of "w_cells w" i]
  by (auto simp: get_next_cell_def Let_def get_cell_by_coordinates_def nat_add_distrib)

lemma get_previous_cell_nth:
  assumes "distinct (w_cells w)" and "Suc i < length (w_cells w)" and "g (w_cells w ! i) \<noteq> None"
  shows "get_previous_cell g w (w_cells w ! Suc i) = Some (w_cells w ! i)"
  using assms index_of_nth_distinct [of "w_cells w" "Suc i"]
  by (auto simp: get_previous_cell_def Let_def get_cell_by_coordinates_def)

text \<open>
  C11: on a word without repeated cells, \<^verbatim>\<open>getPreviousCell\<close> undoes \<^verbatim>\<open>getNextCell\<close>.
\<close>

theorem get_next_previous_cell:
  assumes "distinct (w_cells w)" and "p \<in> set (w_cells w)" and "g p \<noteq> None"
    and "get_next_cell g w p = Some q"
  shows "get_previous_cell g w q = Some p"
proof -
  obtain i where i: "i < length (w_cells w)" "w_cells w ! i = p"
    using assms(2) by (auto simp: in_set_conv_nth)
  then have idx: "index_of (w_cells w) p = int i"
    using assms(1) index_of_nth_distinct by blast
  with assms(4) have "Suc i < length (w_cells w)" and "q = w_cells w ! Suc i"
    by (auto simp: get_next_cell_def Let_def nat_add_distrib split: if_splits)
  with i assms(1,3) show ?thesis
    using get_previous_cell_nth by blast
qed

text \<open>
  A coordinate outside the word is index \<open>-1\<close> for \<^verbatim>\<open>indexOf\<close>, and
  \<^verbatim>\<open>getNextCell\<close> then answers the first cell of the word.
\<close>

theorem get_next_cell_outside:
  "p \<notin> set (w_cells w) \<Longrightarrow> get_next_cell g w p = get_first_cell g w"
  by (cases "w_cells w") (auto simp: get_next_cell_def get_first_cell_def index_of_notin)

text \<open>
  C13: a compact range \<open>a-b\<close> on the x axis expands to \<open>|b - a| + 1\<close>
  distinct cells from \<open>(a, y)\<close> to \<open>(b, y)\<close>, in either direction.
\<close>

theorem range_cells_span:
  "distinct (range_cells (Span a b, ry)) \<and> length (range_cells (Span a b, ry)) = nat \<bar>b - a\<bar> + 1
   \<and> hd (range_cells (Span a b, ry)) = (a, axis_first ry)
   \<and> last (range_cells (Span a b, ry)) = (b, axis_first ry)"
proof -
  have d: "distinct (map (\<lambda>k. (k, axis_first ry)) (js_range a b))"
    by (simp add: distinct_map distinct_js_range inj_on_def)
  have ne: "js_range a b \<noteq> []"
    using length_js_range [of a b] by auto
  have ends: "hd [c..d] = c \<and> last [c..d] = d" if "c \<le> d" for c d :: int
    using upto_rec1 [OF that] upto_rec2 [OF that] by (metis list.sel(1) last_snoc)
  have "hd (js_range a b) = a \<and> last (js_range a b) = b"
    using ends [of a b] ends [of b a] by (auto simp: js_range_def hd_rev last_rev)
  with d ne show ?thesis
    by (simp add: length_js_range hd_map last_map)
qed

text \<open>The loader hands \<^verbatim>\<open>parseRanges\<close> single cells only, shifted to 1-based.\<close>

lemma parse_ranges_loader:
  "parse_ranges (map (\<lambda>(a, b). (Single (a + 1), Single (b + 1))) cs) = map (\<lambda>(a, b). (a + 1, b + 1)) cs"
  by (induction cs) (auto simp: parse_ranges_def)

end
