(* ===== verification/CluesGroup.thy ===== *)
theory CluesGroup
  imports Word
begin

text \<open>
  The class \<^verbatim>\<open>CluesGroup\<close> of \<^verbatim>\<open>src/js/crosswords.js\<close>: one clue list (one
  direction) with the ids of its words in reading order.  Its methods read the
  crossword's word table \<^verbatim>\<open>this.crossword.words\<close> and, in
  \<^verbatim>\<open>getMatchingWord\<close>, the crossword's selected word; both are parameters here.
  The display method \<^verbatim>\<open>markActive\<close> is not modelled.
\<close>

datatype group_id = CluesTop | CluesBottom

record clues_group =
  cg_id :: group_id
  title :: string
  clues :: "clue list"
  words_ids :: "word_id list"

type_synonym words_map = "word_id \<rightharpoonup> word"

subsection \<open>Methods\<close>

definition get_first_word :: "words_map \<Rightarrow> clues_group \<Rightarrow> word option" where
  "get_first_word ws g = (case words_ids g of [] \<Rightarrow> None | i # _ \<Rightarrow> ws i)"

definition get_last_word :: "words_map \<Rightarrow> clues_group \<Rightarrow> word option" where
  "get_last_word ws g = (if words_ids g = [] then None else ws (last (words_ids g)))"

text \<open>
  The candidate loop of \<^verbatim>\<open>getMatchingWord\<close>:
  \<^verbatim>\<open>for (i = 0; (word_id = this.words_ids[i]); i++)\<close> stops at the first falsy id,
  and keeps the words of the table that contain the cell.
\<close>

definition matching_words :: "words_map \<Rightarrow> clues_group \<Rightarrow> coord \<Rightarrow> word list" where
  "matching_words ws g p =
     List.map_filter (\<lambda>i. case ws i of Some w \<Rightarrow> if p \<in> set (w_cells w) then Some w else None
                                    | None \<Rightarrow> None)
       (takeWhile (\<lambda>i. i \<noteq> []) (words_ids g))"

text \<open>
  The disambiguation loop with \<^verbatim>\<open>change_word\<close> set: the first candidate after the
  first one with the selected id (the flag is \<^verbatim>\<open>finding_word\<close>).
\<close>

fun pick_after_current :: "word_id \<Rightarrow> bool \<Rightarrow> word list \<Rightarrow> word option" where
  "pick_after_current sid f [] = None"
| "pick_after_current sid f (w # ws) =
     (if w_id w = sid then pick_after_current sid True ws
      else if f then Some w else pick_after_current sid f ws)"

definition get_matching_word ::
  "words_map \<Rightarrow> word \<Rightarrow> clues_group \<Rightarrow> int \<Rightarrow> int \<Rightarrow> bool \<Rightarrow> word option" where
  "get_matching_word ws sel g x y change_word =
     (case matching_words ws g (x, y) of
        [] \<Rightarrow> None
      | [w] \<Rightarrow> Some w
      | w # rest \<Rightarrow>
          (if change_word then
             (case pick_after_current (w_id sel) False (w # rest) of Some v \<Rightarrow> Some v | None \<Rightarrow> Some w)
           else
             (case find (\<lambda>v. w_id v = w_id sel) (w # rest) of Some v \<Rightarrow> Some v | None \<Rightarrow> Some w)))"

definition get_next_word :: "words_map \<Rightarrow> clues_group \<Rightarrow> word \<Rightarrow> word option" where
  "get_next_word ws g w =
     (let ids = words_ids g; i = index_of ids (w_id w) in
      if i < int (length ids) - 1 then ws (ids ! nat (i + 1)) else None)"

definition get_previous_word :: "words_map \<Rightarrow> clues_group \<Rightarrow> word \<Rightarrow> word option" where
  "get_previous_word ws g w =
     (let ids = words_ids g; i = index_of ids (w_id w) in
      if 0 < i then ws (ids ! nat (i - 1)) else None)"

text \<open>The word table is keyed by the words' ids (\<^verbatim>\<open>this.words[word.id] = ...\<close>).\<close>

definition words_ok :: "words_map \<Rightarrow> bool" where
  "words_ok ws \<longleftrightarrow> (\<forall>i w. ws i = Some w \<longrightarrow> w_id w = i)"

text \<open>Every id of the list names a word of the table.\<close>

definition group_resolves :: "words_map \<Rightarrow> clues_group \<Rightarrow> bool" where
  "group_resolves ws g \<longleftrightarrow> (\<forall>i\<in>set (words_ids g). ws i \<noteq> None)"

text \<open>
  The abstract view of a clue list: its words in order.  \<open>list_succ\<close> and
  \<open>list_pred\<close> are the neighbours of an element in a list, the specification that
  \<^verbatim>\<open>getNextWord\<close> and \<^verbatim>\<open>getPreviousWord\<close> implement with index arithmetic.
\<close>

definition group_words :: "words_map \<Rightarrow> clues_group \<Rightarrow> word list" where
  "group_words ws g = List.map_filter ws (words_ids g)"

fun list_succ :: "'a list \<Rightarrow> 'a \<Rightarrow> 'a option" where
  "list_succ (x # y # xs) a = (if x = a then Some y else list_succ (y # xs) a)"
| "list_succ _ a = None"

fun list_pred :: "'a list \<Rightarrow> 'a \<Rightarrow> 'a option" where
  "list_pred (x # y # xs) a = (if x = a then None else if y = a then Some x else list_pred (y # xs) a)"
| "list_pred _ a = None"

subsection \<open>Lemmas\<close>

lemma set_matching_words:
  "set (matching_words ws g p) =
     {w. \<exists>i\<in>set (takeWhile (\<lambda>i. i \<noteq> []) (words_ids g)). ws i = Some w \<and> p \<in> set (w_cells w)}"
  by (auto simp: matching_words_def set_map_filter split: option.splits if_splits)

lemma pick_after_current_in: "pick_after_current sid f ws = Some v \<Longrightarrow> v \<in> set ws"
  by (induction sid f ws rule: pick_after_current.induct) (auto split: if_splits)

lemma get_matching_word_in:
  "get_matching_word ws sel g x y cw = Some v \<Longrightarrow> v \<in> set (matching_words ws g (x, y))"
  unfolding get_matching_word_def
  by (auto split: list.splits if_splits option.splits
           dest: pick_after_current_in find_Some_iff [THEN iffD1])

subsection \<open>Properties\<close>

text \<open>
  A word found by \<^verbatim>\<open>getMatchingWord\<close> is a word of the group's list that
  contains the cell.
\<close>

theorem get_matching_word_sound:
  "get_matching_word ws sel g x y cw = Some v \<Longrightarrow>
     (x, y) \<in> set (w_cells v) \<and> (\<exists>i\<in>set (words_ids g). ws i = Some v)"
  by (drule get_matching_word_in) (auto simp: set_matching_words dest: set_takeWhileD)

lemma get_matching_word_None_iff:
  "get_matching_word ws sel g x y cw = None \<longleftrightarrow> matching_words ws g (x, y) = []"
  by (auto simp: get_matching_word_def split: list.splits if_splits option.splits)

text \<open>
  C15: with two candidates \<open>a\<close> and \<open>b\<close>, a direction-switch lookup
  (\<^verbatim>\<open>change_word\<close>) from \<open>a\<close> gives \<open>b\<close> and from \<open>b\<close> gives \<open>a\<close>:
  the choice cycles; a plain lookup keeps the selected word.
\<close>

theorem get_matching_word_two:
  assumes "matching_words ws g (x, y) = [a, b]" and "w_id a \<noteq> w_id b"
  shows "get_matching_word ws a g x y True = Some b \<and> get_matching_word ws b g x y True = Some a
         \<and> get_matching_word ws b g x y False = Some b"
  using assms by (simp add: get_matching_word_def)

text \<open>
  C16: \<^verbatim>\<open>getPreviousWord\<close> undoes \<^verbatim>\<open>getNextWord\<close> on a list without repeated
  ids whose ids all name words of the table.
\<close>

theorem get_next_previous_word:
  assumes "distinct (words_ids g)" and "words_ok ws" and "ws (w_id w) = Some w"
    and "w_id w \<in> set (words_ids g)" and "get_next_word ws g w = Some v"
  shows "get_previous_word ws g v = Some w"
proof -
  let ?ids = "words_ids g"
  obtain i where i: "i < length ?ids" and iw: "?ids ! i = w_id w"
    using assms(4) by (auto simp: in_set_conv_nth)
  have idx: "index_of ?ids (w_id w) = int i"
    using index_of_nth_distinct [OF assms(1) i] iw by simp
  have n: "nat (int i + 1) = Suc i"
    by arith
  have "get_next_word ws g w = (if int i < int (length ?ids) - 1 then ws (?ids ! Suc i) else None)"
    by (simp add: get_next_word_def idx n)
  with assms(5) have si: "Suc i < length ?ids" and v: "ws (?ids ! Suc i) = Some v"
    by (auto split: if_splits)
  from v assms(2) have "w_id v = ?ids ! Suc i"
    by (simp add: words_ok_def)
  then have "index_of ?ids (w_id v) = int (Suc i)"
    using index_of_nth_distinct [OF assms(1) si] by simp
  then show ?thesis
    using iw assms(3) by (simp add: get_previous_word_def)
qed

text \<open>
  C17: an empty word id in a clue list ends the candidate loop of
  \<^verbatim>\<open>getMatchingWord\<close>: the words listed after it are never found by a cell lookup.
\<close>

theorem matching_words_stop_at_empty_id:
  assumes "words_ids g = ids1 @ [] # ids2" and "[] \<notin> set ids1"
  shows "matching_words ws g p = matching_words ws (g\<lparr>words_ids := ids1\<rparr>) p"
proof -
  have all: "\<forall>x\<in>set ids1. x \<noteq> []"
    using assms(2) by blast
  then have "takeWhile (\<lambda>i. i \<noteq> []) (words_ids g) = ids1"
    using assms(1) by (simp add: takeWhile_append2)
  moreover have "takeWhile (\<lambda>i. i \<noteq> []) ids1 = ids1"
    using all by (simp add: takeWhile_eq_all_conv)
  moreover have "words_ids (g\<lparr>words_ids := ids1\<rparr>) = ids1"
    by simp
  ultimately show ?thesis
    unfolding matching_words_def by (simp only:)
qed

lemma list_succ_nth:
  "distinct xs \<Longrightarrow> k < length xs \<Longrightarrow>
     list_succ xs (xs ! k) = (if Suc k < length xs then Some (xs ! Suc k) else None)"
proof (induction xs arbitrary: k)
  case Nil
  then show ?case by simp
next
  case (Cons x xs)
  show ?case
  proof (cases xs)
    case Nil
    with Cons.prems show ?thesis by simp
  next
    case (Cons y ys)
    show ?thesis
    proof (cases k)
      case 0
      with Cons show ?thesis by simp
    next
      case (Suc j)
      have j: "j < length xs" using Cons.prems(2) Suc by simp
      have "xs ! j \<noteq> x" using Cons.prems(1) j by (auto dest: nth_mem)
      with Cons.IH [of j] Cons.prems(1) j Suc \<open>xs = y # ys\<close> show ?thesis by simp
    qed
  qed
qed

lemma list_pred_nth:
  "distinct xs \<Longrightarrow> k < length xs \<Longrightarrow> list_pred xs (xs ! k) = (if k = 0 then None else Some (xs ! (k - 1)))"
proof (induction xs arbitrary: k)
  case Nil
  then show ?case by simp
next
  case (Cons x xs)
  show ?case
  proof (cases xs)
    case Nil
    with Cons.prems show ?thesis by simp
  next
    case (Cons y ys)
    show ?thesis
    proof (cases k)
      case 0
      with Cons show ?thesis by simp
    next
      case (Suc j)
      have j: "j < length xs" using Cons.prems(2) Suc by simp
      have nx: "xs ! j \<noteq> x" using Cons.prems(1) j by (auto dest: nth_mem)
      show ?thesis
      proof (cases j)
        case 0
        with Suc nx \<open>xs = y # ys\<close> show ?thesis by simp
      next
        case (Suc i)
        have "xs ! j \<noteq> y"
          using Cons.prems(1) j Suc \<open>xs = y # ys\<close> by (auto simp: nth_eq_iff_index_eq)
        with Cons.IH [of j] Cons.prems(1) j Suc \<open>k = Suc j\<close> nx \<open>xs = y # ys\<close> show ?thesis by simp
      qed
    qed
  qed
qed

lemma group_words_resolved:
  assumes "group_resolves ws g"
  shows "group_words ws g = map (\<lambda>i. the (ws i)) (words_ids g)"
proof -
  have "List.map_filter ws is = map (\<lambda>i. the (ws i)) is" if "\<forall>i\<in>set is. ws i \<noteq> None" for "is"
    using that by (induction "is") (auto simp: List.map_filter_def)
  with assms show ?thesis by (simp add: group_words_def group_resolves_def)
qed

lemma distinct_group_words:
  assumes "distinct (words_ids g)" and "group_resolves ws g" and "words_ok ws"
  shows "distinct (group_words ws g)"
proof -
  have "inj_on (\<lambda>i. the (ws i)) (set (words_ids g))"
  proof (rule inj_onI)
    fix i j assume i: "i \<in> set (words_ids g)" and j: "j \<in> set (words_ids g)" and eq: "the (ws i) = the (ws j)"
    from i j assms(2) have "ws i \<noteq> None" "ws j \<noteq> None"
      by (auto simp: group_resolves_def)
    then obtain v u where "ws i = Some v" "ws j = Some u" by blast
    with eq assms(3) show "i = j" by (auto simp: words_ok_def)
  qed
  with assms(1) show ?thesis
    by (simp add: group_words_resolved [OF assms(2)] distinct_map)
qed

text \<open>
  C33: on a clue list without repeated ids whose ids all name words of the table,
  \<^verbatim>\<open>getNextWord\<close> and \<^verbatim>\<open>getPreviousWord\<close> refine the successor and the
  predecessor in the list of the group's words.
\<close>

theorem get_next_previous_word_refine:
  assumes d: "distinct (words_ids g)" and r: "group_resolves ws g" and ok: "words_ok ws"
    and w: "w \<in> set (group_words ws g)"
  shows "get_next_word ws g w = list_succ (group_words ws g) w
         \<and> get_previous_word ws g w = list_pred (group_words ws g) w"
proof -
  let ?ids = "words_ids g" and ?gw = "group_words ws g"
  have gw: "?gw = map (\<lambda>i. the (ws i)) ?ids" by (rule group_words_resolved [OF r])
  obtain k where k: "k < length ?ids" and wk: "?gw ! k = w"
    using w by (auto simp: in_set_conv_nth gw)
  have some: "ws (?ids ! n) = Some (?gw ! n)" if "n < length ?ids" for n
    using r that by (auto simp: gw group_resolves_def)
  from some [OF k] wk ok have "w_id w = ?ids ! k" by (simp add: words_ok_def)
  then have idx: "index_of ?ids (w_id w) = int k"
    using index_of_nth_distinct [OF d k] by simp
  have dg: "distinct ?gw" by (rule distinct_group_words [OF d r ok])
  have len: "length ?gw = length ?ids" by (simp add: gw)
  have n1: "nat (int k + 1) = Suc k" and n2: "nat (int k - 1) = k - 1" by arith+
  have "get_next_word ws g w = list_succ ?gw w"
    using list_succ_nth [OF dg, of k] k wk len some [of "Suc k"] idx n1
    by (auto simp: get_next_word_def)
  moreover have "get_previous_word ws g w = list_pred ?gw w"
    using list_pred_nth [OF dg, of k] k wk len some [of "k - 1"] idx n2
    by (auto simp: get_previous_word_def)
  ultimately show ?thesis by simp
qed

end
