(* ===== verification/Settings.thy ===== *)
theory Settings
  imports Prelude
begin

text \<open>
  The solver's settings: the configuration map \<^verbatim>\<open>this.config\<close> of class
  \<^verbatim>\<open>CrossWord\<close>, built by the constructor from the settings saved in local storage,
  the page's \<^verbatim>\<open>user_config\<close> and \<^verbatim>\<open>default_config\<close>; written back by the click
  listener of the settings dialog (\<^verbatim>\<open>openSettings\<close>) and saved by
  \<^verbatim>\<open>saveSettings\<close>.  The map holds JSON values; the typed record \<open>config\<close> is the
  enumerated configuration structure that the engine's policy branches read, and
  \<open>config_of\<close> is the abstraction from the one to the other.
\<close>

subsection \<open>Configuration values\<close>

datatype jval = JNull | JBool bool | JNum int | JStr string

type_synonym jconfig = "string \<rightharpoonup> jval"

text \<open>JavaScript truthiness of a property read; a missing key reads \<^verbatim>\<open>undefined\<close>.\<close>

fun truthy :: "jval option \<Rightarrow> bool" where
  "truthy None = False"
| "truthy (Some JNull) = False"
| "truthy (Some (JBool b)) = b"
| "truthy (Some (JNum n)) = (n \<noteq> 0)"
| "truthy (Some (JStr s)) = (s \<noteq> [])"

text \<open>\<^verbatim>\<open>default_config\<close>, in the order of its keys.\<close>

definition default_config :: "(string \<times> jval) list" where
  "default_config =
     [(''hover_enabled'', JBool False), (''color_hover'', JStr ''#FFFFAA''),
      (''color_selected'', JStr ''#FF4136''), (''color_word'', JStr ''#FEE300''),
      (''color_hilite'', JStr ''#F8E473''), (''color_none'', JStr ''#FFFFFF''),
      (''background_color_clue'', JStr ''#666666''), (''default_background_color'', JStr ''#c2ed7e''),
      (''font_color_clue'', JStr ''#FFFFFF''), (''color_block'', JStr ''#000000''),
      (''puzzle_file'', JNull), (''puzzles'', JNull), (''skip_filled_letters'', JBool True),
      (''arrow_direction'', JStr ''arrow_move_filled''), (''space_bar'', JStr ''space_clear''),
      (''savegame_name'', JStr ''''), (''filled_clue_color'', JStr ''#999999''),
      (''timer_autostart'', JBool False), (''tab_key'', JStr ''tab_noskip'')]"

text \<open>
  \<^verbatim>\<open>obj && obj.hasOwnProperty(k) ? obj[k] : ...\<close>: an absent or \<^verbatim>\<open>null\<close> object
  (\<^verbatim>\<open>JSON.parse\<close> of a missing storage item, an undefined \<^verbatim>\<open>user_config\<close>) is \<open>None\<close>.
\<close>

fun own :: "jconfig option \<Rightarrow> string \<Rightarrow> jval option" where
  "own None k = None"
| "own (Some m) k = m k"

text \<open>
  The constructor's loop over the keys of \<^verbatim>\<open>default_config\<close>: a saved setting wins
  over the page's \<^verbatim>\<open>user_config\<close>, which wins over the default.  Keys outside
  \<^verbatim>\<open>default_config\<close> are not copied.
\<close>

definition merge_config :: "jconfig option \<Rightarrow> jconfig option \<Rightarrow> jconfig" where
  "merge_config saved_settings user_config =
     fold (\<lambda>(i, d) c. c(i \<mapsto> (case own saved_settings i of Some v \<Rightarrow> v
                              | None \<Rightarrow> (case own user_config i of Some v \<Rightarrow> v | None \<Rightarrow> d))))
       default_config Map.empty"

text \<open>
  \<^verbatim>\<open>saveSettings()\<close>: a copy of the configuration without the puzzle keys, as
  \<^verbatim>\<open>JSON.parse\<close> reads it back from storage (the values are JSON values, which
  \<^verbatim>\<open>JSON.stringify\<close> and \<^verbatim>\<open>JSON.parse\<close> carry over unchanged).
\<close>

definition save_settings :: "jconfig \<Rightarrow> jconfig" where
  "save_settings c = c(''puzzle_file'' := None, ''puzzles'' := None)"

subsection \<open>The settings dialog\<close>

text \<open>
  The inputs of the dialog's HTML, as \<open>(id, type, name)\<close>; each has class
  \<^verbatim>\<open>settings-changer\<close>.
\<close>

definition settings_inputs :: "(string \<times> string \<times> string) list" where
  "settings_inputs =
     [(''skip_filled_letters'', ''checkbox'', ''skip_filled_letters''),
      (''arrow_stay'', ''radio'', ''arrow_direction''), (''arrow_move'', ''radio'', ''arrow_direction''),
      (''arrow_move_filled'', ''radio'', ''arrow_direction''),
      (''space_clear'', ''radio'', ''space_bar''), (''space_switch'', ''radio'', ''space_bar''),
      (''tab_noskip'', ''radio'', ''tab_key''), (''tab_skip'', ''radio'', ''tab_key''),
      (''timer_autostart'', ''checkbox'', ''timer_autostart'')]"

text \<open>
  The loop of \<^verbatim>\<open>openSettings\<close> that shows the configuration: a radio is checked when
  its setting holds its id, a checkbox when its setting is truthy.
\<close>

definition shown_checked :: "jconfig \<Rightarrow> string \<times> string \<times> string \<Rightarrow> bool" where
  "shown_checked c inp =
     (case inp of (i, ty, n) \<Rightarrow> if ty = ''radio'' then c n = Some (JStr i) else truthy (c n))"

text \<open>The element a click lands on, as the listener reads it from \<^verbatim>\<open>event.target\<close>.\<close>

record target =
  t_class :: string
  t_type :: string
  t_name :: string
  t_id :: string
  t_checked :: bool

text \<open>
  The click listener of the dialog: a checkbox stores its new checked state, a radio
  its id, under the input's name; every click, on an input or not, saves the
  settings.  The result is the new configuration and the stored settings.
\<close>

definition settings_clicked :: "jconfig \<Rightarrow> target \<Rightarrow> jconfig \<times> jconfig" where
  "settings_clicked c tg =
     (let c' = (if t_class tg = ''settings-changer'' then
                  (if t_type tg = ''checkbox'' then c(t_name tg \<mapsto> JBool (t_checked tg))
                   else if t_type tg = ''radio'' then c(t_name tg \<mapsto> JStr (t_id tg))
                   else c)
                else c)
      in (c', save_settings c'))"

text \<open>
  A click on an input of the dialog as the browser delivers it: a checkbox has
  already toggled the state shown, a radio is checked.
\<close>

definition input_click :: "jconfig \<Rightarrow> string \<times> string \<times> string \<Rightarrow> target" where
  "input_click c inp =
     (case inp of (i, ty, n) \<Rightarrow>
        \<lparr>t_class = ''settings-changer'', t_type = ty, t_name = n, t_id = i,
         t_checked = (if ty = ''radio'' then True else \<not> shown_checked c inp)\<rparr>)"

subsection \<open>The enumerated configuration\<close>

datatype arrow_direction = ArrowStay | ArrowMove | ArrowMoveFilled
datatype space_bar = SpaceClear | SpaceSwitch
datatype tab_key = TabNoskip | TabSkip

record config =
  skip_filled_letters :: bool
  arrow_direction :: arrow_direction
  space_bar :: space_bar
  tab_key :: tab_key
  timer_autostart :: bool

text \<open>
  What the engine's reads make of the map: \<^verbatim>\<open>if (this.config.skip_filled_letters)\<close>,
  \<^verbatim>\<open>this.config.arrow_direction === 'arrow_stay'\<close> and so on; a string that names no
  option behaves as the option of the final \<^verbatim>\<open>else\<close>.
\<close>

definition config_of :: "jconfig \<Rightarrow> config" where
  "config_of c =
     \<lparr>skip_filled_letters = truthy (c ''skip_filled_letters''),
      arrow_direction = (if c ''arrow_direction'' = Some (JStr ''arrow_stay'') then ArrowStay
                         else if c ''arrow_direction'' = Some (JStr ''arrow_move_filled'') then ArrowMoveFilled
                         else ArrowMove),
      space_bar = (if c ''space_bar'' = Some (JStr ''space_switch'') then SpaceSwitch else SpaceClear),
      tab_key = (if c ''tab_key'' = Some (JStr ''tab_skip'') then TabSkip else TabNoskip),
      timer_autostart = truthy (c ''timer_autostart'')\<rparr>"

text \<open>
  The dialog's promise on the enumerated configuration: a checkbox toggles its
  policy, a radio selects the option it names.
\<close>

definition click_spec :: "config \<Rightarrow> string \<times> string \<times> string \<Rightarrow> config" where
  "click_spec cf inp =
     (case inp of (i, ty, n) \<Rightarrow>
        if n = ''skip_filled_letters'' then cf\<lparr>skip_filled_letters := \<not> skip_filled_letters cf\<rparr>
        else if n = ''timer_autostart'' then cf\<lparr>timer_autostart := \<not> timer_autostart cf\<rparr>
        else if n = ''arrow_direction'' then
          cf\<lparr>arrow_direction := (if i = ''arrow_stay'' then ArrowStay
                                 else if i = ''arrow_move'' then ArrowMove else ArrowMoveFilled)\<rparr>
        else if n = ''space_bar'' then cf\<lparr>space_bar := (if i = ''space_switch'' then SpaceSwitch else SpaceClear)\<rparr>
        else cf\<lparr>tab_key := (if i = ''tab_skip'' then TabSkip else TabNoskip)\<rparr>)"

text \<open>
  A configuration is well typed when every key of \<^verbatim>\<open>default_config\<close> is present
  with a value of the default's JSON type; a \<^verbatim>\<open>null\<close> default admits any value.
\<close>

fun same_kind :: "jval \<Rightarrow> jval \<Rightarrow> bool" where
  "same_kind _ JNull = True"
| "same_kind (JBool _) (JBool _) = True"
| "same_kind (JNum _) (JNum _) = True"
| "same_kind (JStr _) (JStr _) = True"
| "same_kind _ _ = False"

definition config_typed :: "jconfig \<Rightarrow> bool" where
  "config_typed c \<longleftrightarrow>
     list_all (\<lambda>(k, d). case c k of None \<Rightarrow> False | Some v \<Rightarrow> same_kind v d) default_config"

definition values_typed :: "jconfig option \<Rightarrow> bool" where
  "values_typed m \<longleftrightarrow>
     list_all (\<lambda>(k, d). case own m k of None \<Rightarrow> True | Some v \<Rightarrow> same_kind v d) default_config"

subsection \<open>Lemmas\<close>

lemma distinct_default_keys: "distinct (map fst default_config)"
  by (simp add: default_config_def)

lemma merge_config_lookup:
  "merge_config s u k =
     (case map_of default_config k of None \<Rightarrow> None
      | Some d \<Rightarrow> Some (case own s k of Some v \<Rightarrow> v | None \<Rightarrow> (case own u k of Some v \<Rightarrow> v | None \<Rightarrow> d)))"
  unfolding merge_config_def
  by (simp add: fold_update_lookup [OF distinct_default_keys] split: option.split)

text \<open>
  C34: saving and reloading the settings restores every key of \<^verbatim>\<open>default_config\<close>
  that the configuration held, except the two puzzle keys, which
  \<^verbatim>\<open>saveSettings\<close> drops; those, and keys the configuration lacked, come from
  the page's \<^verbatim>\<open>user_config\<close> or the defaults as on a first visit.
\<close>

theorem settings_reload:
  assumes "k \<in> fst ` set default_config"
  shows "merge_config (Some (save_settings c)) u k =
           (if k = ''puzzle_file'' \<or> k = ''puzzles'' \<or> c k = None then merge_config None u k else c k)"
proof -
  have "map_of default_config k \<noteq> None"
    using assms by (simp add: map_of_eq_None_iff)
  then obtain d where d: "map_of default_config k = Some d" by blast
  show ?thesis
    by (simp add: merge_config_lookup d save_settings_def split: option.split)
qed

lemma same_kind_refl [simp]: "same_kind v v"
  by (cases v) auto

text \<open>
  C36: the constructor's configuration is well typed: every key of
  \<^verbatim>\<open>default_config\<close> is present, with a value of its default's JSON type,
  whenever the saved settings and the page's \<^verbatim>\<open>user_config\<close> hold values of
  those types.
\<close>

theorem merge_config_typed:
  assumes "values_typed s" and "values_typed u"
  shows "config_typed (merge_config s u)"
proof -
  have "case merge_config s u k of None \<Rightarrow> False | Some v \<Rightarrow> same_kind v d"
    if kd: "(k, d) \<in> set default_config" for k d
  proof -
    have m: "map_of default_config k = Some d" by (rule map_of_is_SomeI [OF distinct_default_keys kd])
    have "case own s k of None \<Rightarrow> True | Some v \<Rightarrow> same_kind v d"
      using assms(1) kd by (auto simp: values_typed_def list_all_iff)
    moreover have "case own u k of None \<Rightarrow> True | Some v \<Rightarrow> same_kind v d"
      using assms(2) kd by (auto simp: values_typed_def list_all_iff)
    ultimately show ?thesis by (simp add: merge_config_lookup m split: option.splits)
  qed
  then show ?thesis by (auto simp: config_typed_def list_all_iff)
qed

lemma config_typed_update:
  assumes c: "config_typed c" and n: "map_of default_config n = Some d" and v: "same_kind v d"
  shows "config_typed (c(n \<mapsto> v))"
proof -
  have "case (c(n \<mapsto> v)) k of None \<Rightarrow> False | Some w \<Rightarrow> same_kind w e"
    if ke: "(k, e) \<in> set default_config" for k e
  proof (cases "k = n")
    case True
    with n map_of_is_SomeI [OF distinct_default_keys ke] v show ?thesis by simp
  next
    case False
    with c ke show ?thesis by (auto simp: config_typed_def list_all_iff)
  qed
  then show ?thesis by (auto simp: config_typed_def list_all_iff)
qed



lemma settings_inputs_all: "list_all P settings_inputs \<Longrightarrow> inp \<in> set settings_inputs \<Longrightarrow> P inp"
  by (simp add: list_all_iff)

lemmas click_defs = settings_clicked_def input_click_def shown_checked_def Let_def

text \<open>
  A click on any input of the settings dialog keeps the configuration well
  typed.
\<close>

theorem settings_click_typed:
  assumes "config_typed c" and "inp \<in> set settings_inputs"
  shows "config_typed (fst (settings_clicked c (input_click c inp)))"
proof (rule settings_inputs_all [OF _ assms(2)])
  show "list_all (\<lambda>inp. config_typed (fst (settings_clicked c (input_click c inp)))) settings_inputs"
    by (simp add: settings_inputs_def click_defs config_typed_update [OF assms(1)] default_config_def)
qed

text \<open>
  C35: the dialog's click listener implements the enumerated configuration's
  contract: read through \<open>config_of\<close>, clicking a checkbox toggles its policy and
  clicking a radio selects the option it names, leaving the other policies as they
  were.
\<close>

theorem settings_click_refine:
  assumes "inp \<in> set settings_inputs"
  shows "config_of (fst (settings_clicked c (input_click c inp))) = click_spec (config_of c) inp"
proof (rule settings_inputs_all [OF _ assms])
  show "list_all (\<lambda>inp. config_of (fst (settings_clicked c (input_click c inp))) = click_spec (config_of c) inp)
          settings_inputs"
    by (simp add: settings_inputs_def click_defs config_of_def click_spec_def)
qed

text \<open>
  After a click the dialog shows the new state: the clicked radio is the one
  checked in its group, a clicked checkbox shows its toggled state, and the inputs
  of the other settings show what they showed before.
\<close>

theorem settings_click_shown:
  assumes "inp \<in> set settings_inputs" and "j \<in> set settings_inputs"
  shows "shown_checked (fst (settings_clicked c (input_click c inp))) j =
           (if snd (snd j) = snd (snd inp) then
              (if fst (snd j) = ''radio'' then j = inp else \<not> shown_checked c inp)
            else shown_checked c j)"
proof (rule settings_inputs_all [OF _ assms(2)], rule settings_inputs_all [OF _ assms(1)])
  show "list_all (\<lambda>inp. list_all (\<lambda>j. shown_checked (fst (settings_clicked c (input_click c inp))) j =
           (if snd (snd j) = snd (snd inp) then
              (if fst (snd j) = ''radio'' then j = inp else \<not> shown_checked c inp)
            else shown_checked c j)) settings_inputs) settings_inputs"
    by (simp add: settings_inputs_def click_defs)
qed

lemma config_typed_present:
  assumes "config_typed c" and "(k, d) \<in> set default_config"
  shows "c k \<noteq> None"
  using assms by (auto simp: config_typed_def list_all_iff split: option.splits)

lemma settings_clicked_dom: "c k \<noteq> None \<Longrightarrow> fst (settings_clicked c tg) k \<noteq> None"
  by (simp add: settings_clicked_def Let_def)

lemma reload_present:
  assumes "c k \<noteq> None" and "(k, d) \<in> set default_config" and "k \<noteq> ''puzzle_file''" and "k \<noteq> ''puzzles''"
  shows "merge_config (Some (save_settings c)) u k = c k"
  using assms map_of_is_SomeI [OF distinct_default_keys assms(2)]
  by (auto simp: merge_config_lookup save_settings_def split: option.split)

text \<open>
  C39: a dialog click and the next session agree: the settings the click saves,
  merged by the next constructor with any \<^verbatim>\<open>user_config\<close>, give the policies
  that the click put in force, when the configuration was well typed.
\<close>

theorem settings_click_persists:
  assumes "config_typed c" and "inp \<in> set settings_inputs"
  shows "config_of (merge_config (Some (snd (settings_clicked c (input_click c inp)))) u)
           = config_of (fst (settings_clicked c (input_click c inp)))"
proof -
  let ?c' = "fst (settings_clicked c (input_click c inp))"
  have same: "merge_config (Some (snd (settings_clicked c (input_click c inp)))) u k = ?c' k"
    if "(k, d) \<in> set default_config" and "k \<noteq> ''puzzle_file''" and "k \<noteq> ''puzzles''" for k d
  proof -
    have "?c' k \<noteq> None"
      by (rule settings_clicked_dom [of c k, OF config_typed_present [OF assms(1) that(1)]])
    then show ?thesis
      using reload_present [OF _ that] by (simp add: settings_clicked_def Let_def)
  qed
  have k: "(''skip_filled_letters'', JBool True) \<in> set default_config"
    "(''arrow_direction'', JStr ''arrow_move_filled'') \<in> set default_config"
    "(''space_bar'', JStr ''space_clear'') \<in> set default_config"
    "(''tab_key'', JStr ''tab_noskip'') \<in> set default_config"
    "(''timer_autostart'', JBool False) \<in> set default_config"
    by (simp_all add: default_config_def)
  show ?thesis
    unfolding config_of_def by (simp add: same [OF k(1)] same [OF k(2)] same [OF k(3)] same [OF k(4)] same [OF k(5)])
qed

end
