(* ===== verification/Navigation.thy ===== *)
theory Navigation
  imports CluesGroup Settings
begin

text \<open>
  The navigation engine: the session state of class \<^verbatim>\<open>CrossWord\<close> after
  \<^verbatim>\<open>completeLoad\<close>, and its methods that change it.  Display effects (canvas, clue
  highlighting by \<^verbatim>\<open>markActive\<close>, focus, modal boxes) are left out; the modal box of
  a solved puzzle is the flag \<open>solved_notified\<close>.  After \<^verbatim>\<open>completeLoad\<close> the
  fields \<^verbatim>\<open>active_clues\<close>, \<^verbatim>\<open>inactive_clues\<close> and \<^verbatim>\<open>selected_word\<close> are
  never \<^verbatim>\<open>null\<close> again (\<^verbatim>\<open>setActiveWord\<close> ignores \<^verbatim>\<open>null\<close>), so they are
  plain fields here.
\<close>

subsection \<open>State\<close>

record xw =
  cells :: grid
  grid_width :: int
  grid_height :: int
  words :: words_map
  clues_top :: clues_group
  clues_bottom :: "clues_group option"
  active_clues :: clues_group
  inactive_clues :: clues_group
  selected_word :: word
  selected_cell :: "coord option"
  hilited_word :: "word option"
  number_to_cells :: number_index
  is_autofill :: bool
  crossword_type :: string
  settings :: jconfig
  timer_running :: bool
  solved_notified :: bool
  settings_open :: bool

text \<open>\<^verbatim>\<open>group.getMatchingWord(x, y, change_word)\<close>, reading the crossword's fields.\<close>

definition matching :: "xw \<Rightarrow> clues_group \<Rightarrow> coord \<Rightarrow> bool \<Rightarrow> word option" where
  "matching s g p cw = get_matching_word (words s) (selected_word s) g (fst p) (snd p) cw"

subsection \<open>Selection\<close>

definition set_active_word :: "xw \<Rightarrow> word option \<Rightarrow> xw" where
  "set_active_word s w = (case w of None \<Rightarrow> s | Some v \<Rightarrow> s\<lparr>selected_word := v\<rparr>)"

text \<open>\<^verbatim>\<open>setActiveCell(cell)\<close>: a cell is given by its coordinate.\<close>

definition set_active_cell :: "xw \<Rightarrow> coord option \<Rightarrow> xw" where
  "set_active_cell s c =
     (case c of
        None \<Rightarrow> s
      | Some p \<Rightarrow> (case cells s p of
                    Some cl \<Rightarrow> if \<not> empty_cell cl then s\<lparr>selected_cell := Some p\<rparr> else s
                  | None \<Rightarrow> s))"

text \<open>
  \<^verbatim>\<open>changeActiveClues()\<close>.  The guard \<^verbatim>\<open>this.inactive_clues !== null\<close> of the
  second branch always holds in a session.
\<close>

definition change_active_clues :: "xw \<Rightarrow> xw" where
  "change_active_clues s =
     (case clues_bottom s of
        None \<Rightarrow>
          (let s1 = s\<lparr>active_clues := clues_top s, inactive_clues := clues_top s\<rparr> in
           case selected_cell s1 of
             None \<Rightarrow> s1
           | Some p \<Rightarrow> set_active_word s1 (matching s1 (active_clues s1) p True))
      | Some bottom_group \<Rightarrow>
          if cg_id (active_clues s) = CluesTop
          then s\<lparr>active_clues := bottom_group, inactive_clues := clues_top s\<rparr>
          else s\<lparr>active_clues := clues_top s, inactive_clues := bottom_group\<rparr>)"

subsection \<open>Filling\<close>

text \<open>\<^verbatim>\<open>autofill()\<close>: copy the selected cell's letter and check mark to its number mates.\<close>

definition autofill :: "xw \<Rightarrow> xw" where
  "autofill s =
     (if is_autofill s then
        (case selected_cell s of
           None \<Rightarrow> s
         | Some p \<Rightarrow>
             (case cells s p of
                None \<Rightarrow> s
              | Some sc \<Rightarrow>
                  let same = (case number_to_cells s (number sc) of Some l \<Rightarrow> l | None \<Rightarrow> [])
                  in s\<lparr>cells := fold (\<lambda>q. update_cell q (\<lambda>c. c\<lparr>letter := letter sc, checked := checked sc\<rparr>))
                                      same (cells s)\<rparr>))
      else s)"

text \<open>The loop of \<^verbatim>\<open>checkIfSolved\<close>.\<close>

definition puzzle_solved :: "xw \<Rightarrow> bool" where
  "puzzle_solved s \<longleftrightarrow>
     list_all (\<lambda>p. case cells s p of
                     None \<Rightarrow> True
                   | Some c \<Rightarrow> empty_cell c \<or> (letter c \<noteq> [] \<and> is_correct (letter c) (solution c)))
       (grid_coords (cells s) (grid_width s) (grid_height s))"

definition check_if_solved :: "xw \<Rightarrow> xw" where
  "check_if_solved s = (if puzzle_solved s then s\<lparr>timer_running := False, solved_notified := True\<rparr> else s)"

text \<open>Where \<^verbatim>\<open>hiddenInputChanged\<close> moves after writing, by \<^verbatim>\<open>skip_filled_letters\<close>.\<close>

definition next_after_input :: "xw \<Rightarrow> coord \<Rightarrow> coord option" where
  "next_after_input s p =
     (if truthy (settings s ''skip_filled_letters'') then
        (case get_first_empty_cell (cells s) (selected_word s) (Some p) of
           Some q \<Rightarrow> Some q
         | None \<Rightarrow> get_next_cell (cells s) (selected_word s) p)
      else get_next_cell (cells s) (selected_word s) p)"

text \<open>
  \<^verbatim>\<open>hiddenInputChanged(rebus_string)\<close>: the first character of the input's value,
  upper-cased, else the rebus string (\<open>None\<close> is the \<^verbatim>\<open>null\<close> of a cancelled prompt).
\<close>

definition input_letter :: "string \<Rightarrow> string option \<Rightarrow> string \<Rightarrow> string" where
  "input_letter input rebus old =
     (let mychar = to_upper (take 1 input) in
      if mychar \<noteq> [] then mychar
      else case rebus of Some r \<Rightarrow> if r \<noteq> [] then to_upper r else old | None \<Rightarrow> old)"

definition hidden_input_changed :: "xw \<Rightarrow> string \<Rightarrow> string option \<Rightarrow> xw" where
  "hidden_input_changed s input rebus =
     (case selected_cell s of
        None \<Rightarrow> s
      | Some p \<Rightarrow>
          let write = (\<lambda>c. c\<lparr>letter := input_letter input rebus (letter c), checked := False\<rparr>);
              s1 = autofill (s\<lparr>cells := update_cell p write (cells s)\<rparr>);
              s2 = set_active_cell s1 (next_after_input s1 p)
          in check_if_solved s2)"

subsection \<open>Check and reveal\<close>

datatype scope = ScopeLetter | ScopeWord | ScopePuzzle
datatype cr_mode = Check | Reveal

definition target_cells :: "xw \<Rightarrow> scope \<Rightarrow> coord list" where
  "target_cells s sc =
     (case sc of
        ScopeLetter \<Rightarrow> (case selected_cell s of Some p \<Rightarrow> [p] | None \<Rightarrow> [])
      | ScopeWord \<Rightarrow> List.map_filter (get_cell_by_coordinates (cells s)) (w_cells (selected_word s))
      | ScopePuzzle \<Rightarrow> grid_coords (cells s) (grid_width s) (grid_height s))"

text \<open>The number mates pushed when autofill is on; a \<^verbatim>\<open>null\<close> number is skipped.\<close>

definition linked_cells :: "xw \<Rightarrow> coord list \<Rightarrow> coord list" where
  "linked_cells s ps =
     concat (map (\<lambda>p. case cells s p of
                        None \<Rightarrow> []
                      | Some c \<Rightarrow> if number c = NumNull then []
                                  else (case number_to_cells s (number c) of Some l \<Rightarrow> l | None \<Rightarrow> []))
                 ps)"

definition check_reveal_cell :: "cr_mode \<Rightarrow> cell \<Rightarrow> cell" where
  "check_reveal_cell m c =
     (if solution c = [] then c
      else if \<not> is_correct (letter c) (solution c) then
        (case m of
           Reveal \<Rightarrow> c\<lparr>letter := solution c, revealed := True, checked := False\<rparr>
         | Check \<Rightarrow> c\<lparr>checked := True\<rparr>)
      else c)"

text \<open>The collected array \<^verbatim>\<open>my_cells\<close>: the scope's cells, then their number mates.\<close>

definition reveal_targets :: "xw \<Rightarrow> scope \<Rightarrow> coord list" where
  "reveal_targets s sc =
     (let ps = target_cells s sc in ps @ (if is_autofill s then linked_cells s ps else []))"

text \<open>
  When \<^verbatim>\<open>renderCells()\<close> throws: the acrostic highlight reads
  \<^verbatim>\<open>this.selected_cell.number\<close> at the first fillable cell it draws, and there is
  no selected cell (theory \<open>Render\<close> proves this is exactly when its model of
  \<^verbatim>\<open>renderCells\<close> fails).  A throw ends the running handler; what the handler
  wrote before it stays.
\<close>

definition render_throws :: "xw \<Rightarrow> bool" where
  "render_throws s \<longleftrightarrow>
     crossword_type s = ''acrostic'' \<and> selected_cell s = None
     \<and> (\<exists>p\<in>set (grid_coords (cells s) (grid_width s) (grid_height s)).
           \<exists>c. cells s p = Some c \<and> \<not> empty_cell c)"

text \<open>
  \<^verbatim>\<open>check_reveal(to_solve, reveal_or_check)\<close>: update the collected cells, draw,
  and after a reveal call \<^verbatim>\<open>checkIfSolved\<close>, which a throwing
  \<^verbatim>\<open>renderCells\<close> skips.
\<close>

definition check_reveal :: "xw \<Rightarrow> scope \<Rightarrow> cr_mode \<Rightarrow> xw" where
  "check_reveal s sc m =
     (let s1 = s\<lparr>cells := fold (\<lambda>p. update_cell p (check_reveal_cell m)) (reveal_targets s sc) (cells s)\<rparr>
      in if m = Reveal \<and> \<not> render_throws s1 then check_if_solved s1 else s1)"

subsection \<open>Moving\<close>

datatype skip_dir = SkipUp | SkipDown | SkipLeft | SkipRight

text \<open>The test \<^verbatim>\<open>cellFound\<close> of \<^verbatim>\<open>skipToWord\<close>.\<close>

definition skip_target :: "xw \<Rightarrow> coord \<Rightarrow> word option" where
  "skip_target s p =
     (case cells s p of
        Some c \<Rightarrow>
          if \<not> empty_cell c then
            (case matching s (active_clues s) p False of
               Some w \<Rightarrow> if w_id w \<noteq> w_id (selected_word s) then Some w else None
             | None \<Rightarrow> None)
          else None
      | None \<Rightarrow> None)"

definition skip_to_word :: "xw \<Rightarrow> skip_dir \<Rightarrow> xw" where
  "skip_to_word s d =
     (case selected_cell s of
        None \<Rightarrow> s
      | Some (x, y) \<Rightarrow>
          let found = (case d of
                         SkipUp \<Rightarrow> for_down (\<lambda>i. skip_target s (x, i)) (y - 1) 0
                       | SkipDown \<Rightarrow> for_up (\<lambda>i. skip_target s (x, i)) (y + 1) (grid_height s)
                       | SkipLeft \<Rightarrow> for_down (\<lambda>i. skip_target s (i, y)) (x - 1) 0
                       | SkipRight \<Rightarrow> for_up (\<lambda>i. skip_target s (i, y)) (x + 1) (grid_width s))
          in case found of
               None \<Rightarrow> s
             | Some w \<Rightarrow> set_active_cell (set_active_word s (Some w)) (landing_cell (cells s) w))"

definition move_to_first_cell :: "xw \<Rightarrow> bool \<Rightarrow> xw" where
  "move_to_first_cell s to_last =
     (case (if to_last then get_last_cell else get_first_cell) (cells s) (selected_word s) of
        Some p \<Rightarrow> set_active_cell s (Some p)
      | None \<Rightarrow> s)"

text \<open>The step grows by one unit along its axis when it lands on an empty cell.\<close>

definition jump_delta :: "int \<Rightarrow> int \<Rightarrow> int \<times> int" where
  "jump_delta dx dy =
     (if dx < 0 then (dx - 1, dy) else if 0 < dx then (dx + 1, dy)
      else if dy < 0 then (dx, dy - 1) else if 0 < dy then (dx, dy + 1) else (dx, dy))"

text \<open>
  The second half of \<^verbatim>\<open>moveSelectionBy\<close>, once a fillable cell \<open>new\<close> is found
  from the selected cell \<open>sel\<close>: switch direction when the inactive word through the
  old cell also holds the new one, keep the old cell under \<^verbatim>\<open>arrow_stay\<close> (or
  \<^verbatim>\<open>arrow_move_filled\<close> on an empty cell), and switch again when the landing cell
  has no word in the active direction.
\<close>

definition move_to_cell :: "xw \<Rightarrow> coord \<Rightarrow> coord \<Rightarrow> xw" where
  "move_to_cell s sel new =
     (if has_cell (selected_word s) (fst new) (snd new) then set_active_cell s (Some new)
      else
        let sciw = matching s (inactive_clues s) sel True;
            nciw = matching s (inactive_clues s) new True;
            flip = (case sciw of Some w \<Rightarrow> has_cell w (fst new) (snd new) \<and> nciw \<noteq> None | None \<Rightarrow> False);
            s1 = (if flip then change_active_clues s else s);
            target = (if flip \<and> (settings s ''arrow_direction'' = Some (JStr ''arrow_stay'')
                                  \<or> (letter_at (cells s) sel = [] \<and> settings s ''arrow_direction'' = Some (JStr ''arrow_move_filled'')))
                      then sel else new);
            s2 = (if matching s1 (active_clues s1) target True = None then change_active_clues s1 else s1);
            s3 = set_active_word s2 (matching s2 (active_clues s2) target False)
        in set_active_cell s3 (Some target))"

text \<open>
  \<^verbatim>\<open>moveSelectionBy(dx, dy)\<close>: the recursive jump over empty cells need not stop on
  an arbitrary map, so it is a partial function; \<open>None\<close> is the unbounded recursion.
\<close>

partial_function (option) move_selection_by :: "xw \<Rightarrow> int \<Rightarrow> int \<Rightarrow> xw option" where
  "move_selection_by s dx dy =
     (case selected_cell s of
        None \<Rightarrow> Some s
      | Some p \<Rightarrow>
          (case cells s (fst p + dx, snd p + dy) of
             None \<Rightarrow> Some s
           | Some nc \<Rightarrow>
               if empty_cell nc then move_selection_by s (fst (jump_delta dx dy)) (snd (jump_delta dx dy))
               else Some (move_to_cell s p (fst p + dx, snd p + dy))))"

subsection \<open>Auxiliary definitions\<close>

text \<open>
  The fields of a cell that only the loader writes; every operation of the engine
  keeps them, and the invariants of theory \<open>Session\<close> speak about them only.
\<close>

definition layout :: "cell \<Rightarrow> cell_type \<times> bool \<times> bool \<times> cell_number \<times> string" where
  "layout c = (ctype c, empty_cell c, is_clue c, number c, solution c)"

definition grid_layout :: "grid \<Rightarrow> coord \<Rightarrow> (cell_type \<times> bool \<times> bool \<times> cell_number \<times> string) option" where
  "grid_layout g p = map_option layout (g p)"

text \<open>The selection either stays or moves onto a fillable cell of the grid.\<close>

definition selection_step :: "xw \<Rightarrow> xw \<Rightarrow> bool" where
  "selection_step s r \<longleftrightarrow>
     selected_cell r = selected_cell s \<or> (\<exists>q. selected_cell r = Some q \<and> fillable (cells s) q)"

text \<open>
  The distance from the target of a move to the grid edge along the move's axis: it
  shrinks at every jump over an empty cell, which bounds the recursion of
  \<open>move_selection_by\<close>.
\<close>

definition jump_measure :: "xw \<Rightarrow> coord \<Rightarrow> int \<Rightarrow> int \<Rightarrow> nat" where
  "jump_measure s p dx dy =
     (if dx < 0 then nat (fst p + dx)
      else if 0 < dx then nat (grid_width s + 1 - (fst p + dx))
      else if dy < 0 then nat (snd p + dy)
      else if 0 < dy then nat (grid_height s + 1 - (snd p + dy))
      else 0)"

text \<open>The cells on the ray of a move, from its first target outwards.\<close>

definition beyond :: "coord \<Rightarrow> int \<Rightarrow> int \<Rightarrow> coord \<Rightarrow> bool" where
  "beyond p dx dy q \<longleftrightarrow>
     (if dx < 0 then snd q = snd p + dy \<and> fst q \<le> fst p + dx
      else if 0 < dx then snd q = snd p + dy \<and> fst p + dx \<le> fst q
      else if dy < 0 then fst q = fst p \<and> snd q \<le> snd p + dy
      else if 0 < dy then fst q = fst p \<and> snd p + dy \<le> snd q
      else False)"

subsection \<open>Shared lemmas\<close>

lemma grid_layout_update_cell:
  "\<forall>c. layout (f c) = layout c \<Longrightarrow> grid_layout (update_cell p f g) = grid_layout g"
  by (rule ext) (auto simp: grid_layout_def update_cell_def split: option.splits)

lemma grid_layout_fold_update:
  "\<forall>c. layout (f c) = layout c \<Longrightarrow> grid_layout (fold (\<lambda>q. update_cell q f) qs g) = grid_layout g"
  by (induction qs arbitrary: g) (simp_all add: grid_layout_update_cell)

lemma fold_update_cell_idem:
  assumes "\<forall>c. f (f c) = f c"
  shows "fold (\<lambda>q. update_cell q f) qs g = (\<lambda>p. if p \<in> set qs then map_option f (g p) else g p)"
proof (induction qs arbitrary: g)
  case Nil
  then show ?case by simp
next
  case (Cons q qs)
  have ff: "map_option f (map_option f x) = map_option f x" for x
    using assms by (cases x) simp_all
  have "fold (\<lambda>q. update_cell q f) (q # qs) g = fold (\<lambda>q. update_cell q f) qs (update_cell q f g)"
    by simp
  also have "\<dots> = (\<lambda>p. if p \<in> set qs then map_option f (update_cell q f g p) else update_cell q f g p)"
    by (rule Cons.IH)
  also have "\<dots> = (\<lambda>p. if p \<in> set (q # qs) then map_option f (g p) else g p)"
    by (rule ext) (simp add: update_cell_apply ff)
  finally show ?case .
qed

lemma layout_letter_checked [simp]: "layout (c\<lparr>letter := l, checked := k\<rparr>) = layout c"
  by (simp add: layout_def)

lemma layout_check_reveal_cell [simp]: "layout (check_reveal_cell m c) = layout c"
  by (simp add: layout_def check_reveal_cell_def split: cr_mode.splits)

lemma check_reveal_cell_idem [simp]: "check_reveal_cell m (check_reveal_cell m c) = check_reveal_cell m c"
  by (simp add: check_reveal_cell_def split: cr_mode.splits)

lemma fillable_layout:
  "grid_layout g' = grid_layout g \<Longrightarrow> fillable g' p = fillable g p"
  by (drule fun_cong [of _ _ p])
     (auto simp: grid_layout_def fillable_def fillable_cell_def layout_def split: option.splits)

lemma dom_layout:
  assumes "grid_layout g' = grid_layout g"
  shows "dom g' = dom g"
proof -
  have "g' p = None \<longleftrightarrow> g p = None" for p
    using fun_cong [OF assms, of p] unfolding grid_layout_def by (metis option.map_disc_iff)
  then show ?thesis by (auto simp: dom_def)
qed

lemma selected_cell_set_active_cell:
  "selected_cell (set_active_cell s c) = selected_cell s
   \<or> (\<exists>p. c = Some p \<and> selected_cell (set_active_cell s c) = Some p \<and> fillable (cells s) p)"
  by (auto simp: set_active_cell_def fillable_def fillable_cell_def split: option.splits)

lemma set_active_cell_frame [simp]:
  "cells (set_active_cell s c) = cells s" "selected_word (set_active_cell s c) = selected_word s"
  "active_clues (set_active_cell s c) = active_clues s"
  "inactive_clues (set_active_cell s c) = inactive_clues s"
  "solved_notified (set_active_cell s c) = solved_notified s"
  "crossword_type (set_active_cell s c) = crossword_type s"
  by (auto simp: set_active_cell_def split: option.splits)

lemma set_active_word_frame [simp]:
  "cells (set_active_word s w) = cells s" "selected_cell (set_active_word s w) = selected_cell s"
  "active_clues (set_active_word s w) = active_clues s"
  "inactive_clues (set_active_word s w) = inactive_clues s"
  by (auto simp: set_active_word_def split: option.splits)

lemma change_active_clues_frame [simp]:
  "cells (change_active_clues s) = cells s" "selected_cell (change_active_clues s) = selected_cell s"
  by (auto simp: change_active_clues_def Let_def split: option.splits)

lemma check_if_solved_frame [simp]:
  "cells (check_if_solved s) = cells s" "selected_cell (check_if_solved s) = selected_cell s"
  "selected_word (check_if_solved s) = selected_word s"
  by (simp_all add: check_if_solved_def)

lemma is_correct_nonempty: "is_correct l sol \<Longrightarrow> sol \<noteq> [] \<Longrightarrow> l \<noteq> []"
  by (auto simp: is_correct_def split: if_splits)

lemma move_to_cell_frame [simp]: "cells (move_to_cell s a b) = cells s"
  by (simp add: move_to_cell_def Let_def)

lemma selection_step_set_active_cell:
  "selected_cell t = selected_cell s \<Longrightarrow> cells t = cells s \<Longrightarrow> selection_step s (set_active_cell t c)"
  using selected_cell_set_active_cell [of t c] by (auto simp: selection_step_def)

lemma selection_step_refl [simp]: "selection_step s s"
  by (simp add: selection_step_def)

lemma move_to_cell_selection_step: "selection_step s (move_to_cell s a b)"
  unfolding move_to_cell_def Let_def by (auto intro!: selection_step_set_active_cell)

lemma cells_check_reveal_at:
  "cells (check_reveal s sc m) p =
     (if p \<in> set (reveal_targets s sc) then map_option (check_reveal_cell m) (cells s p) else cells s p)"
  by (simp add: check_reveal_def Let_def fold_update_cell_idem split: if_split)

subsection \<open>Properties of checking and revealing\<close>

lemma check_reveal_cell_empty [simp]: "empty_cell (check_reveal_cell m c) = empty_cell c"
  by (simp add: check_reveal_cell_def split: cr_mode.split)

lemma grid_coords_cong:
  "(\<And>p. (g' p = None) = (g p = None)) \<Longrightarrow> grid_coords g' w h = grid_coords g w h"
  by (simp add: grid_coords_def)

text \<open>
  C4: the spec's scenario for coded and acrostic puzzles: revealing the selected
  letter reveals every cell that shares its number.  Each such cell ends correct;
  a wrong one gets its solution, the revealed mark and no check mark, and a right
  one is left as it was.
\<close>

theorem reveal_letter_mates:
  assumes "is_autofill s" and "selected_cell s = Some p" and "cells s p = Some c" and "number c \<noteq> NumNull"
    and "number_to_cells s (number c) = Some qs" and "q \<in> set qs" and "cells s q = Some d"
    and "solution d \<noteq> []"
  shows "\<exists>d'. cells (check_reveal s ScopeLetter Reveal) q = Some d' \<and> is_correct (letter d') (solution d')
           \<and> (if is_correct (letter d) (solution d) then d' = d
              else letter d' = solution d \<and> revealed d' \<and> \<not> checked d')"
proof -
  have "q \<in> set (reveal_targets s ScopeLetter)"
    using assms by (simp add: reveal_targets_def target_cells_def linked_cells_def)
  then have "cells (check_reveal s ScopeLetter Reveal) q = Some (check_reveal_cell Reveal d)"
    using assms(7) by (simp add: cells_check_reveal_at)
  then show ?thesis
    using assms(8) by (auto simp: check_reveal_cell_def is_correct_refl)
qed

text \<open>C1: after a reveal every collected cell that has a solution is correct.\<close>

theorem check_reveal_reveal_correct:
  assumes "p \<in> set (reveal_targets s sc)" and "cells (check_reveal s sc Reveal) p = Some c"
    and "solution c \<noteq> []"
  shows "is_correct (letter c) (solution c)"
  using assms by (auto simp: cells_check_reveal_at check_reveal_cell_def)

text \<open>
  C5: a check never changes a letter; it marks a collected cell exactly when the cell
  has a solution that its letter does not match.
\<close>

theorem check_reveal_check:
  assumes "cells s p = Some c"
  shows "\<exists>c'. cells (check_reveal s sc Check) p = Some c' \<and> letter c' = letter c
           \<and> (checked c' \<longleftrightarrow> checked c \<or> (p \<in> set (reveal_targets s sc) \<and> solution c \<noteq> []
                                            \<and> \<not> is_correct (letter c) (solution c)))"
  using assms by (auto simp: cells_check_reveal_at check_reveal_cell_def)

subsection \<open>Completion\<close>

lemma puzzle_solved_iff:
  "cells_in_box (cells s) (grid_width s) (grid_height s) \<Longrightarrow>
     puzzle_solved s \<longleftrightarrow>
       (\<forall>p c. cells s p = Some c \<longrightarrow> \<not> empty_cell c \<longrightarrow> letter c \<noteq> [] \<and> is_correct (letter c) (solution c))"
  by (auto simp: puzzle_solved_def list_all_iff set_grid_coords split: option.splits)

text \<open>
  C6: on a grid whose cells lie in its declared box (every loaded session's do, by
  C28 and C29; the model enumerates the box as the loops of \<^verbatim>\<open>checkIfSolved\<close>
  do for such grids), \<^verbatim>\<open>checkIfSolved\<close> raises the notification exactly when
  every fillable cell holds a letter that \<^verbatim>\<open>isCorrect\<close> accepts, and it changes
  no cell and neither the selected cell nor the selected word.
\<close>

theorem check_if_solved_spec:
  "cells_in_box (cells s) (grid_width s) (grid_height s) \<Longrightarrow>
     (solved_notified (check_if_solved s) \<longleftrightarrow>
       solved_notified s \<or>
       (\<forall>p c. cells s p = Some c \<longrightarrow> \<not> empty_cell c \<longrightarrow> letter c \<noteq> [] \<and> is_correct (letter c) (solution c)))
     \<and> cells (check_if_solved s) = cells s \<and> selected_cell (check_if_solved s) = selected_cell s
     \<and> selected_word (check_if_solved s) = selected_word s"
  by (auto simp: check_if_solved_def puzzle_solved_iff)

text \<open>
  C7: revealing the whole puzzle solves it: when every fillable cell has a solution
  (the loader gives one, the wildcard \<^verbatim>\<open>*\<close> at least), the notification is
  raised, unless \<^verbatim>\<open>renderCells\<close> throws first (an acrostic with no selected cell),
  in which case \<^verbatim>\<open>checkIfSolved\<close> never runs and the flag stays as it was.
\<close>

theorem reveal_puzzle_solves:
  assumes box: "cells_in_box (cells s) (grid_width s) (grid_height s)"
    and sol: "\<forall>p c. cells s p = Some c \<longrightarrow> \<not> empty_cell c \<longrightarrow> solution c \<noteq> []"
  shows "solved_notified (check_reveal s ScopePuzzle Reveal) \<longleftrightarrow> solved_notified s \<or> \<not> render_throws s"
proof -
  let ?T = "reveal_targets s ScopePuzzle"
  let ?g = "\<lambda>p. if p \<in> set ?T then map_option (check_reveal_cell Reveal) (cells s p) else cells s p"
  let ?s1 = "s\<lparr>cells := ?g\<rparr>"
  have eq: "check_reveal s ScopePuzzle Reveal = (if render_throws ?s1 then ?s1 else check_if_solved ?s1)"
    by (simp add: check_reveal_def Let_def fold_update_cell_idem)
  have none: "(?g p = None) = (cells s p = None)" for p
    by simp
  have rt: "render_throws ?s1 \<longleftrightarrow> render_throws s"
  proof -
    have "(\<exists>c. ?g p = Some c \<and> \<not> empty_cell c) \<longleftrightarrow> (\<exists>c. cells s p = Some c \<and> \<not> empty_cell c)" for p
      by (cases "cells s p") auto
    then show ?thesis
      by (simp add: render_throws_def grid_coords_cong [of ?g "cells s", OF none])
  qed
  have dom: "p \<in> set ?T" if "cells s p \<noteq> None" for p
    using that box by (auto simp: reveal_targets_def target_cells_def Let_def set_grid_coords)
  have "dom ?g = dom (cells s)"
    by (auto simp: dom_def)
  with box have box1: "cells_in_box (cells ?s1) (grid_width ?s1) (grid_height ?s1)"
    by (simp add: cells_in_box_def)
  have ok: "letter c \<noteq> [] \<and> is_correct (letter c) (solution c)"
    if c: "?g p = Some c" and ne: "\<not> empty_cell c" for p c
  proof -
    obtain c0 where c0: "cells s p = Some c0"
      using c by (cases "cells s p") (auto split: if_splits)
    with dom have cc: "c = check_reveal_cell Reveal c0"
      using c by auto
    with ne have "\<not> empty_cell c0"
      by simp
    with c0 sol have "solution c0 \<noteq> []"
      by blast
    with cc show ?thesis
      by (auto simp: check_reveal_cell_def dest: is_correct_nonempty)
  qed
  have "puzzle_solved ?s1"
    using box1 ok by (subst puzzle_solved_iff) auto
  then show ?thesis
    by (simp add: eq rt check_if_solved_def)
qed

subsection \<open>Properties of input\<close>

lemma autofill_cells:
  assumes "is_autofill s" and "selected_cell s = Some p" and "cells s p = Some sc"
  shows "cells (autofill s) =
           (\<lambda>q. if q \<in> set (case number_to_cells s (number sc) of Some l \<Rightarrow> l | None \<Rightarrow> [])
                then map_option (\<lambda>c. c\<lparr>letter := letter sc, checked := checked sc\<rparr>) (cells s q)
                else cells s q)"
  using assms by (simp add: autofill_def fold_update_cell_idem)

lemma autofill_frame [simp]:
  "selected_cell (autofill s) = selected_cell s" "selected_word (autofill s) = selected_word s"
  "number_to_cells (autofill s) = number_to_cells s" "settings (autofill s) = settings s"
  by (auto simp: autofill_def Let_def split: option.splits)

lemma cells_hidden_input_changed:
  "selected_cell s = Some p \<Longrightarrow>
     cells (hidden_input_changed s input r) =
       cells (autofill (s\<lparr>cells := update_cell p (\<lambda>c. c\<lparr>letter := input_letter input r (letter c),
                                                        checked := False\<rparr>) (cells s)\<rparr>))"
  by (simp add: hidden_input_changed_def Let_def)

text \<open>
  C8: in an acrostic or coded puzzle (\<^verbatim>\<open>is_autofill\<close>), typing a character
  writes its upper case, with the check mark cleared, into every cell listed under the
  selected cell's number.
\<close>

theorem hidden_input_autofill:
  assumes auto: "is_autofill s" and sel: "selected_cell s = Some p" and c: "cells s p = Some c"
    and nums: "number_to_cells s (number c) = Some qs" and q: "q \<in> set qs"
    and ok: "numbers_ok (cells s) (number_to_cells s)" and ch: "take 1 input \<noteq> []"
  shows "\<exists>c'. cells (hidden_input_changed s input r) q = Some c'
               \<and> letter c' = to_upper (take 1 input) \<and> \<not> checked c'"
proof -
  let ?w = "\<lambda>c. c\<lparr>letter := input_letter input r (letter c), checked := False\<rparr>"
  let ?s1 = "s\<lparr>cells := update_cell p ?w (cells s)\<rparr>"
  have il: "input_letter input r l = to_upper (take 1 input)" for l
    using ch by (simp add: input_letter_def)
  have c1: "cells ?s1 p = Some (?w c)"
    using c by simp
  obtain cq where cq: "cells s q = Some cq"
    using ok nums q unfolding numbers_ok_def by blast
  have "cells ?s1 q \<noteq> None"
    using cq by (cases "q = p") (simp_all add: update_cell_apply)
  then obtain cq1 where cq1: "cells ?s1 q = Some cq1" by blast
  have "cells (autofill ?s1) q = Some (cq1\<lparr>letter := letter (?w c), checked := checked (?w c)\<rparr>)"
    using auto sel c1 nums q cq1 by (simp add: autofill_cells [of ?s1 p])
  then show ?thesis
    using sel by (simp add: cells_hidden_input_changed il)
qed

subsection \<open>Properties of moving\<close>

lemma jump_measure_less:
  assumes box: "cells_in_box (cells s) (grid_width s) (grid_height s)"
    and c: "cells s (fst p + dx, snd p + dy) \<noteq> None" and nz: "(dx, dy) \<noteq> (0, 0)"
  shows "jump_measure s p (fst (jump_delta dx dy)) (snd (jump_delta dx dy)) < jump_measure s p dx dy"
proof -
  have "1 \<le> fst p + dx \<and> fst p + dx \<le> grid_width s \<and> 1 \<le> snd p + dy \<and> snd p + dy \<le> grid_height s"
    using cells_in_boxD [OF box c] .
  then show ?thesis
    using nz by (auto simp: jump_measure_def jump_delta_def)
qed

lemma beyond_first: "(dx, dy) \<noteq> (0, 0) \<Longrightarrow> beyond p dx dy (fst p + dx, snd p + dy)"
  by (auto simp: beyond_def)

lemma beyond_jump:
  "beyond p (fst (jump_delta dx dy)) (snd (jump_delta dx dy)) q \<Longrightarrow> beyond p dx dy q"
  by (auto simp: beyond_def jump_delta_def split: if_splits)

lemma move_selection_by_unfold:
  "selected_cell s = Some p \<Longrightarrow>
     move_selection_by s dx dy =
       (case cells s (fst p + dx, snd p + dy) of
          None \<Rightarrow> Some s
        | Some nc \<Rightarrow>
            if empty_cell nc then move_selection_by s (fst (jump_delta dx dy)) (snd (jump_delta dx dy))
            else Some (move_to_cell s p (fst p + dx, snd p + dy)))"
  by (subst move_selection_by.simps) simp

text \<open>
  C9: \<^verbatim>\<open>moveSelectionBy\<close> always returns on a grid whose cells lie within its
  dimensions and whose selected cell is fillable: every jump over an empty cell moves
  the target one cell closer to the edge.
\<close>

theorem move_selection_by_total:
  assumes box: "cells_in_box (cells s) (grid_width s) (grid_height s)"
    and sel: "\<forall>p. selected_cell s = Some p \<longrightarrow> fillable (cells s) p"
  shows "\<exists>r. move_selection_by s dx dy = Some r"
proof (cases "selected_cell s")
  case None
  then show ?thesis by (simp add: move_selection_by.simps)
next
  case (Some p)
  have "\<exists>r. move_selection_by s dx dy = Some r" if "jump_measure s p dx dy = n" for n dx dy
    using that
  proof (induction n arbitrary: dx dy rule: less_induct)
    case (less n)
    show ?case
    proof (cases "cells s (fst p + dx, snd p + dy)")
      case None
      with Some show ?thesis by (simp add: move_selection_by_unfold)
    next
      case (Some nc)
      show ?thesis
      proof (cases "empty_cell nc")
        case False
        with Some \<open>selected_cell s = Some p\<close> show ?thesis by (simp add: move_selection_by_unfold)
      next
        case True
        have nz: "(dx, dy) \<noteq> (0, 0)"
        proof
          assume "(dx, dy) = (0, 0)"
          with Some have "cells s p = Some nc" by simp
          with True sel \<open>selected_cell s = Some p\<close> show False
            by (simp add: fillable_def fillable_cell_def)
        qed
        have "jump_measure s p (fst (jump_delta dx dy)) (snd (jump_delta dx dy)) < n"
          using jump_measure_less [where p = p, OF box _ nz] Some less.prems by simp
        then obtain r where "move_selection_by s (fst (jump_delta dx dy)) (snd (jump_delta dx dy)) = Some r"
          using less.IH by blast
        with Some True \<open>selected_cell s = Some p\<close> show ?thesis
          by (simp add: move_selection_by_unfold)
      qed
    qed
  qed
  then show ?thesis by blast
qed

text \<open>
  C10: at the grid's edge, and more generally when no fillable cell lies on the ray of
  the move, \<^verbatim>\<open>moveSelectionBy\<close> returns the session unchanged.
\<close>

theorem move_selection_by_edge:
  assumes box: "cells_in_box (cells s) (grid_width s) (grid_height s)"
    and sel: "selected_cell s = Some p" and nz: "(dx, dy) \<noteq> (0, 0)"
    and ray: "\<forall>q. beyond p dx dy q \<longrightarrow> \<not> fillable (cells s) q"
  shows "move_selection_by s dx dy = Some s"
proof -
  have "move_selection_by s dx dy = Some s"
    if "jump_measure s p dx dy = n" and "(dx, dy) \<noteq> (0, 0)"
      and "\<forall>q. beyond p dx dy q \<longrightarrow> \<not> fillable (cells s) q" for n dx dy
    using that
  proof (induction n arbitrary: dx dy rule: less_induct)
    case (less n)
    show ?case
    proof (cases "cells s (fst p + dx, snd p + dy)")
      case None
      with sel show ?thesis by (simp add: move_selection_by_unfold)
    next
      case (Some nc)
      have "\<not> fillable (cells s) (fst p + dx, snd p + dy)"
        using less.prems(2,3) beyond_first by blast
      with Some have emp: "empty_cell nc"
        by (simp add: fillable_def fillable_cell_def)
      have lt: "jump_measure s p (fst (jump_delta dx dy)) (snd (jump_delta dx dy)) < n"
        using jump_measure_less [where p = p, OF box _ less.prems(2)] Some less.prems(1) by simp
      have nz': "(fst (jump_delta dx dy), snd (jump_delta dx dy)) \<noteq> (0, 0)"
        using less.prems(2) by (auto simp: jump_delta_def)
      have "\<forall>q. beyond p (fst (jump_delta dx dy)) (snd (jump_delta dx dy)) q \<longrightarrow> \<not> fillable (cells s) q"
        using less.prems(3) beyond_jump by blast
      then have "move_selection_by s (fst (jump_delta dx dy)) (snd (jump_delta dx dy)) = Some s"
        using less.IH [OF lt refl nz'] by blast
      with Some emp sel show ?thesis
        by (simp add: move_selection_by_unfold)
    qed
  qed
  with nz ray show ?thesis by blast
qed

text \<open>Where \<^verbatim>\<open>moveSelectionBy\<close> returns, it moves the selection onto a fillable cell or not at all.\<close>

lemma move_selection_by_result:
  assumes "move_selection_by s dx dy = Some r"
  shows "cells r = cells s \<and> selection_step s r"
  by (rule move_selection_by.raw_induct
        [where P = "\<lambda>s dx dy r. cells r = cells s \<and> selection_step s r", OF _ assms])
     (auto split: option.splits if_splits intro: move_to_cell_selection_step)

end
