(* ===== verification/Timer.thy ===== *)
theory Timer
  imports Navigation
begin

text \<open>
  The timer of \<^verbatim>\<open>src/js/crosswords.js\<close>: \<^verbatim>\<open>toggleTimer\<close> with its inner functions
  \<^verbatim>\<open>add\<close> (one tick: count a second and redraw the button) and \<^verbatim>\<open>timer\<close> (schedule
  the next tick).  The seconds are the module variable \<^verbatim>\<open>xw_timer_seconds\<close>, not the
  field \<^verbatim>\<open>this.xw_timer_seconds\<close> that the constructor zeroes; a tick is pending
  exactly while \<^verbatim>\<open>timer_running\<close> holds, since every stop (\<^verbatim>\<open>toggleTimer\<close>,
  \<^verbatim>\<open>checkIfSolved\<close>) clears the timeout and every start schedules one.
\<close>

text \<open>JavaScript's decimal rendering of a natural number.\<close>

definition digit_char :: "nat \<Rightarrow> char" where
  "digit_char d = ''0123456789'' ! d"

fun decimal :: "nat \<Rightarrow> string" where
  "decimal n = (if n < 10 then [digit_char n] else decimal (n div 10) @ [digit_char (n mod 10)])"

declare decimal.simps [simp del]

text \<open>The button text built by \<^verbatim>\<open>add()\<close> from the seconds counted so far.\<close>

definition timer_display :: "nat \<Rightarrow> string" where
  "timer_display n =
     (let display_seconds = n mod 60; display_minutes = (n - display_seconds) div 60 in
      (if display_minutes \<noteq> 0
       then (if 9 < display_minutes then decimal display_minutes else ''0'' @ decimal display_minutes)
       else ''00'')
      @ '':'' @ (if 9 < display_seconds then decimal display_seconds else ''0'' @ decimal display_seconds))"

record timer_state =
  xw_timer_seconds :: nat
  button_text :: string

text \<open>\<^verbatim>\<open>toggleTimer()\<close>: stop a running timer, start a stopped one.\<close>

definition toggle_timer :: "xw \<Rightarrow> xw" where
  "toggle_timer s = s\<lparr>timer_running := \<not> timer_running s\<rparr>"

text \<open>The pending timeout fires: \<^verbatim>\<open>add()\<close>, which reschedules itself.\<close>

definition tick :: "xw \<Rightarrow> timer_state \<Rightarrow> timer_state" where
  "tick s t =
     (if timer_running s then
        let n = xw_timer_seconds t + 1 in t\<lparr>xw_timer_seconds := n, button_text := timer_display n\<rparr>
      else t)"

subsection \<open>Lemmas\<close>

lemma digit_char_inj: "d < 10 \<Longrightarrow> e < 10 \<Longrightarrow> digit_char d = digit_char e \<longleftrightarrow> d = e"
  by (auto simp: digit_char_def less_Suc_eq numeral_eq_Suc)

lemma decimal_one: "n < 10 \<Longrightarrow> decimal n = [digit_char n]"
  by (simp add: decimal.simps)

lemma decimal_two: "10 \<le> n \<Longrightarrow> n < 100 \<Longrightarrow> decimal n = [digit_char (n div 10), digit_char (n mod 10)]"
  by (simp add: decimal.simps [of n] decimal_one)

lemma decimal_nonempty: "decimal n \<noteq> []"
  by (simp add: decimal.simps [of n])

lemma decimal_length_ge: "10 ^ k \<le> n \<Longrightarrow> k < length (decimal n)"
proof (induction n arbitrary: k rule: decimal.induct)
  case (1 n)
  show ?case
  proof (cases k)
    case 0
    then show ?thesis using decimal_nonempty [of n] by simp
  next
    case (Suc j)
    have ge: "10 \<le> n"
      using "1.prems" Suc order_trans [of 10 "10 ^ Suc j" n] by simp
    have "10 ^ j * 10 \<le> n"
      using "1.prems" Suc by (simp add: mult.commute)
    then have "10 ^ j \<le> n div 10"
      by (simp add: less_eq_div_iff_mult_less_eq)
    then have "j < length (decimal (n div 10))"
      using "1.IH" ge by simp
    then show ?thesis
      using ge Suc by (simp add: decimal.simps [of n])
  qed
qed

text \<open>The two-character fields of the display: a leading zero below ten.\<close>

lemma pad_two:
  assumes "d < 100"
  shows "(if 9 < d then decimal d else ''0'' @ decimal d) = [digit_char (d div 10), digit_char (d mod 10)]"
proof (cases "d < 10")
  case True
  then show ?thesis by (simp add: decimal_one digit_char_def)
next
  case False
  then show ?thesis using assms by (simp add: decimal_two)
qed

lemma pad_two_length: "2 \<le> length (if 9 < d then decimal d else ''0'' @ decimal d)"
  using decimal_length_ge [of 1 d] decimal_nonempty [of d] by (cases "d = 0") (auto simp: Suc_le_eq)

lemma display_minutes: "(n - n mod 60) div 60 = n div (60::nat)"
  by (simp add: minus_mod_eq_mult_div)

text \<open>
  C25: below 100 minutes the timer button shows \<open>mm:ss\<close>: two digits of minutes, a
  colon, two digits of seconds, with leading zeros.
\<close>

theorem timer_display_digits:
  assumes "n < 6000"
  shows "timer_display n =
           [digit_char (n div 600), digit_char (n div 60 mod 10), CHR '':'',
            digit_char (n mod 60 div 10), digit_char (n mod 10)]"
proof -
  have sec: "(if 9 < n mod 60 then decimal (n mod 60) else ''0'' @ decimal (n mod 60))
               = [digit_char (n mod 60 div 10), digit_char (n mod 10)]"
    using pad_two [of "n mod 60"] by (simp add: mod_mod_cancel)
  have "n div 60 < 100" using assms by simp
  from pad_two [OF this]
  have mins: "(if n div 60 \<noteq> 0 then (if 9 < n div 60 then decimal (n div 60) else ''0'' @ decimal (n div 60))
         else ''00'') = [digit_char (n div 600), digit_char (n div 60 mod 10)]"
    by (simp add: div_mult2_eq [symmetric] digit_char_def split: if_splits)
  show ?thesis
    unfolding timer_display_def Let_def display_minutes mins sec by simp
qed

text \<open>
  C26: from 100 minutes on, the display outgrows the five characters of
  \<open>mm:ss\<close>: the minutes take three digits or more.
\<close>

theorem timer_display_long:
  assumes "6000 \<le> n"
  shows "5 < length (timer_display n)"
proof -
  from assms have "10 ^ 2 \<le> n div 60" by simp
  then have "2 < length (decimal (n div 60))" by (rule decimal_length_ge)
  moreover have "9 < n div 60" using assms by simp
  ultimately show ?thesis
    using pad_two_length [of "n mod 60"] by (simp add: timer_display_def Let_def display_minutes)
qed

lemma display_decompose:
  "x = 600 * (x div 600) + 60 * (x div 60 mod 10) + 10 * (x mod 60 div 10) + x mod (10::nat)"
proof -
  have a: "x = 60 * (x div 60) + x mod 60" by simp
  have b: "x div 60 = 10 * (x div 600) + x div 60 mod 10"
    using div_mult2_eq [of x 60 10] by simp
  have c: "x mod 60 = 10 * (x mod 60 div 10) + x mod 10"
    using div_mult_mod_eq [of "x mod 60" 10] by (simp add: mod_mod_cancel)
  from a b c show ?thesis by linarith
qed

text \<open>
  C27: below 100 minutes two different counts never show the same text: the display
  determines the seconds counted.
\<close>

theorem timer_display_inj:
  assumes "n < 6000" and "m < 6000" and "timer_display n = timer_display m"
  shows "n = m"
proof -
  have "digit_char (n div 600) = digit_char (m div 600) \<and> digit_char (n div 60 mod 10) = digit_char (m div 60 mod 10)
        \<and> digit_char (n mod 60 div 10) = digit_char (m mod 60 div 10) \<and> digit_char (n mod 10) = digit_char (m mod 10)"
    using assms(3) by (simp add: timer_display_digits [OF assms(1)] timer_display_digits [OF assms(2)])
  moreover have "n div 600 < 10" "m div 600 < 10" "n mod 60 div 10 < 10" "m mod 60 div 10 < 10"
    using assms(1,2) by simp_all
  ultimately have "n div 600 = m div 600" "n div 60 mod 10 = m div 60 mod 10"
    "n mod 60 div 10 = m mod 60 div 10" "n mod 10 = m mod 10"
    by (simp_all add: digit_char_inj)
  then show ?thesis
    using display_decompose [of n] display_decompose [of m] by simp
qed

end
