(* ===== verification/Session.thy ===== *)
theory Session
  imports Timer
begin

text \<open>
  The event handlers of \<^verbatim>\<open>CrossWord\<close> in \<^verbatim>\<open>src/js/crosswords.js\<close> that the
  listeners of \<^verbatim>\<open>addListeners\<close> call: \<^verbatim>\<open>mouseClicked\<close>, \<^verbatim>\<open>keyPressed\<close>,
  \<^verbatim>\<open>moveToNextWord\<close> (Tab and Enter), \<^verbatim>\<open>clueClicked\<close>,
  \<^verbatim>\<open>mouseEnteredClue\<close>, \<^verbatim>\<open>mouseLeftClue\<close> and \<^verbatim>\<open>toggleTimer\<close> with the
  timer's tick, and one step function over the session that dispatches an event to
  its handler.  A handler returns \<open>None\<close> when it does not return (the skip loop of
  \<^verbatim>\<open>moveToNextWord\<close>, the jumps of \<^verbatim>\<open>moveSelectionBy\<close>) and \<open>Inl\<close> of an
  error when the JavaScript throws.
\<close>

datatype js_error = TypeErrorUndefined

type_synonym outcome = "(js_error + xw) option"

subsection \<open>Mouse\<close>

text \<open>
  \<^verbatim>\<open>mouseClicked(e)\<close>, given the cell indices \<^verbatim>\<open>index_x\<close>, \<^verbatim>\<open>index_y\<close> computed
  from the pixel position: a click on the selected cell switches direction; the word is
  looked up in the active list, else in the inactive one (and then the lists swap).
\<close>

definition mouse_clicked :: "xw \<Rightarrow> coord \<Rightarrow> xw" where
  "mouse_clicked s p =
     (let s1 = (if selected_cell s = Some p then change_active_clues s else s);
          s2 = (case matching s1 (active_clues s1) p True of
                  Some w \<Rightarrow> set_active_word s1 (Some w)
                | None \<Rightarrow> change_active_clues (set_active_word s1 (matching s1 (inactive_clues s1) p True)))
      in set_active_cell s2 (Some p))"

text \<open>\<^verbatim>\<open>mouseEnteredClue\<close> and \<^verbatim>\<open>mouseLeftClue\<close>: the highlighted word.\<close>

definition mouse_entered_clue :: "xw \<Rightarrow> word_id \<Rightarrow> xw" where
  "mouse_entered_clue s i = s\<lparr>hilited_word := words s i\<rparr>"

definition mouse_left_clue :: "xw \<Rightarrow> xw" where
  "mouse_left_clue s = s\<lparr>hilited_word := None\<rparr>"

text \<open>
  \<^verbatim>\<open>clueClicked(e)\<close>: the clicked clue names its word and its list; an id missing
  from the word table makes \<^verbatim>\<open>word.getFirstEmptyCell()\<close> throw.
\<close>

definition clue_clicked :: "xw \<Rightarrow> word_id \<Rightarrow> group_id \<Rightarrow> js_error + xw" where
  "clue_clicked s i gid =
     (case words s i of
        None \<Rightarrow> Inl TypeErrorUndefined
      | Some w \<Rightarrow>
          (case landing_cell (cells s) w of
             None \<Rightarrow> Inr s
           | Some p \<Rightarrow>
               let s1 = set_active_word s (Some w);
                   s2 = (if cg_id (active_clues s1) \<noteq> gid then change_active_clues s1 else s1)
               in Inr (set_active_cell s2 (Some p))))"

subsection \<open>Next word\<close>

text \<open>
  One pass of the loop body of \<^verbatim>\<open>moveToNextWord\<close>: the next (previous) word of the
  active list, or, past its end, the first (last) word of the other list after
  \<^verbatim>\<open>changeActiveClues\<close>.
\<close>

definition advance_word :: "bool \<Rightarrow> xw \<Rightarrow> word \<Rightarrow> xw \<times> word option" where
  "advance_word to_previous s w =
     (case (if to_previous then get_previous_word else get_next_word) (words s) (active_clues s) w of
        Some v \<Rightarrow> (s, Some v)
      | None \<Rightarrow>
          let s1 = change_active_clues s
          in (s1, (if to_previous then get_last_word else get_first_word) (words s1) (active_clues s1)))"

text \<open>
  The \<^verbatim>\<open>while (next_word !== this.selected_word)\<close> loop.  The body always runs
  once (\<^verbatim>\<open>next_word\<close> starts \<^verbatim>\<open>null\<close>); it breaks unless skipping and the word is
  filled; \<^verbatim>\<open>next_word.isFilled()\<close> on a missing word throws.  Words are compared by
  value: the table holds one object per id.
\<close>

partial_function (option) next_word_loop ::
  "bool \<Rightarrow> bool \<Rightarrow> xw \<Rightarrow> word \<Rightarrow> (js_error + xw \<times> word option) option" where
  "next_word_loop to_previous skip s w =
     (case advance_word to_previous s w of
        (s1, nw) \<Rightarrow>
          if \<not> skip then Some (Inr (s1, nw))
          else (case nw of
                  None \<Rightarrow> Some (Inl TypeErrorUndefined)
                | Some v \<Rightarrow>
                    if \<not> is_filled (cells s1) v then Some (Inr (s1, nw))
                    else if v = selected_word s1 then Some (Inr (s1, nw))
                    else next_word_loop to_previous skip s1 v))"

definition move_to_next_word :: "xw \<Rightarrow> bool \<Rightarrow> bool \<Rightarrow> outcome" where
  "move_to_next_word s to_previous skip =
     (case next_word_loop to_previous skip s (selected_word s) of
        None \<Rightarrow> None
      | Some (Inl e) \<Rightarrow> Some (Inl e)
      | Some (Inr (s1, None)) \<Rightarrow> Some (Inr s1)
      | Some (Inr (s1, Some v)) \<Rightarrow>
          Some (Inr (set_active_cell (set_active_word s1 (Some v)) (landing_cell (cells s1) v))))"

subsection \<open>Keyboard\<close>

text \<open>Delete, Backspace and the clearing space bar: empty the selected cell.\<close>

definition clear_cell :: "xw \<Rightarrow> coord \<Rightarrow> xw" where
  "clear_cell s p = autofill (s\<lparr>cells := update_cell p (\<lambda>c. c\<lparr>letter := [], checked := False\<rparr>) (cells s)\<rparr>)"

text \<open>The space bar: switch direction (\<^verbatim>\<open>space_switch\<close>) or clear and advance.\<close>

definition space_pressed :: "xw \<Rightarrow> xw" where
  "space_pressed s =
     (case selected_cell s of
        None \<Rightarrow> s
      | Some p \<Rightarrow>
          if settings s ''space_bar'' = Some (JStr ''space_switch'') then
            (case matching s (inactive_clues s) p True of
               None \<Rightarrow> s
             | Some w \<Rightarrow> set_active_cell (set_active_word (change_active_clues s) (Some w)) (Some p))
          else
            (let s1 = clear_cell s p in set_active_cell s1 (get_next_cell (cells s1) (selected_word s1) p)))"

definition backspace_pressed :: "xw \<Rightarrow> xw" where
  "backspace_pressed s =
     (case selected_cell s of
        None \<Rightarrow> s
      | Some p \<Rightarrow> let s1 = clear_cell s p in set_active_cell s1 (get_previous_cell (cells s1) (selected_word s1) p))"

definition delete_pressed :: "xw \<Rightarrow> xw" where
  "delete_pressed s = (case selected_cell s of None \<Rightarrow> s | Some p \<Rightarrow> clear_cell s p)"

text \<open>Escape and Insert prompt for a rebus (\<open>None\<close> when cancelled).\<close>

definition rebus_entered :: "xw \<Rightarrow> string \<Rightarrow> string option \<Rightarrow> xw" where
  "rebus_entered s input r = (case selected_cell s of None \<Rightarrow> s | Some _ \<Rightarrow> hidden_input_changed s input r)"

text \<open>
  \<^verbatim>\<open>keyPressed(e)\<close>, by \<^verbatim>\<open>e.keyCode\<close> and \<^verbatim>\<open>e.shiftKey\<close>; the input field's
  value and the prompt's answer are parameters.  Other keys change nothing.
\<close>

definition key_pressed :: "xw \<Rightarrow> nat \<Rightarrow> bool \<Rightarrow> string \<Rightarrow> string option \<Rightarrow> outcome" where
  "key_pressed s code shift input r =
     (if settings_open s then Some (Inr s)
      else if code = 35 then Some (Inr (move_to_first_cell s True))
      else if code = 36 then Some (Inr (move_to_first_cell s False))
      else if code = 37 then (if shift then Some (Inr (skip_to_word s SkipLeft)) else map_option Inr (move_selection_by s (-1) 0))
      else if code = 38 then (if shift then Some (Inr (skip_to_word s SkipUp)) else map_option Inr (move_selection_by s 0 (-1)))
      else if code = 39 then (if shift then Some (Inr (skip_to_word s SkipRight)) else map_option Inr (move_selection_by s 1 0))
      else if code = 40 then (if shift then Some (Inr (skip_to_word s SkipDown)) else map_option Inr (move_selection_by s 0 1))
      else if code = 32 then Some (Inr (space_pressed s))
      else if code = 27 \<or> code = 45 then Some (Inr (rebus_entered s input r))
      else if code = 46 then Some (Inr (delete_pressed s))
      else if code = 8 then Some (Inr (backspace_pressed s))
      else if code = 9 \<or> code = 13 then move_to_next_word s shift (settings s ''tab_key'' = Some (JStr ''tab_skip''))
      else Some (Inr s))"

subsection \<open>Events\<close>

text \<open>
  The page: the crossword and the module-level timer state.  One constructor per
  listener of \<^verbatim>\<open>addListeners\<close> that reaches the model: a canvas click, the clue list's
  mouse enter, leave and click, a key press, the hidden input's \<^verbatim>\<open>input\<close> event
  (bound with \<^verbatim>\<open>rebus_string = null\<close>), the six check and reveal buttons, the timer
  button, and the timer's own timeout; and the click listener that
  \<^verbatim>\<open>openSettings\<close> adds to the settings dialog, which writes the live
  configuration (the stored copy it also writes is \<open>snd\<close> of
  \<open>settings_clicked\<close>, which no page event reads).
\<close>

type_synonym page = "xw \<times> timer_state"

datatype event =
    Click int int
  | ClueEnter word_id
  | ClueLeave
  | ClueClick word_id group_id
  | KeyDown nat bool string "string option"
  | Input string
  | CheckRevealButton scope cr_mode
  | TimerButton
  | TimerTick
  | SettingsClick target

fun step :: "page \<Rightarrow> event \<Rightarrow> (js_error + page) option" where
  "step (s, t) (Click x y) = Some (Inr (mouse_clicked s (x, y), t))"
| "step (s, t) (ClueEnter i) = Some (Inr (mouse_entered_clue s i, t))"
| "step (s, t) ClueLeave = Some (Inr (mouse_left_clue s, t))"
| "step (s, t) (ClueClick i g) = Some (map_sum id (\<lambda>s'. (s', t)) (clue_clicked s i g))"
| "step (s, t) (KeyDown code shift input r) = map_option (map_sum id (\<lambda>s'. (s', t))) (key_pressed s code shift input r)"
| "step (s, t) (Input input) = Some (Inr (hidden_input_changed s input None, t))"
| "step (s, t) (CheckRevealButton sc m) = Some (Inr (check_reveal s sc m, t))"
| "step (s, t) TimerButton = Some (Inr (toggle_timer s, t))"
| "step (s, t) TimerTick = Some (Inr (s, tick s t))"
| "step (s, t) (SettingsClick tg) = Some (Inr (s\<lparr>settings := fst (settings_clicked (settings s) tg)\<rparr>, t))"

text \<open>The pages reachable from a loaded page by events that return normally.\<close>

inductive reachable :: "page \<Rightarrow> page \<Rightarrow> bool" where
  start: "reachable p p"
| event: "reachable p q \<Longrightarrow> step q e = Some (Inr r) \<Longrightarrow> reachable p r"

subsection \<open>The session frame\<close>

text \<open>
  The fields that no event handler writes (the loader sets them), and the relation
  between a state and the state a handler returns: the same grid layout and fixed
  fields, and a selection that stays or moves onto a fillable cell.
\<close>

definition fixed_fields :: "xw \<Rightarrow> _" where
  "fixed_fields s = (words s, grid_width s, grid_height s, number_to_cells s, clues_top s, clues_bottom s,
                     is_autofill s, settings_open s)"

definition engine_frame :: "xw \<Rightarrow> xw \<Rightarrow> bool" where
  "engine_frame s t \<longleftrightarrow>
     grid_layout (cells t) = grid_layout (cells s) \<and> fixed_fields t = fixed_fields s \<and> selection_step s t"

text \<open>
  A well-formed session: the cells lie in the declared box, the number index lists
  cells of that number, the word table is keyed by word ids, every fillable cell has a
  solution, and the cursor rests on a fillable cell.
\<close>

definition session_wf :: "xw \<Rightarrow> bool" where
  "session_wf s \<longleftrightarrow>
     cells_in_box (cells s) (grid_width s) (grid_height s) \<and> numbers_ok (cells s) (number_to_cells s)
     \<and> words_ok (words s) \<and> (\<forall>p c. cells s p = Some c \<longrightarrow> \<not> empty_cell c \<longrightarrow> solution c \<noteq> [])
     \<and> (\<forall>p. selected_cell s = Some p \<longrightarrow> fillable (cells s) p)"

subsection \<open>Frame lemmas\<close>

lemma engine_frame_refl [simp]: "engine_frame s s"
  by (simp add: engine_frame_def)

lemma engine_frame_trans:
  assumes "engine_frame s t" and "engine_frame t u"
  shows "engine_frame s u"
  using assms fillable_layout [of "cells t" "cells s"]
  by (auto simp: engine_frame_def selection_step_def)

lemma engine_frame_keep:
  "engine_frame s t \<Longrightarrow> cells u = cells t \<Longrightarrow> selected_cell u = selected_cell t \<Longrightarrow> fixed_fields u = fixed_fields t
   \<Longrightarrow> engine_frame s u"
  by (erule engine_frame_trans) (simp add: engine_frame_def selection_step_def)

lemma frame_set_active_word [frame_rules]: "engine_frame s t \<Longrightarrow> engine_frame s (set_active_word t w)"
  by (erule engine_frame_keep) (auto simp: set_active_word_def fixed_fields_def split: option.splits)

lemma frame_set_active_cell [frame_rules]: "engine_frame s t \<Longrightarrow> engine_frame s (set_active_cell t c)"
  by (erule engine_frame_trans)
     (auto simp: engine_frame_def fixed_fields_def set_active_cell_def selection_step_def fillable_def
                 fillable_cell_def split: option.splits)

lemma frame_change_active_clues [frame_rules]: "engine_frame s t \<Longrightarrow> engine_frame s (change_active_clues t)"
  by (erule engine_frame_keep)
     (auto simp: change_active_clues_def set_active_word_def fixed_fields_def Let_def split: option.splits)

lemma frame_check_if_solved [frame_rules]: "engine_frame s t \<Longrightarrow> engine_frame s (check_if_solved t)"
  by (erule engine_frame_keep) (auto simp: check_if_solved_def fixed_fields_def)

lemma frame_write_cell [frame_rules]:
  "engine_frame s t \<Longrightarrow> \<forall>c. layout (f c) = layout c \<Longrightarrow> engine_frame s (t\<lparr>cells := update_cell p f (cells t)\<rparr>)"
  by (erule engine_frame_trans) (simp add: engine_frame_def fixed_fields_def grid_layout_update_cell selection_step_def)

lemma frame_autofill [frame_rules]: "engine_frame s t \<Longrightarrow> engine_frame s (autofill t)"
  by (erule engine_frame_trans)
     (auto simp: engine_frame_def fixed_fields_def autofill_def Let_def grid_layout_fold_update selection_step_def
           split: option.splits)

lemma frame_hidden_input_changed [frame_rules]: "engine_frame s t \<Longrightarrow> engine_frame s (hidden_input_changed t input r)"
  unfolding hidden_input_changed_def Let_def
  by (auto split: option.splits intro!: frame_rules)

lemma frame_check_reveal [frame_rules]: "engine_frame s t \<Longrightarrow> engine_frame s (check_reveal t sc m)"
  unfolding check_reveal_def Let_def
  by (erule engine_frame_trans)
     (auto simp: engine_frame_def fixed_fields_def grid_layout_fold_update selection_step_def check_if_solved_def)

lemma frame_move_to_cell [frame_rules]: "engine_frame s t \<Longrightarrow> engine_frame s (move_to_cell t a b)"
  unfolding move_to_cell_def Let_def by (auto intro!: frame_rules)

lemma frame_move_selection_by:
  assumes "engine_frame s t" and "move_selection_by t dx dy = Some u"
  shows "engine_frame s u"
proof -
  have "engine_frame t u"
    by (rule move_selection_by.raw_induct [where P = "\<lambda>t dx dy u. engine_frame t u", OF _ assms(2)])
       (auto split: option.splits if_splits intro: frame_rules)
  with assms(1) show ?thesis by (rule engine_frame_trans)
qed

lemma frame_skip_to_word [frame_rules]: "engine_frame s t \<Longrightarrow> engine_frame s (skip_to_word t d)"
  unfolding skip_to_word_def Let_def by (auto split: option.splits intro!: frame_rules)

lemma frame_move_to_first_cell [frame_rules]: "engine_frame s t \<Longrightarrow> engine_frame s (move_to_first_cell t b)"
  unfolding move_to_first_cell_def by (auto split: option.splits intro!: frame_rules)

lemma frame_advance_word: "engine_frame s t \<Longrightarrow> advance_word tp t w = (u, nw) \<Longrightarrow> engine_frame s u"
  unfolding advance_word_def Let_def by (auto split: option.splits intro: frame_rules)

lemma frame_next_word_loop:
  assumes "engine_frame s t" and "next_word_loop tp sk t w = Some (Inr (u, nw))"
  shows "engine_frame s u"
proof -
  have "case r of Inr (u, nw) \<Rightarrow> engine_frame t u | Inl _ \<Rightarrow> True" if "next_word_loop tp sk t w = Some r" for r
    apply (rule next_word_loop.raw_induct
          [where P = "\<lambda>tp sk t w r. case r of Inr (u, nw) \<Rightarrow> engine_frame t u | Inl _ \<Rightarrow> True", OF _ that])
    subgoal premises prems for g tp sk t w r
    proof -
      obtain t1 nw where adv: "advance_word tp t w = (t1, nw)" by fastforce
      have f: "engine_frame t t1" by (rule frame_advance_word [OF engine_frame_refl adv])
      show ?thesis
      proof (cases "sk \<and> (\<exists>v. nw = Some v \<and> is_filled (cells t1) v \<and> v \<noteq> selected_word t1)")
        case True
        then obtain v where "sk" "nw = Some v" "is_filled (cells t1) v" "v \<noteq> selected_word t1" by blast
        with prems(2) adv have "g tp sk t1 v = Some r" by simp
        from prems(1) [OF this] f show ?thesis
          by (auto split: sum.splits intro: engine_frame_trans)
      next
        case False
        with prems(2) adv f show ?thesis
          by (auto split: option.splits if_splits)
      qed
    qed
    done
  from this [OF assms(2)] assms(1) show ?thesis by (auto intro: engine_frame_trans)
qed

lemma frame_move_to_next_word:
  "engine_frame s t \<Longrightarrow> move_to_next_word t tp sk = Some (Inr u) \<Longrightarrow> engine_frame s u"
  unfolding move_to_next_word_def
  by (auto split: option.splits sum.splits prod.splits dest: frame_next_word_loop intro!: frame_rules)

lemma frame_mouse_clicked [frame_rules]: "engine_frame s t \<Longrightarrow> engine_frame s (mouse_clicked t p)"
  unfolding mouse_clicked_def Let_def by (auto split: option.splits intro!: frame_rules)

lemma frame_hilite [frame_rules]:
  "engine_frame s t \<Longrightarrow> engine_frame s (mouse_entered_clue t i)"
  "engine_frame s t \<Longrightarrow> engine_frame s (mouse_left_clue t)"
  "engine_frame s t \<Longrightarrow> engine_frame s (toggle_timer t)"
  "engine_frame s t \<Longrightarrow> engine_frame s (t\<lparr>settings := c\<rparr>)"
  by (auto elim!: engine_frame_keep
           simp: mouse_entered_clue_def mouse_left_clue_def toggle_timer_def fixed_fields_def)

lemma frame_clue_clicked: "engine_frame s t \<Longrightarrow> clue_clicked t i g = Inr u \<Longrightarrow> engine_frame s u"
  unfolding clue_clicked_def Let_def by (auto split: option.splits if_splits intro!: frame_rules)

lemma frame_keys [frame_rules]:
  "engine_frame s t \<Longrightarrow> engine_frame s (clear_cell t p)"
  "engine_frame s t \<Longrightarrow> engine_frame s (space_pressed t)"
  "engine_frame s t \<Longrightarrow> engine_frame s (backspace_pressed t)"
  "engine_frame s t \<Longrightarrow> engine_frame s (delete_pressed t)"
  "engine_frame s t \<Longrightarrow> engine_frame s (rebus_entered t input r)"
  unfolding clear_cell_def space_pressed_def backspace_pressed_def delete_pressed_def rebus_entered_def Let_def
  by (auto split: option.splits intro!: frame_rules)

lemma frame_key_pressed:
  "engine_frame s t \<Longrightarrow> key_pressed t code sh input r = Some (Inr u) \<Longrightarrow> engine_frame s u"
  unfolding key_pressed_def
  by (auto split: if_splits dest: frame_move_selection_by frame_move_to_next_word intro: frame_rules)

lemma step_frame:
  "step (s, t) e = Some (Inr (s', t')) \<Longrightarrow> engine_frame s s'"
  by (cases e) (auto dest: frame_key_pressed [OF engine_frame_refl] frame_clue_clicked [OF engine_frame_refl]
                     intro: frame_rules)

subsection \<open>Properties\<close>

lemma mouse_clicked_selects: "fillable (cells s) p \<Longrightarrow> selected_cell (mouse_clicked s p) = Some p"
  by (auto simp: mouse_clicked_def Let_def set_active_cell_def fillable_def fillable_cell_def split: option.splits)

lemma reachable_frame: "reachable p q \<Longrightarrow> engine_frame (fst p) (fst q)"
proof (induction rule: reachable.induct)
  case (start p)
  show ?case by simp
next
  case (event p q e r)
  obtain s t where q: "q = (s, t)" by fastforce
  obtain s' t' where r: "r = (s', t')" by fastforce
  have "engine_frame s s'"
    using step_frame [of s t e s' t'] event.hyps(2) q r by simp
  with event.IH q r show ?case
    by (auto intro: engine_frame_trans)
qed

text \<open>
  C19: whatever events arrive, the cursor rests on a fillable cell: if the loaded page
  selects a fillable cell (or none), every reachable page does.
\<close>

theorem reachable_selection_fillable:
  assumes "reachable p q" and "\<forall>c. selected_cell (fst p) = Some c \<longrightarrow> fillable (cells (fst p)) c"
    and "selected_cell (fst q) = Some c"
  shows "fillable (cells (fst q)) c"
proof -
  have f: "engine_frame (fst p) (fst q)" by (rule reachable_frame [OF assms(1)])
  then have "fillable (cells (fst q)) c = fillable (cells (fst p)) c"
    using fillable_layout [of "cells (fst q)" "cells (fst p)" c] by (simp add: engine_frame_def)
  moreover from f assms(3) have "selected_cell (fst p) = Some c \<or> fillable (cells (fst p)) c"
    by (auto simp: engine_frame_def selection_step_def)
  ultimately show ?thesis using assms(2) by blast
qed

text \<open>
  C20: no event changes the grid's layout (types, empty flags, numbers, solutions) or
  the flag \<^verbatim>\<open>settings_open\<close>; the flag starts \<open>false\<close>, so the guard of
  \<^verbatim>\<open>keyPressed\<close> never fires.
\<close>

theorem reachable_settings_closed:
  "reachable p q \<Longrightarrow> settings_open (fst q) = settings_open (fst p) \<and> grid_layout (cells (fst q)) = grid_layout (cells (fst p))"
  using reachable_frame [of p q] by (simp add: engine_frame_def fixed_fields_def)

lemma next_word_loop_stuck:
  assumes adv: "advance_word tp s v = (s, Some v)" and f: "is_filled (cells s) v"
    and ne: "v \<noteq> selected_word s"
  shows "next_word_loop tp True s v = None"
proof -
  have neq: "(tp', sk, s', w) \<noteq> (tp, True, s, v)" if "next_word_loop tp' sk s' w = Some r'" for tp' sk s' w r'
  proof (rule next_word_loop.raw_induct
      [where P = "\<lambda>tp' sk s' w r'. (tp', sk, s', w) \<noteq> (tp, True, s, v)", OF _ that])
    fix g :: "bool \<Rightarrow> bool \<Rightarrow> xw \<Rightarrow> word \<Rightarrow> (js_error + xw \<times> word option) option"
      and tp' sk s' w r'
    assume ih: "\<And>tp' sk s' w r'. g tp' sk s' w = Some r' \<Longrightarrow> (tp', sk, s', w) \<noteq> (tp, True, s, v)"
      and body: "(case advance_word tp' s' w of (s1, nw) \<Rightarrow>
                   if \<not> sk then Some (Inr (s1, nw))
                   else (case nw of None \<Rightarrow> Some (Inl TypeErrorUndefined)
                         | Some v \<Rightarrow> if \<not> is_filled (cells s1) v then Some (Inr (s1, nw))
                                     else if v = selected_word s1 then Some (Inr (s1, nw))
                                     else g tp' sk s1 v)) = Some r'"
    show "(tp', sk, s', w) \<noteq> (tp, True, s, v)"
    proof
      assume "(tp', sk, s', w) = (tp, True, s, v)"
      with body adv f ne have "g tp True s v = Some r'" by simp
      with ih show False by blast
    qed
  qed
  show ?thesis
  proof (rule ccontr)
    assume "next_word_loop tp True s v \<noteq> None"
    then obtain r where "next_word_loop tp True s v = Some r" by blast
    from neq [OF this] show False by simp
  qed
qed

text \<open>
  C21: Tab with \<^verbatim>\<open>tab_skip\<close> does not return when the active list repeats an id of a
  filled word: \<^verbatim>\<open>indexOf\<close> finds the first copy, whose successor is the second,
  so \<^verbatim>\<open>getNextWord\<close> answers the same word for ever.
\<close>

theorem move_to_next_word_diverges:
  assumes ids: "words_ids (active_clues s) = xs @ i # i # ys" and notin: "i \<notin> set xs"
    and ok: "words_ok (words s)" and v: "words s i = Some v" and filled: "is_filled (cells s) v"
    and ne: "v \<noteq> selected_word s"
    and nxt: "get_next_word (words s) (active_clues s) (selected_word s) = Some v"
  shows "move_to_next_word s False True = None"
proof -
  have vid: "w_id v = i" using ok v by (simp add: words_ok_def)
  have n: "nat (int (length xs) + 1) = Suc (length xs)" by arith
  have "get_next_word (words s) (active_clues s) v = Some v"
    using ids notin v vid n by (simp add: get_next_word_def index_of_append_notin nth_append)
  then have adv: "advance_word False s v = (s, Some v)" by (simp add: advance_word_def)
  have "advance_word False s (selected_word s) = (s, Some v)" using nxt by (simp add: advance_word_def)
  then have "next_word_loop False True s (selected_word s) = next_word_loop False True s v"
    using filled ne by (simp add: next_word_loop.simps [of False True s "selected_word s"])
  also have "\<dots> = None" by (rule next_word_loop_stuck [OF adv filled ne])
  finally show ?thesis by (simp add: move_to_next_word_def)
qed

text \<open>
  C22: Tab without skipping selects the next word of the active list and keeps the
  direction and the grid.
\<close>

theorem move_to_next_word_plain:
  assumes "get_next_word (words s) (active_clues s) (selected_word s) = Some v"
  shows "\<exists>s'. move_to_next_word s False False = Some (Inr s') \<and> selected_word s' = v
              \<and> active_clues s' = active_clues s \<and> cells s' = cells s"
  using assms by (simp add: move_to_next_word_def next_word_loop.simps advance_word_def set_active_word_def)

text \<open>
  C23: Tab past the last word of the top list switches to the bottom list and selects
  its first word.
\<close>

theorem move_to_next_word_wrap:
  assumes "get_next_word (words s) (active_clues s) (selected_word s) = None"
    and "clues_bottom s = Some b" and "cg_id (active_clues s) = CluesTop"
    and "get_first_word (words s) b = Some v"
  shows "\<exists>s'. move_to_next_word s False False = Some (Inr s') \<and> selected_word s' = v
              \<and> active_clues s' = b \<and> inactive_clues s' = clues_top s"
  using assms
  by (simp add: move_to_next_word_def next_word_loop.simps advance_word_def change_active_clues_def
                set_active_word_def)

text \<open>
  \<^verbatim>\<open>clueClicked\<close> throws exactly when the clue names a word that is not in the
  word table.
\<close>

theorem clue_clicked_error:
  "clue_clicked s i g = Inl e \<longleftrightarrow> words s i = None"
  by (cases e) (auto simp: clue_clicked_def Let_def split: option.splits)

lemma grid_layout_Some:
  assumes "grid_layout g' = grid_layout g" and "g' p = Some c'"
  shows "\<exists>c. g p = Some c \<and> layout c' = layout c"
proof -
  have "map_option layout (g' p) = map_option layout (g p)"
    using fun_cong [OF assms(1), of p] by (simp add: grid_layout_def)
  with assms(2) show ?thesis by (cases "g p") auto
qed

lemma grid_layout_Some_rev:
  assumes "grid_layout g' = grid_layout g" and "g p = Some c"
  shows "\<exists>c'. g' p = Some c' \<and> layout c' = layout c"
  using grid_layout_Some [OF assms(1) [symmetric] assms(2)] by auto

lemma engine_frame_wf:
  assumes f: "engine_frame s t" and wf: "session_wf s"
  shows "session_wf t"
proof -
  have lay: "grid_layout (cells t) = grid_layout (cells s)" and fx: "fixed_fields t = fixed_fields s"
    and sel: "selection_step s t"
    using f by (simp_all add: engine_frame_def)
  have box: "cells_in_box (cells t) (grid_width t) (grid_height t)"
    using wf fx dom_layout [OF lay] by (simp add: session_wf_def cells_in_box_def fixed_fields_def)
  have nums: "numbers_ok (cells t) (number_to_cells t)"
    unfolding numbers_ok_def
  proof (intro allI impI ballI)
    fix n ps p assume "number_to_cells t n = Some ps" and p: "p \<in> set ps"
    then have "number_to_cells s n = Some ps" using fx by (simp add: fixed_fields_def)
    moreover have "numbers_ok (cells s) (number_to_cells s)" using wf by (simp add: session_wf_def)
    ultimately obtain c where c: "cells s p = Some c" and "number c = n"
      using p unfolding numbers_ok_def by blast
    with grid_layout_Some_rev [OF lay c] show "\<exists>c. cells t p = Some c \<and> number c = n"
      by (auto simp: layout_def)
  qed
  have sol: "\<forall>p c. cells t p = Some c \<longrightarrow> \<not> empty_cell c \<longrightarrow> solution c \<noteq> []"
  proof (intro allI impI)
    fix p c' assume c': "cells t p = Some c'" and ne: "\<not> empty_cell c'"
    from grid_layout_Some [OF lay c'] obtain c where c0: "cells s p = Some c" and l: "layout c' = layout c"
      by blast
    from l have "empty_cell c' = empty_cell c" "solution c' = solution c" by (simp_all add: layout_def)
    moreover have "\<not> empty_cell c \<longrightarrow> solution c \<noteq> []" using wf c0 unfolding session_wf_def by blast
    ultimately show "solution c' \<noteq> []" using ne by simp
  qed
  have "\<forall>p. selected_cell t = Some p \<longrightarrow> fillable (cells t) p"
    using sel wf fillable_layout [OF lay] by (auto simp: selection_step_def session_wf_def)
  with box nums sol wf fx show ?thesis
    by (simp add: session_wf_def fixed_fields_def)
qed

text \<open>
  C29: well-formedness is an invariant of the event loop: every page reachable from a
  well-formed page by events that return is well formed.
\<close>

theorem reachable_wf: "reachable p q \<Longrightarrow> session_wf (fst p) \<Longrightarrow> session_wf (fst q)"
  using reachable_frame engine_frame_wf by blast

text \<open>
  C40: the engine's configuration is not read-only: once the settings dialog's
  \<^verbatim>\<open>space_switch\<close> radio has been clicked, the next space key press on a
  selected cell that has a word in the other direction switches direction: the
  other clue list becomes active, that word is selected, the cursor stays, and no
  cell changes (a clearing space would have emptied the cell and moved on).
\<close>

theorem settings_click_space_switch:
  assumes "step (s, t) (SettingsClick (input_click (settings s) (''space_switch'', ''radio'', ''space_bar'')))
             = Some (Inr (s', t'))"
    and "step (s', t') (KeyDown 32 sh inp r) = Some (Inr (s'', t''))"
    and "\<not> settings_open s" and "selected_cell s = Some p" and "clues_bottom s = Some b"
    and "matching s (inactive_clues s) p True = Some w"
  shows "cells s'' = cells s \<and> selected_cell s'' = Some p \<and> selected_word s'' = w
         \<and> active_clues s'' = (if cg_id (active_clues s) = CluesTop then b else clues_top s)"
proof -
  have s': "s' = s\<lparr>settings := (settings s)(''space_bar'' \<mapsto> JStr ''space_switch'')\<rparr>" and t': "t' = t"
    using assms(1) by (auto simp: settings_clicked_def input_click_def Let_def)
  have "s'' = space_pressed s'"
    using assms(2,3) by (simp add: key_pressed_def s')
  moreover have "matching s' (inactive_clues s') p True = Some w"
    using assms(6) by (simp add: s' matching_def)
  ultimately have "s'' = set_active_cell (set_active_word (change_active_clues s') (Some w)) (Some p)"
    using assms(4) by (simp add: space_pressed_def s')
  then show ?thesis
    using assms(4,5)
    by (auto simp: s' change_active_clues_def set_active_word_def set_active_cell_def split: option.split)
qed

end
