(* ===== verification/Load.thy ===== *)
theory Load
  imports Session
begin

text \<open>
  The loader of \<^verbatim>\<open>src/js/crosswords.js\<close>: \<^verbatim>\<open>CrossWord.parsePuzzle\<close> after the
  cell loop (theory \<open>Grid\<close>) builds the clue lists, the clue mapping and the word table
  from the object that the external parser \<^verbatim>\<open>JSCrossword.fromData\<close> returns, and
  \<^verbatim>\<open>completeLoad\<close> activates the top list and selects its first word.  The parsed
  object is an input: its clue lists, its words with their 0-based cells, and for coded
  puzzles the entry mapping (in \<^verbatim>\<open>Object.keys\<close> order) and the set of across
  entries computed by the external \<^verbatim>\<open>xwGrid\<close>.
\<close>

record pclues =
  pcl_title :: string
  pcl_clue :: "clue list"

record pword =
  pw_id :: word_id
  pw_cells :: "(int \<times> int) list"

record puzzle =
  pz_type :: string
  pz_width :: int
  pz_height :: int
  pz_cells :: "pcell list"
  pz_clues :: "pclues list"
  pz_words :: "pword list"
  pz_entries :: "(word_id \<times> string) list"
  pz_across :: "string list"

subsection \<open>Clue lists\<close>

text \<open>\<^verbatim>\<open>clueMapping[clue.word] = clue\<close> over one list: a later clue wins.\<close>

definition map_clues :: "clue list \<Rightarrow> (word_id \<rightharpoonup> clue) \<Rightarrow> (word_id \<rightharpoonup> clue)" where
  "map_clues cs m = fold (\<lambda>c m. m(clue_word c \<mapsto> c)) cs m"

definition group_of :: "group_id \<Rightarrow> pclues \<Rightarrow> clues_group" where
  "group_of gid l = \<lparr>cg_id = gid, title = pcl_title l, clues = pcl_clue l, words_ids = map clue_word (pcl_clue l)\<rparr>"

text \<open>
  The coded branch: every entry gets the clue \<^verbatim>\<open>{word: id, number: id, text: '--'}\<close>
  and goes to the across group when its entry is an across entry, else to the down group.
\<close>

definition coded_clue :: "word_id \<Rightarrow> clue" where
  "coded_clue i = \<lparr>clue_word = i, clue_number = i, clue_text = ''--''\<rparr>"

definition coded_step ::
  "string list \<Rightarrow> word_id \<times> string \<Rightarrow> clues_group \<times> clues_group \<times> (word_id \<rightharpoonup> clue)
     \<Rightarrow> clues_group \<times> clues_group \<times> (word_id \<rightharpoonup> clue)" where
  "coded_step acr e acc =
     (case acc of (a, d, m) \<Rightarrow>
        let i = fst e; c = coded_clue i in
        if snd e \<in> set acr
        then (a\<lparr>clues := clues a @ [c], words_ids := words_ids a @ [i]\<rparr>, d, m(i \<mapsto> c))
        else (a, d\<lparr>clues := clues d @ [c], words_ids := words_ids d @ [i]\<rparr>, m(i \<mapsto> c)))"

definition coded_groups :: "(word_id \<times> string) list \<Rightarrow> string list \<Rightarrow> clues_group \<times> clues_group \<times> (word_id \<rightharpoonup> clue)" where
  "coded_groups es acr =
     fold (coded_step acr) es
       (\<lparr>cg_id = CluesTop, title = ''ACROSS'', clues = [], words_ids = []\<rparr>,
        \<lparr>cg_id = CluesBottom, title = ''DOWN'', clues = [], words_ids = []\<rparr>, Map.empty)"

text \<open>
  The clue lists of a puzzle: the coded branch, else the first list on top and a second
  one, if any, at the bottom.  \<^verbatim>\<open>puzzle.clues[0].clue\<close> of a puzzle without clue
  lists throws.
\<close>

definition load_groups :: "puzzle \<Rightarrow> js_error + clues_group \<times> clues_group option \<times> (word_id \<rightharpoonup> clue)" where
  "load_groups pz =
     (if pz_type pz = ''coded'' then
        (case coded_groups (pz_entries pz) (pz_across pz) of (a, d, m) \<Rightarrow> Inr (a, Some d, m))
      else
        (case pz_clues pz of
           [] \<Rightarrow> Inl TypeErrorUndefined
         | l0 # rest \<Rightarrow>
             let m0 = map_clues (pcl_clue l0) Map.empty in
             (case rest of
                [] \<Rightarrow> Inr (group_of CluesTop l0, None, m0)
              | l1 # _ \<Rightarrow> Inr (group_of CluesTop l0, Some (group_of CluesBottom l1), map_clues (pcl_clue l1) m0))))"

subsection \<open>Words\<close>

text \<open>
  \<^verbatim>\<open>this.words[word.id] = new Word(...)\<close>: each 0-based cell becomes the one-cell range
  \<^verbatim>\<open>{x: c[0] + 1, y: c[1] + 1}\<close>, and the clue is looked up in the mapping.
\<close>

definition load_word :: "(word_id \<rightharpoonup> clue) \<Rightarrow> pword \<Rightarrow> word" where
  "load_word m w = new_word (pw_id w) (map (\<lambda>(a, b). (Single (a + 1), Single (b + 1))) (pw_cells w)) (m (pw_id w))"

definition load_words :: "(word_id \<rightharpoonup> clue) \<Rightarrow> pword list \<Rightarrow> words_map" where
  "load_words m ws = fold (\<lambda>w t. t(pw_id w \<mapsto> load_word m w)) ws Map.empty"

subsection \<open>Completing the load\<close>

text \<open>
  \<^verbatim>\<open>completeLoad()\<close>: \<^verbatim>\<open>changeActiveClues\<close> from the constructor's \<^verbatim>\<open>null\<close>
  active list activates the top list; the first word of the active list is selected and
  its first cell becomes the selected cell; \<^verbatim>\<open>first_word.getFirstCell()\<close> throws when
  the list has no first word.  The timer starts when \<^verbatim>\<open>timer_autostart\<close> is set.
  The closing \<^verbatim>\<open>renderCells()\<close> throws in an acrostic with no selected cell, and
  the load fails (\<^verbatim>\<open>createCrossword\<close> alerts and returns no crossword).
\<close>

definition complete_load ::
  "jconfig \<Rightarrow> grid \<Rightarrow> number_index \<Rightarrow> int \<Rightarrow> int \<Rightarrow> string \<Rightarrow> bool \<Rightarrow> words_map \<Rightarrow> clues_group \<Rightarrow> clues_group option
     \<Rightarrow> js_error + xw" where
  "complete_load cfg g nums w h ct af ws top_group bottom_group =
     (let inactive = (case bottom_group of None \<Rightarrow> top_group | Some b \<Rightarrow> b) in
      case get_first_word ws top_group of
        None \<Rightarrow> Inl TypeErrorUndefined
      | Some fw \<Rightarrow>
          let s = \<lparr>cells = g, grid_width = w, grid_height = h, words = ws,
                   clues_top = top_group, clues_bottom = bottom_group, active_clues = top_group, inactive_clues = inactive,
                   selected_word = fw, selected_cell = None, hilited_word = None,
                   number_to_cells = nums, is_autofill = af, crossword_type = ct, settings = cfg,
                   timer_running = False, solved_notified = False, settings_open = False\<rparr>;
              s1 = set_active_cell s (get_first_cell g fw);
              s2 = (if truthy (cfg ''timer_autostart'') then toggle_timer s1 else s1)
          in if render_throws s2 then Inl TypeErrorUndefined else Inr s2)"

text \<open>\<^verbatim>\<open>parsePuzzle(string)\<close> on the parsed object, followed by \<^verbatim>\<open>completeLoad\<close>.\<close>

definition load_puzzle :: "jconfig \<Rightarrow> puzzle \<Rightarrow> js_error + xw" where
  "load_puzzle cfg pz =
     (let af = (pz_type pz = ''acrostic'' \<or> pz_type pz = ''coded'');
          gn = load_cells (pz_cells pz) (Map.empty, Map.empty)
      in case load_groups pz of
           Inl e \<Rightarrow> Inl e
         | Inr (top_group, bottom_group, m) \<Rightarrow>
             complete_load cfg (fst gn) (snd gn) (pz_width pz) (pz_height pz) (pz_type pz) af
               (load_words m (pz_words pz)) top_group bottom_group)"

subsection \<open>Lemmas\<close>

lemma load_word_fields [simp]: "w_id (load_word m w) = pw_id w" "w_clue (load_word m w) = m (pw_id w)"
  by (simp_all add: load_word_def new_word_def)

lemma fold_load_words:
  assumes "\<forall>i v. t i = Some v \<longrightarrow> w_id v = i \<and> w_clue v = m i"
  shows "\<forall>i v. fold (\<lambda>w t. t(pw_id w \<mapsto> load_word m w)) ws t i = Some v \<longrightarrow> w_id v = i \<and> w_clue v = m i"
  using assms
proof (induction ws arbitrary: t)
  case Nil
  then show ?case by simp
next
  case (Cons a ws)
  have "\<forall>i v. (t(pw_id a \<mapsto> load_word m a)) i = Some v \<longrightarrow> w_id v = i \<and> w_clue v = m i"
  proof (intro allI impI)
    fix i v assume "(t(pw_id a \<mapsto> load_word m a)) i = Some v"
    then show "w_id v = i \<and> w_clue v = m i"
      using Cons.prems by (cases "i = pw_id a") auto
  qed
  from Cons.IH [OF this] show ?case by simp
qed
lemma load_words_Some: "load_words m ws i = Some v \<Longrightarrow> w_id v = i \<and> w_clue v = m i"
  using fold_load_words [of Map.empty m ws] by (simp add: load_words_def)

lemma words_ok_load_words: "words_ok (load_words m ws)"
  by (simp add: words_ok_def load_words_Some)
lemma map_clues_Some:
  assumes "\<forall>c. m i = Some c \<longrightarrow> clue_word c = i" and "map_clues cs m i = Some c"
  shows "clue_word c = i"
  using assms unfolding map_clues_def
proof (induction cs arbitrary: m)
  case Nil
  then show ?case by simp
next
  case (Cons a cs)
  have "\<forall>c. (m(clue_word a \<mapsto> a)) i = Some c \<longrightarrow> clue_word c = i"
    using Cons.prems(1) by auto
  from Cons.IH [of "m(clue_word a \<mapsto> a)", OF this] Cons.prems(2) show ?case
    by simp
qed

lemma complete_load_Inr:
  assumes "complete_load cfg g nums w h ct af ws t b = Inr s"
  shows "cells s = g \<and> grid_width s = w \<and> grid_height s = h \<and> words s = ws \<and> number_to_cells s = nums
         \<and> active_clues s = t \<and> clues_top s = t \<and> get_first_word ws t = Some (selected_word s)
         \<and> (\<forall>p. selected_cell s = Some p \<longrightarrow> fillable g p)"
  using assms
  by (auto simp: complete_load_def Let_def set_active_cell_def toggle_timer_def fillable_def fillable_cell_def
           split: option.splits if_splits)

lemma get_first_word_table:
  assumes "get_first_word (load_words m ws) g = Some w"
  shows "load_words m ws (w_id w) = Some w"
proof (cases "words_ids g")
  case Nil
  with assms show ?thesis by (simp add: get_first_word_def)
next
  case (Cons i rest)
  with assms have "load_words m ws i = Some w" by (simp add: get_first_word_def)
  moreover from this have "w_id w = i" by (rule load_words_Some [THEN conjunct1])
  ultimately show ?thesis by simp
qed

lemma cells_in_box_load:
  assumes "dom g = cell_pos ` set ps"
    and "\<forall>p\<in>set ps. 0 \<le> pc_x p \<and> pc_x p < w \<and> 0 \<le> pc_y p \<and> pc_y p < h"
  shows "cells_in_box g w h"
  using assms by (auto simp: cells_in_box_def cell_pos_def)

text \<open>
  C28: a puzzle whose cells have distinct positions inside the declared size loads into
  a well-formed session, with the top list active and the selected word in the table.
\<close>

theorem load_puzzle_wf:
  assumes ld: "load_puzzle cfg pz = Inr s" and d: "distinct (map cell_pos (pz_cells pz))"
    and bnd: "\<forall>p\<in>set (pz_cells pz). 0 \<le> pc_x p \<and> pc_x p < pz_width pz \<and> 0 \<le> pc_y p \<and> pc_y p < pz_height pz"
  shows "session_wf s \<and> active_clues s = clues_top s \<and> words s (w_id (selected_word s)) = Some (selected_word s)"
proof -
  let ?gn = "load_cells (pz_cells pz) (Map.empty, Map.empty)"
  let ?af = "pz_type pz = ''acrostic'' \<or> pz_type pz = ''coded''"
  obtain t b m where cl: "complete_load cfg (fst ?gn) (snd ?gn) (pz_width pz) (pz_height pz) (pz_type pz) ?af
                            (load_words m (pz_words pz)) t b = Inr s"
    using ld by (auto simp: load_puzzle_def Let_def split: sum.splits)
  note cs = complete_load_Inr [OF cl]
  have e1: "\<forall>q\<in>cell_pos ` set (pz_cells pz). (Map.empty :: grid) q = None" by simp
  have e2: "numbers_ok Map.empty (Map.empty :: number_index)" by (simp add: numbers_ok_def)
  have e3: "\<forall>n qs. (Map.empty :: number_index) n = Some qs \<longrightarrow> set qs \<subseteq> dom (Map.empty :: grid)" by simp
  note lw = load_cells_wf [OF d e1 e2 e3]
  have box: "cells_in_box (cells s) (grid_width s) (grid_height s)"
    using cs cells_in_box_load [OF _ bnd] lw by simp
  have nums: "numbers_ok (cells s) (number_to_cells s)"
    using cs lw by simp
  have sol: "\<forall>q c. cells s q = Some c \<longrightarrow> \<not> empty_cell c \<longrightarrow> solution c \<noteq> []"
  proof (intro allI impI)
    fix q c assume cq: "cells s q = Some c" and ne: "\<not> empty_cell c"
    note D = conjunct2 [OF conjunct2 [OF conjunct2 [OF lw]]]
    from cq cs have "fst ?gn q = Some c" by simp
    from D [rule_format, OF this] obtain p where "c = load_cell p" by auto
    with load_cell_ok [of p] ne show "solution c \<noteq> []" by (simp add: cell_ok_def)
  qed
  have sel: "\<forall>p. selected_cell s = Some p \<longrightarrow> fillable (cells s) p"
    using cs by simp
  have fw: "get_first_word (load_words m (pz_words pz)) t = Some (selected_word s)"
    and ws: "words s = load_words m (pz_words pz)"
    using cs by blast+
  have "words s (w_id (selected_word s)) = Some (selected_word s)"
    using get_first_word_table [OF fw] ws by simp
  with box nums sol sel cs show ?thesis
    by (simp add: session_wf_def words_ok_load_words)
qed

lemma dom_fold_load_words: "dom (fold (\<lambda>w t. t(pw_id w \<mapsto> load_word m w)) ws t) = dom t \<union> pw_id ` set ws"
  by (induction ws arbitrary: t) auto

lemma load_words_None: "load_words m ws i = None \<longleftrightarrow> i \<notin> pw_id ` set ws"
  using dom_fold_load_words [of m ws Map.empty] by (auto simp: load_words_def)

lemma load_words_notin: "i \<notin> pw_id ` set ws \<Longrightarrow> load_words m ws i = None"
  by (simp add: load_words_None)

text \<open>
  C30: loading throws when a non-coded puzzle has no clue list, or its first list has
  no clue, or the first clue names no word of the puzzle.
\<close>

theorem load_puzzle_error:
  assumes "pz_type pz \<noteq> ''coded''"
    and "pz_clues pz = [] \<or> (\<exists>l0 rest. pz_clues pz = l0 # rest
                               \<and> (pcl_clue l0 = [] \<or> clue_word (hd (pcl_clue l0)) \<notin> pw_id ` set (pz_words pz)))"
  shows "load_puzzle cfg pz = Inl TypeErrorUndefined"
  using assms
  by (auto simp: load_puzzle_def load_groups_def complete_load_def get_first_word_def group_of_def Let_def
                 load_words_notin split: list.splits)

lemma fold_coded_step:
  assumes "fold (coded_step acr) es (a, d, m) = (a', d', m')"
  shows "words_ids a' = words_ids a @ map fst (filter (\<lambda>e. snd e \<in> set acr) es)
         \<and> words_ids d' = words_ids d @ map fst (filter (\<lambda>e. snd e \<notin> set acr) es)
         \<and> dom m' = dom m \<union> fst ` set es \<and> (\<forall>i c. m' i = Some c \<longrightarrow> m i = Some c \<or> c = coded_clue i)"
  using assms
proof (induction es arbitrary: a d m)
  case Nil
  then show ?case by simp
next
  case (Cons e es)
  obtain a1 d1 m1 where st: "coded_step acr e (a, d, m) = (a1, d1, m1)" by (cases "coded_step acr e (a, d, m)")
  have ih: "words_ids a' = words_ids a1 @ map fst (filter (\<lambda>e. snd e \<in> set acr) es)
         \<and> words_ids d' = words_ids d1 @ map fst (filter (\<lambda>e. snd e \<notin> set acr) es)
         \<and> dom m' = dom m1 \<union> fst ` set es \<and> (\<forall>i c. m' i = Some c \<longrightarrow> m1 i = Some c \<or> c = coded_clue i)"
    using Cons.prems st by (intro Cons.IH) simp
  have m1: "m1 = m(fst e \<mapsto> coded_clue (fst e))"
    and ids: "words_ids a1 = words_ids a @ (if snd e \<in> set acr then [fst e] else [])"
             "words_ids d1 = words_ids d @ (if snd e \<in> set acr then [] else [fst e])"
    using st by (auto simp: coded_step_def Let_def split: if_splits)
  show ?case
    using ih m1 ids by (auto split: if_splits)
qed

text \<open>
  C31: a coded puzzle's entries are split in their order between the across and the
  down list by membership of their entry in the across set, and each gets a clue.
\<close>

theorem coded_groups_partition:
  assumes "coded_groups es acr = (a, d, m)"
  shows "words_ids a = map fst (filter (\<lambda>e. snd e \<in> set acr) es)
         \<and> words_ids d = map fst (filter (\<lambda>e. snd e \<notin> set acr) es) \<and> dom m = fst ` set es"
  using fold_coded_step [OF assms [unfolded coded_groups_def]] by simp

lemma load_groups_clues:
  assumes "load_groups pz = Inr (t, b, m)" and "m i = Some c"
  shows "clue_word c = i"
proof (cases "pz_type pz = ''coded''")
  case True
  obtain a d m' where cg: "coded_groups (pz_entries pz) (pz_across pz) = (a, d, m')"
    by (cases "coded_groups (pz_entries pz) (pz_across pz)")
  with True assms(1) have "m = m'" by (simp add: load_groups_def)
  moreover from fold_coded_step [OF cg [unfolded coded_groups_def]]
  have "\<forall>i c. m' i = Some c \<longrightarrow> c = coded_clue i" by simp
  ultimately have "c = coded_clue i" using assms(2) by blast
  then show ?thesis by (simp add: coded_clue_def)
next
  case False
  have inv: "\<forall>c. m0 i = Some c \<longrightarrow> clue_word c = i \<Longrightarrow> \<forall>c. map_clues cs m0 i = Some c \<longrightarrow> clue_word c = i"
    for m0 cs using map_clues_Some [of m0 i cs] by blast
  have e: "\<forall>c. (Map.empty :: word_id \<rightharpoonup> clue) i = Some c \<longrightarrow> clue_word c = i" by simp
  obtain l0 rest where cl: "pz_clues pz = l0 # rest"
    using False assms(1) by (cases "pz_clues pz") (auto simp: load_groups_def)
  have h0: "\<forall>c. map_clues (pcl_clue l0) Map.empty i = Some c \<longrightarrow> clue_word c = i"
    by (rule inv [OF e])
  show ?thesis
  proof (cases rest)
    case Nil
    with False cl assms(1) have "m = map_clues (pcl_clue l0) Map.empty"
      by (simp add: load_groups_def Let_def)
    with h0 assms(2) show ?thesis by blast
  next
    case (Cons l1 more)
    with False cl assms(1) have "m = map_clues (pcl_clue l1) (map_clues (pcl_clue l0) Map.empty)"
      by (simp add: load_groups_def Let_def)
    with inv [of "map_clues (pcl_clue l0) Map.empty" "pcl_clue l1", OF h0] assms(2) show ?thesis by blast
  qed
qed

text \<open>
  C32: every word of a loaded table is stored under its own id, and its clue, if any,
  names that id.
\<close>

theorem load_puzzle_clues:
  assumes "load_puzzle cfg pz = Inr s" and "words s i = Some w" and "w_clue w = Some c"
  shows "w_id w = i \<and> clue_word c = i"
proof -
  let ?gn = "load_cells (pz_cells pz) (Map.empty, Map.empty)"
  let ?af = "pz_type pz = ''acrostic'' \<or> pz_type pz = ''coded''"
  obtain t b m where lg: "load_groups pz = Inr (t, b, m)"
    and cl: "complete_load cfg (fst ?gn) (snd ?gn) (pz_width pz) (pz_height pz) (pz_type pz) ?af (load_words m (pz_words pz)) t b = Inr s"
    using assms(1) by (auto simp: load_puzzle_def Let_def split: sum.splits)
  have "words s = load_words m (pz_words pz)" using complete_load_Inr [OF cl] by blast
  with assms(2) have "w_id w = i \<and> w_clue w = m i" using load_words_Some [of m "pz_words pz" i w] by simp
  with assms(3) load_groups_clues [OF lg] show ?thesis by simp
qed

end
