(* ===== verification/Render.thy ===== *)
theory Render
  imports Session
begin

text \<open>
  The canvas of \<^verbatim>\<open>src/js/crosswords.js\<close>: \<^verbatim>\<open>renderCells\<close>, which fits the cell
  size to the canvas and draws every cell, and the pixel arithmetic that
  \<^verbatim>\<open>mouseClicked\<close> and \<^verbatim>\<open>mouseMoved\<close> use to find the cell under the pointer;
  \<^verbatim>\<open>markActive\<close>, which marks the clue of the word through the selected cell.
  A drawing is the list of canvas operations issued for each cell; fonts, text
  alignment and the device pixel ratio are left out.  Pixel measurements are
  integers.
\<close>

subsection \<open>View state\<close>

text \<open>
  The fields of \<^verbatim>\<open>CrossWord\<close> that only rendering and the pointer handlers read:
  \<^verbatim>\<open>cell_size\<close> (written by \<^verbatim>\<open>renderCells\<close>), \<^verbatim>\<open>hovered_x\<close> and
  \<^verbatim>\<open>hovered_y\<close> (\<^verbatim>\<open>null\<close> until the pointer moves, written by
  \<^verbatim>\<open>mouseMoved\<close>).  \<^verbatim>\<open>crossword_type\<close> is a field of the session, since
  \<^verbatim>\<open>check_reveal\<close> depends on whether drawing throws.
\<close>

record view =
  cell_size :: int
  hovered_x :: "int option"
  hovered_y :: "int option"

subsection \<open>Geometry\<close>

text \<open>\<^verbatim>\<open>Math.ceil(m / n)\<close> for a positive divisor, by floor division.\<close>

definition ceil_div :: "int \<Rightarrow> int \<Rightarrow> int" where
  "ceil_div m n = - ((- m) div n)"

text \<open>The cell index of a pointer offset: \<^verbatim>\<open>Math.ceil(mouse_x / this.cell_size)\<close>.\<close>

definition pixel_index :: "int \<Rightarrow> int \<Rightarrow> int" where
  "pixel_index sz m = ceil_div m sz"

text \<open>
  The cell size that fits the canvas rectangle:
  \<^verbatim>\<open>Math.min(Math.floor(max_height / grid_height), Math.floor(max_width / grid_width))\<close>.
\<close>

definition fit_cell_size :: "int \<Rightarrow> int \<Rightarrow> int \<Rightarrow> int \<Rightarrow> int" where
  "fit_cell_size max_height max_width grid_h grid_w = min (max_height div grid_h) (max_width div grid_w)"

text \<open>The canvas extent in CSS pixels: \<^verbatim>\<open>n * cell_size - 2 + SIZE_OFFSET\<close>.\<close>

definition canvas_dps :: "int \<Rightarrow> int \<Rightarrow> int" where
  "canvas_dps n sz = n * sz - 2 + 4"

text \<open>The top or left pixel of a cell's square: \<^verbatim>\<open>(x - 1) * this.cell_size + 1\<close>.\<close>

definition cell_origin :: "int \<Rightarrow> int \<Rightarrow> int" where
  "cell_origin sz x = (x - 1) * sz + 1"

subsection \<open>Drawing operations\<close>

datatype bar_side = BarTop | BarBottom | BarLeft | BarRight

text \<open>
  The canvas calls issued for one cell, all at the cell's square: a filled square
  with its fill style, the bounding box, the circle of a circled cell, a bar, the
  cell number, the diagonal of a checked cell, and the letter (with the flags that
  choose a bold italic font and the clue font colour).
\<close>

datatype draw_op =
    FillRect "jval option"
  | StrokeRect
  | Circle
  | BarLine bar_side
  | NumberText string
  | CheckSlash
  | LetterText string bool bool

text \<open>
  JavaScript's loose equality \<^verbatim>\<open>==\<close> on the values compared here (colours and
  cell numbers): \<^verbatim>\<open>null\<close> and \<^verbatim>\<open>undefined\<close> equal each other and nothing else.
\<close>

definition loose_eq :: "jval option \<Rightarrow> jval option \<Rightarrow> bool" where
  "loose_eq a b \<longleftrightarrow> a = b \<or> (a \<in> {None, Some JNull} \<and> b \<in> {None, Some JNull})"

fun number_loose_eq :: "cell_number \<Rightarrow> cell_number \<Rightarrow> bool" where
  "number_loose_eq (Num a) (Num b) = (a = b)"
| "number_loose_eq (Num a) _ = False"
| "number_loose_eq _ (Num b) = False"
| "number_loose_eq _ _ = True"

text \<open>A cell's own colour as a fill style (\<^verbatim>\<open>undefined\<close> when it has none).\<close>

definition own_color :: "cell \<Rightarrow> jval option" where
  "own_color c = map_option JStr (color c)"

text \<open>
  The colour of a fillable cell: its own colour, overridden in turn by the
  selected word's colour, the hover colour, the selected cell's colour and, in an
  acrostic, the highlight of the selected cell's number mates.  The highlight of
  \<^verbatim>\<open>hilited_word\<close> is commented out in the code.  The acrostic test reads
  \<^verbatim>\<open>this.selected_cell.number\<close> and throws when no cell is selected; the
  selected coordinate is a cell of the grid in every well-formed session.
\<close>

definition cell_color :: "xw \<Rightarrow> view \<Rightarrow> coord \<Rightarrow> cell \<Rightarrow> js_error + jval option" where
  "cell_color s v p c =
     (let c1 = (if has_cell (selected_word s) (fst p) (snd p) then settings s ''color_word'' else own_color c);
          c2 = (if truthy (settings s ''hover_enabled'') \<and> hovered_x v = Some (fst p) \<and> hovered_y v = Some (snd p)
                then settings s ''color_hover'' else c1);
          c3 = (if selected_cell s = Some p then settings s ''color_selected'' else c2)
      in if crossword_type s = ''acrostic'' then
           (case selected_cell s of
              None \<Rightarrow> Inl TypeErrorUndefined
            | Some q \<Rightarrow>
                (case cells s q of
                   Some sc \<Rightarrow> if number_loose_eq (number c) (number sc) \<and> p \<noteq> q
                              then Inr (settings s ''color_hilite'') else Inr c3
                 | None \<Rightarrow> Inr c3))
         else Inr c3)"

text \<open>The bars of a cell, in the key order of the object \<^verbatim>\<open>c.bar\<close>.\<close>

definition bar_lines :: "bars \<Rightarrow> draw_op list" where
  "bar_lines b =
     (if bar_top b then [BarLine BarTop] else []) @ (if bar_bottom b then [BarLine BarBottom] else [])
     @ (if bar_left b then [BarLine BarLeft] else []) @ (if bar_right b then [BarLine BarRight] else [])"

text \<open>What every cell gets after its square: circle, bars, number, check mark, letter.\<close>

definition cell_marks :: "cell \<Rightarrow> draw_op list" where
  "cell_marks c =
     (if shape c = Some ''circle'' then [Circle] else [])
     @ bar_lines (bar c)
     @ (case number c of Num n \<Rightarrow> if n \<noteq> [] then [NumberText n] else [] | _ \<Rightarrow> [])
     @ (if letter c \<noteq> [] then (if checked c then [CheckSlash] else []) @ [LetterText (letter c) (revealed c) (is_clue c)]
        else [])"

text \<open>
  The square of a cell: a fillable cell is filled with its colour when that is
  truthy and always boxed; a clue cell gets the clue background; any other empty
  cell (blocks, and voids, since the loader never sets \<^verbatim>\<open>is_void\<close>) is filled
  with its colour or the block colour unless its colour is \<^verbatim>\<open>!==\<close> the none
  colour, and boxed unless it is \<^verbatim>\<open>==\<close> to it.
\<close>

definition cell_square :: "xw \<Rightarrow> view \<Rightarrow> coord \<Rightarrow> cell \<Rightarrow> js_error + draw_op list" where
  "cell_square s v p c =
     (if \<not> empty_cell c then
        map_sum id (\<lambda>col. (if truthy col then [FillRect col] else []) @ [StrokeRect]) (cell_color s v p c)
      else if is_clue c then Inr [FillRect (settings s ''background_color_clue''), StrokeRect]
      else if own_color c \<noteq> settings s ''color_none'' then
        Inr ([FillRect (if truthy (own_color c) then own_color c else settings s ''color_block'')]
             @ (if \<not> loose_eq (own_color c) (settings s ''color_none'') then [StrokeRect] else []))
      else Inr [])"

definition cell_ops :: "xw \<Rightarrow> view \<Rightarrow> coord \<Rightarrow> cell \<Rightarrow> js_error + draw_op list" where
  "cell_ops s v p c = map_sum id (\<lambda>ops. ops @ cell_marks c) (cell_square s v p c)"

text \<open>The loops over \<^verbatim>\<open>this.cells\<close>; a throw ends the drawing.\<close>

fun draw_cells :: "xw \<Rightarrow> view \<Rightarrow> coord list \<Rightarrow> js_error + (coord \<times> draw_op list) list" where
  "draw_cells s v [] = Inr []"
| "draw_cells s v (p # ps) =
     (case cells s p of
        None \<Rightarrow> draw_cells s v ps
      | Some c \<Rightarrow> (case cell_ops s v p c of
                    Inl e \<Rightarrow> Inl e
                  | Inr ops \<Rightarrow> map_sum id (\<lambda>r. (p, ops) # r) (draw_cells s v ps)))"

text \<open>
  \<^verbatim>\<open>renderCells()\<close> for a canvas rectangle of the given height and width: it
  stores the fitted cell size in the view (before any throw), sizes the canvas,
  fills it with the none colour, and draws the cells.
\<close>

record drawing =
  canvas_width :: int
  canvas_height :: int
  background :: "jval option"
  painted :: "(coord \<times> draw_op list) list"

definition render_view :: "xw \<Rightarrow> view \<Rightarrow> int \<Rightarrow> int \<Rightarrow> view" where
  "render_view s v max_height max_width =
     v\<lparr>cell_size := fit_cell_size max_height max_width (grid_height s) (grid_width s)\<rparr>"

definition render_cells :: "xw \<Rightarrow> view \<Rightarrow> int \<Rightarrow> int \<Rightarrow> js_error + drawing" where
  "render_cells s v max_height max_width =
     (let v' = render_view s v max_height max_width; sz = cell_size v' in
      map_sum id (\<lambda>ops. \<lparr>canvas_width = canvas_dps (grid_width s) sz, canvas_height = canvas_dps (grid_height s) sz,
                         background = settings s ''color_none'', painted = ops\<rparr>)
        (draw_cells s v' (grid_coords (cells s) (grid_width s) (grid_height s))))"

subsection \<open>Pointer handlers\<close>

text \<open>\<^verbatim>\<open>mouseClicked(e)\<close> at a pointer offset within the canvas.\<close>

definition click_at :: "xw \<Rightarrow> view \<Rightarrow> int \<Rightarrow> int \<Rightarrow> xw" where
  "click_at s v mouse_x mouse_y =
     mouse_clicked s (pixel_index (cell_size v) mouse_x, pixel_index (cell_size v) mouse_y)"

text \<open>
  \<^verbatim>\<open>mouseMoved(e)\<close> with hovering enabled: record the cell under the pointer; the
  flag says whether the canvas is drawn again.
\<close>

definition mouse_moved :: "xw \<Rightarrow> view \<Rightarrow> int \<Rightarrow> int \<Rightarrow> view \<times> bool" where
  "mouse_moved s v mouse_x mouse_y =
     (if truthy (settings s ''hover_enabled'') then
        (let index_x = pixel_index (cell_size v) mouse_x; index_y = pixel_index (cell_size v) mouse_y in
         if hovered_x v \<noteq> Some index_x \<or> hovered_y v \<noteq> Some index_y
         then (v\<lparr>hovered_x := Some index_x, hovered_y := Some index_y\<rparr>, True)
         else (v, False))
      else (v, False))"

subsection \<open>Clue marks\<close>

text \<open>
  \<^verbatim>\<open>group.markActive(x, y, is_passive)\<close>: every clue of the group loses its mark
  and the clue of \<^verbatim>\<open>group.getMatchingWord(x, y)\<close>, if any, gets the class
  \<^verbatim>\<open>passive\<close> or \<^verbatim>\<open>active\<close>; the result names that clue's word and the class.
\<close>

definition mark_active :: "words_map \<Rightarrow> word \<Rightarrow> clues_group \<Rightarrow> coord \<Rightarrow> bool \<Rightarrow> (word_id \<times> string) option" where
  "mark_active ws sel g p is_passive =
     map_option (\<lambda>w. (w_id w, if is_passive then ''passive'' else ''active''))
       (get_matching_word ws sel g (fst p) (snd p) False)"

text \<open>
  The marks \<^verbatim>\<open>setActiveCell\<close> leaves on the two clue lists after selecting a
  cell: the inactive list's passive mark and the active list's active mark.
\<close>

definition clue_marks :: "xw \<Rightarrow> (word_id \<times> string) option \<times> (word_id \<times> string) option" where
  "clue_marks s =
     (case selected_cell s of
        None \<Rightarrow> (None, None)
      | Some p \<Rightarrow> (mark_active (words s) (selected_word s) (inactive_clues s) p True,
                  mark_active (words s) (selected_word s) (active_clues s) p False))"

subsection \<open>Lemmas\<close>

lemma pixel_index_iff:
  assumes "0 < sz"
  shows "pixel_index sz m = x \<longleftrightarrow> cell_origin sz x \<le> m \<and> m < cell_origin sz x + sz"
proof -
  have "(- m) div sz = - x \<longleftrightarrow> - x * sz \<le> - m \<and> - m < (- x + 1) * sz"
  proof
    assume h: "(- m) div sz = - x"
    have e: "- m = sz * ((- m) div sz) + (- m) mod sz" by simp
    have "0 \<le> (- m) mod sz" "(- m) mod sz < sz" using assms by simp_all
    with e h show "- x * sz \<le> - m \<and> - m < (- x + 1) * sz" by (simp add: algebra_simps)
  next
    assume b: "- x * sz \<le> - m \<and> - m < (- x + 1) * sz"
    show "(- m) div sz = - x"
      by (rule int_div_pos_eq [where r = "- m + x * sz"]) (use b in \<open>simp_all add: algebra_simps\<close>)
  qed
  moreover have "pixel_index sz m = x \<longleftrightarrow> (- m) div sz = - x"
    by (auto simp: pixel_index_def ceil_div_def)
  ultimately show ?thesis
    by (auto simp: cell_origin_def algebra_simps)
qed

lemma pixel_index_cell:
  "0 < sz \<Longrightarrow> 0 \<le> d \<Longrightarrow> d < sz \<Longrightarrow> pixel_index sz (cell_origin sz x + d) = x"
  by (simp add: pixel_index_iff)

lemma mult_div_below: "0 < (k::int) \<Longrightarrow> k * (m div k) \<le> m"
proof -
  assume k: "0 < k"
  have "m = k * (m div k) + m mod k" by simp
  moreover have "0 \<le> m mod k" using k by simp
  ultimately show ?thesis by linarith
qed

text \<open>
  C12: the pointer arithmetic inverts the drawing: a pointer anywhere in the square
  drawn for cell \<open>(x, y)\<close> is resolved to \<open>(x, y)\<close> by \<^verbatim>\<open>mouseClicked\<close>, and,
  with hovering enabled, recorded as the hovered cell by \<^verbatim>\<open>mouseMoved\<close>.
\<close>

theorem click_at_cell:
  assumes "0 < cell_size v" and "0 \<le> dx" and "dx < cell_size v" and "0 \<le> dy" and "dy < cell_size v"
  shows "click_at s v (cell_origin (cell_size v) x + dx) (cell_origin (cell_size v) y + dy) = mouse_clicked s (x, y)
         \<and> (truthy (settings s ''hover_enabled'') \<longrightarrow>
              hovered_x (fst (mouse_moved s v (cell_origin (cell_size v) x + dx) (cell_origin (cell_size v) y + dy))) = Some x
            \<and> hovered_y (fst (mouse_moved s v (cell_origin (cell_size v) x + dx) (cell_origin (cell_size v) y + dy))) = Some y)"
  using assms by (simp add: click_at_def mouse_moved_def Let_def pixel_index_cell)

lemma cell_square_in_canvas:
  assumes "0 \<le> sz" and "1 \<le> x" and "x \<le> n"
  shows "1 \<le> cell_origin sz x \<and> cell_origin sz x + sz \<le> canvas_dps n sz"
proof -
  have "0 \<le> (x - 1) * sz" using assms by simp
  moreover have "x * sz \<le> n * sz" using assms by (simp add: mult_right_mono)
  ultimately show ?thesis by (simp add: cell_origin_def canvas_dps_def algebra_simps)
qed

lemma fit_canvas:
  assumes "0 < gh" and "0 < gw" and "0 \<le> mh" and "0 \<le> mw"
  shows "canvas_dps gh (fit_cell_size mh mw gh gw) \<le> mh + 2 \<and> canvas_dps gw (fit_cell_size mh mw gh gw) \<le> mw + 2"
proof -
  let ?s = "fit_cell_size mh mw gh gw"
  have "gh * ?s \<le> gh * (mh div gh)" using assms by (simp add: fit_cell_size_def)
  also have "\<dots> \<le> mh" by (rule mult_div_below) (use assms in simp)
  finally have h: "gh * ?s \<le> mh" .
  have "gw * ?s \<le> gw * (mw div gw)" using assms by (simp add: fit_cell_size_def)
  also have "\<dots> \<le> mw" by (rule mult_div_below) (use assms in simp)
  finally have w: "gw * ?s \<le> mw" .
  from h w show ?thesis by (simp add: canvas_dps_def algebra_simps)
qed

lemma cell_ops_Inl:
  "(\<exists>e. cell_ops s v p c = Inl e) \<longleftrightarrow>
     \<not> empty_cell c \<and> crossword_type s = ''acrostic'' \<and> selected_cell s = None"
  by (auto simp: cell_ops_def cell_square_def cell_color_def Let_def split: option.splits)

lemma draw_cells_Inl:
  "(\<exists>e. draw_cells s v ps = Inl e) \<longleftrightarrow>
     (\<exists>p\<in>set ps. \<exists>c. cells s p = Some c \<and> (\<exists>e. cell_ops s v p c = Inl e))"
proof (induction ps)
  case Nil
  then show ?case by simp
next
  case (Cons p ps)
  show ?case
  proof (cases "cells s p")
    case None
    with Cons.IH show ?thesis by auto
  next
    case (Some c)
    show ?thesis
    proof (cases "cell_ops s v p c")
      case (Inl e)
      with Some show ?thesis by auto
    next
      case (Inr ops)
      with Some Cons.IH show ?thesis by (cases "draw_cells s v ps") auto
    qed
  qed
qed

text \<open>
  C24: \<^verbatim>\<open>renderCells\<close> throws exactly in an acrostic with no selected cell and at
  least one fillable cell to draw: the acrostic highlight reads
  \<^verbatim>\<open>this.selected_cell.number\<close> without a check.  Every other drawing succeeds.
\<close>

theorem render_cells_error:
  "(\<exists>e. render_cells s v h w = Inl e) \<longleftrightarrow>
     crossword_type s = ''acrostic'' \<and> selected_cell s = None
     \<and> (\<exists>p\<in>set (grid_coords (cells s) (grid_width s) (grid_height s)). \<exists>c. cells s p = Some c \<and> \<not> empty_cell c)"
proof -
  have "(\<exists>e. render_cells s v h w = Inl e) \<longleftrightarrow>
          (\<exists>e. draw_cells s (render_view s v h w) (grid_coords (cells s) (grid_width s) (grid_height s)) = Inl e)"
    by (cases "draw_cells s (render_view s v h w) (grid_coords (cells s) (grid_width s) (grid_height s))")
       (simp_all add: render_cells_def Let_def)
  also have "\<dots> \<longleftrightarrow> crossword_type s = ''acrostic'' \<and> selected_cell s = None
     \<and> (\<exists>p\<in>set (grid_coords (cells s) (grid_width s) (grid_height s)). \<exists>c. cells s p = Some c \<and> \<not> empty_cell c)"
    by (auto simp: draw_cells_Inl cell_ops_Inl render_view_def)
  finally show ?thesis .
qed

lemma render_cells_throws: "(\<exists>e. render_cells s v h w = Inl e) \<longleftrightarrow> render_throws s"
proof -
  have "(\<exists>e. render_cells s v h w = Inl e) \<longleftrightarrow>
          (\<exists>e. draw_cells s (render_view s v h w) (grid_coords (cells s) (grid_width s) (grid_height s)) = Inl e)"
    by (cases "draw_cells s (render_view s v h w) (grid_coords (cells s) (grid_width s) (grid_height s))")
       (simp_all add: render_cells_def Let_def)
  then show ?thesis
    by (auto simp: draw_cells_Inl cell_ops_Inl render_throws_def)
qed

lemma cell_ops_cong:
  assumes "cells t = cells s" "selected_word t = selected_word s" "selected_cell t = selected_cell s"
    "settings t = settings s" "crossword_type t = crossword_type s"
  shows "cell_ops t v p c = cell_ops s v p c"
  by (simp only: cell_ops_def cell_square_def cell_color_def assms)

lemma draw_cells_cong:
  assumes "cells t = cells s" "selected_word t = selected_word s" "selected_cell t = selected_cell s"
    "settings t = settings s" "crossword_type t = crossword_type s"
  shows "draw_cells t v ps = draw_cells s v ps"
proof (induction ps)
  case Nil
  show ?case by simp
next
  case (Cons p ps)
  then show ?case
    using assms(1) by (simp add: cell_ops_cong [OF assms] split: option.split sum.split)
qed

text \<open>
  C38: hovering over a clue changes nothing on the canvas: the drawing after
  \<^verbatim>\<open>mouseEnteredClue\<close> or \<^verbatim>\<open>mouseLeftClue\<close> is the drawing before, since
  the colour assignment for \<^verbatim>\<open>hilited_word\<close> is commented out.
\<close>

theorem render_hover_clue:
  "render_cells (mouse_entered_clue s i) v h w = render_cells s v h w
   \<and> render_cells (mouse_left_clue s) v h w = render_cells s v h w"
  by (simp add: render_cells_def render_view_def mouse_entered_clue_def mouse_left_clue_def Let_def
                draw_cells_cong [of "s\<lparr>hilited_word := x\<rparr>" s for x])

text \<open>
  C14: the selected cell is drawn as a square filled with the configured
  \<^verbatim>\<open>color_selected\<close> and boxed, followed by its marks, whatever the word,
  hover and acrostic colours would give.
\<close>

theorem render_selected_cell:
  assumes "selected_cell s = Some p" and "cells s p = Some c" and "\<not> empty_cell c"
    and "truthy (settings s ''color_selected'')"
  shows "cell_ops s v p c = Inr ([FillRect (settings s ''color_selected''), StrokeRect] @ cell_marks c)"
  using assms by (simp add: cell_ops_def cell_square_def cell_color_def Let_def)

lemma mark_active_selected:
  assumes "ws (w_id sel) = Some sel" and "w_id sel \<in> set (takeWhile (\<lambda>i. i \<noteq> []) (words_ids g))"
    and "p \<in> set (w_cells sel)"
  shows "mark_active ws sel g p b = Some (w_id sel, if b then ''passive'' else ''active'')"
proof -
  have sel: "sel \<in> set (matching_words ws g p)"
    using assms by (auto simp: set_matching_words)
  then obtain w rest where m: "matching_words ws g p = w # rest"
    by (cases "matching_words ws g p") auto
  have "\<exists>v. get_matching_word ws sel g (fst p) (snd p) False = Some v \<and> w_id v = w_id sel"
  proof (cases rest)
    case Nil
    with sel m show ?thesis by (simp add: get_matching_word_def)
  next
    case (Cons u us)
    have "find (\<lambda>v. w_id v = w_id sel) (w # rest) \<noteq> None"
      unfolding find_None_iff using sel m by (metis list.set_intros(1) set_ConsD)
    then obtain v where f: "find (\<lambda>v. w_id v = w_id sel) (w # rest) = Some v" by blast
    have "w_id v = w_id sel" using f unfolding find_Some_iff by auto
    moreover have "get_matching_word ws sel g (fst p) (snd p) False = Some v"
      using f by (simp add: get_matching_word_def m Cons del: find.simps)
    ultimately show ?thesis by blast
  qed
  then show ?thesis by (auto simp: mark_active_def)
qed

end
