(* ===== verification/Layout.thy ===== *)
theory Layout
  imports Session
begin

text \<open>
  The page layout helpers of \<^verbatim>\<open>src/js/crosswords.js\<close> that \<^verbatim>\<open>windowResized\<close>
  calls: \<^verbatim>\<open>resizeText\<close>, which grows the font of each text node from
  \<^verbatim>\<open>minSize\<close> until its parent overflows or the width's maximum is reached, and
  \<^verbatim>\<open>setBreakpointClasses\<close>.  The browser's measurement
  \<^verbatim>\<open>parent.scrollHeight < el.clientHeight\<close> at a font size is a parameter
  \<open>overflows\<close> of each node.
\<close>

text \<open>\<^verbatim>\<open>maxClueSizes\<close>: the bound \<open>None\<close> is \<^verbatim>\<open>Infinity\<close>.\<close>

definition max_clue_sizes :: "(int option \<times> int) list" where
  "max_clue_sizes = [(Some 1080, 15), (Some 1200, 17), (None, 19)]"

text \<open>\<^verbatim>\<open>maxClueSizes.find((b) => b[0] > rootWidth)[1]\<close>, which throws if nothing is found.\<close>

definition max_clue_size :: "int \<Rightarrow> js_error + int" where
  "max_clue_size root_width =
     (case find (\<lambda>(b, _). case b of None \<Rightarrow> True | Some n \<Rightarrow> root_width < n) max_clue_sizes of
        None \<Rightarrow> Inl TypeErrorUndefined
      | Some (_, m) \<Rightarrow> Inr m)"

text \<open>
  The \<^verbatim>\<open>while (!overflow && i <= maxSize)\<close> loop of one node: the size \<open>i\<close> at which
  it stops, the first that overflows or \<open>maxSize + 1\<close>.
\<close>

function grow_font :: "(int \<Rightarrow> bool) \<Rightarrow> int \<Rightarrow> int \<Rightarrow> int" where
  "grow_font overflows max_size i =
     (if i \<le> max_size then (if overflows i then i else grow_font overflows max_size (i + 1)) else i)"
  by pat_completeness auto
termination
  by (relation "measure (\<lambda>(f, m, i). nat (m - i + 1))") auto

declare grow_font.simps [simp del]

text \<open>The font size a node keeps: the last size before the stop (\<^verbatim>\<open>i - step\<close>).\<close>

definition node_font :: "(int \<Rightarrow> bool) \<Rightarrow> int \<Rightarrow> int" where
  "node_font overflows max_size = grow_font overflows max_size 9 - 1"

definition resize_text :: "int \<Rightarrow> (int \<Rightarrow> bool) list \<Rightarrow> js_error + int list" where
  "resize_text root_width nodes = map_sum id (\<lambda>m. map (\<lambda>ov. node_font ov m) nodes) (max_clue_size root_width)"

text \<open>\<^verbatim>\<open>breakpoints\<close> and the classes \<^verbatim>\<open>cw-max-width-b\<close> that \<^verbatim>\<open>setBreakpointClasses\<close> sets.\<close>

definition breakpoints :: "int list" where
  "breakpoints = [420, 600, 850, 1080, 1200]"

definition breakpoint_classes :: "int \<Rightarrow> (int \<times> bool) list" where
  "breakpoint_classes root_width = map (\<lambda>b. (b, root_width \<le> b)) breakpoints"

subsection \<open>Lemmas\<close>

lemma grow_font_bounds:
  "i \<le> max_size + 1 \<Longrightarrow>
   i \<le> grow_font ov max_size i \<and> grow_font ov max_size i \<le> max_size + 1
   \<and> (grow_font ov max_size i \<le> max_size \<longrightarrow> ov (grow_font ov max_size i))
   \<and> (\<forall>s. i \<le> s \<and> s < grow_font ov max_size i \<longrightarrow> \<not> ov s)"
proof (induction ov max_size i rule: grow_font.induct)
  case (1 ov max_size i)
  show ?case
  proof (cases "i \<le> max_size \<and> \<not> ov i")
    case True
    then have eq: "grow_font ov max_size i = grow_font ov max_size (i + 1)" by (simp add: grow_font.simps)
    have ih: "i + 1 \<le> grow_font ov max_size (i + 1) \<and> grow_font ov max_size (i + 1) \<le> max_size + 1
      \<and> (grow_font ov max_size (i + 1) \<le> max_size \<longrightarrow> ov (grow_font ov max_size (i + 1)))
      \<and> (\<forall>s. i + 1 \<le> s \<and> s < grow_font ov max_size (i + 1) \<longrightarrow> \<not> ov s)"
      using "1.IH" True by simp
    have "\<forall>s. i \<le> s \<and> s < grow_font ov max_size (i + 1) \<longrightarrow> \<not> ov s"
    proof (intro allI impI)
      fix s assume s: "i \<le> s \<and> s < grow_font ov max_size (i + 1)"
      show "\<not> ov s"
      proof (cases "s = i")
        case True
        with \<open>i \<le> max_size \<and> \<not> ov i\<close> show ?thesis by simp
      next
        case False
        with s ih show ?thesis by simp
      qed
    qed
    with ih eq show ?thesis by simp
  next
    case False
    then have "grow_font ov max_size i = i" by (auto simp: grow_font.simps)
    with False "1.prems" show ?thesis by auto
  qed
qed

lemma max_clue_size_cases: "\<exists>m\<in>{15, 17, 19}. max_clue_size w = Inr m"
  by (auto simp: max_clue_size_def max_clue_sizes_def)

text \<open>
  C37: \<^verbatim>\<open>resizeText\<close> always returns (the last entry of \<^verbatim>\<open>maxClueSizes\<close> is
  \<^verbatim>\<open>Infinity\<close>), and each node keeps the largest size of its run that did not
  overflow: every size from 9 up to it fits, the next one overflows unless the
  maximum (15, 17 or 19) was reached, and it is 8, below \<^verbatim>\<open>minSize\<close>, when even
  size 9 overflows.
\<close>

theorem resize_text_fits:
  "\<exists>m\<in>{15, 17, 19}. resize_text w nodes = Inr (map (\<lambda>ov. node_font ov m) nodes)
     \<and> (\<forall>ov\<in>set nodes. 8 \<le> node_font ov m \<and> node_font ov m \<le> m
          \<and> (node_font ov m < m \<longrightarrow> ov (node_font ov m + 1))
          \<and> (\<forall>s. 9 \<le> s \<and> s \<le> node_font ov m \<longrightarrow> \<not> ov s))"
proof -
  obtain m where m: "m \<in> {15, 17, 19}" and mc: "max_clue_size w = Inr m"
    using max_clue_size_cases by blast
  have "8 \<le> node_font ov m \<and> node_font ov m \<le> m \<and> (node_font ov m < m \<longrightarrow> ov (node_font ov m + 1))
          \<and> (\<forall>s. 9 \<le> s \<and> s \<le> node_font ov m \<longrightarrow> \<not> ov s)" for ov
  proof -
    have "9 \<le> m + 1" using m by auto
    from grow_font_bounds [OF this, of ov] show ?thesis
      by (auto simp: node_font_def)
  qed
  with m mc show ?thesis by (auto simp: resize_text_def)
qed

lemma breakpoint_classes_up:
  "(b, True) \<in> set (breakpoint_classes w) \<Longrightarrow> (b', t) \<in> set (breakpoint_classes w) \<Longrightarrow> b \<le> b' \<Longrightarrow> t"
  by (auto simp: breakpoint_classes_def)

end
