(* ===== verification/Scenarios.thy ===== *)
theory Scenarios
  imports Load Render Layout
begin

text \<open>
  Concrete puzzles for the scenarios of the specification, and the witnesses that apply
  the properties of the other theories to them, evaluated by the simplifier.
  The main puzzle is three cells wide and two high:
  \<^verbatim>\<open>
    C A T      1A = (1,1) (2,1) (3,1)    across
    O # O      1D = (1,1) (1,2)          down
               2D = (3,1) (3,2)          down
  \<close>
  The coded puzzle has two cells that share the number \<open>5\<close>.
\<close>

subsection \<open>Puzzles\<close>

definition no_bars :: bars where
  "no_bars = \<lparr>bar_top = False, bar_bottom = False, bar_left = False, bar_right = False\<rparr>"

definition ex_cell :: "string \<Rightarrow> cell_number \<Rightarrow> string \<Rightarrow> cell" where
  "ex_cell sol n l = \<lparr>ctype = Normal, solution = sol, number = n, letter = l, empty_cell = False,
                      is_clue = False, bar = no_bars, color = None, shape = None,
                      checked = False, revealed = False\<rparr>"

definition ex_block :: cell where
  "ex_block = \<lparr>ctype = Block, solution = [], number = NumUndefined, letter = [], empty_cell = True,
               is_clue = False, bar = no_bars, color = None, shape = None,
               checked = False, revealed = False\<rparr>"

definition cat_grid :: "string \<Rightarrow> string \<Rightarrow> string \<Rightarrow> string \<Rightarrow> string \<Rightarrow> grid" where
  "cat_grid a b c d e =
     [(1, 1) \<mapsto> ex_cell ''C'' NumUndefined a, (2, 1) \<mapsto> ex_cell ''A'' NumUndefined b,
      (3, 1) \<mapsto> ex_cell ''T'' NumUndefined c, (1, 2) \<mapsto> ex_cell ''O'' NumUndefined d,
      (2, 2) \<mapsto> ex_block, (3, 2) \<mapsto> ex_cell ''O'' NumUndefined e]"

definition word_1a :: word where
  "word_1a = \<lparr>w_id = ''1A'', cell_ranges = [(Span 1 3, Single 1)], w_cells = [(1, 1), (2, 1), (3, 1)],
              w_clue = Some \<lparr>clue_word = ''1A'', clue_number = ''1'', clue_text = ''Pet''\<rparr>\<rparr>"

definition word_1d :: word where
  "word_1d = \<lparr>w_id = ''1D'', cell_ranges = [(Single 1, Span 1 2)], w_cells = [(1, 1), (1, 2)],
              w_clue = Some \<lparr>clue_word = ''1D'', clue_number = ''1'', clue_text = ''Zero''\<rparr>\<rparr>"

definition word_2d :: word where
  "word_2d = \<lparr>w_id = ''2D'', cell_ranges = [(Single 3, Span 1 2)], w_cells = [(3, 1), (3, 2)],
              w_clue = Some \<lparr>clue_word = ''2D'', clue_number = ''2'', clue_text = ''Also''\<rparr>\<rparr>"

definition cat_words :: words_map where
  "cat_words = [''1A'' \<mapsto> word_1a, ''1D'' \<mapsto> word_1d, ''2D'' \<mapsto> word_2d]"

definition across :: clues_group where
  "across = \<lparr>cg_id = CluesTop, title = ''ACROSS'', clues = [], words_ids = [''1A'']\<rparr>"

definition down :: clues_group where
  "down = \<lparr>cg_id = CluesBottom, title = ''DOWN'', clues = [], words_ids = [''1D'', ''2D'']\<rparr>"

definition ex_config :: jconfig where
  "ex_config = [''skip_filled_letters'' \<mapsto> JBool True, ''arrow_direction'' \<mapsto> JStr ''arrow_move_filled'',
                ''space_bar'' \<mapsto> JStr ''space_clear'', ''tab_key'' \<mapsto> JStr ''tab_noskip'',
                ''timer_autostart'' \<mapsto> JBool False]"

definition cat :: "string \<Rightarrow> string \<Rightarrow> string \<Rightarrow> string \<Rightarrow> string \<Rightarrow> coord \<Rightarrow> xw" where
  "cat a b c d e p =
     \<lparr>cells = cat_grid a b c d e, grid_width = 3, grid_height = 2, words = cat_words,
      clues_top = across, clues_bottom = Some down, active_clues = across, inactive_clues = down,
      selected_word = word_1a, selected_cell = Some p, hilited_word = None,
      number_to_cells = [NumUndefined \<mapsto> [(1, 1), (2, 1), (3, 1), (1, 2), (2, 2), (3, 2)]],
      is_autofill = False, crossword_type = ''crossword'', settings = ex_config, timer_running = True, solved_notified = False,
      settings_open = False\<rparr>"

definition mixed :: clues_group where
  "mixed = \<lparr>cg_id = CluesTop, title = ''MIXED'', clues = [], words_ids = [''1A'', ''1D'']\<rparr>"

definition coded :: xw where
  "coded =
     \<lparr>cells = [(1, 1) \<mapsto> ex_cell ''Q'' (Num ''5'') [], (2, 1) \<mapsto> ex_cell ''U'' (Num ''7'') [],
              (3, 1) \<mapsto> ex_cell ''Q'' (Num ''5'') []],
      grid_width = 3, grid_height = 1, words = [''1A'' \<mapsto> word_1a],
      clues_top = across, clues_bottom = Some (down\<lparr>words_ids := []\<rparr>),
      active_clues = across, inactive_clues = down\<lparr>words_ids := []\<rparr>,
      selected_word = word_1a, selected_cell = Some (1, 1), hilited_word = None,
      number_to_cells = [Num ''5'' \<mapsto> [(1, 1), (3, 1)], Num ''7'' \<mapsto> [(2, 1)]],
      is_autofill = True, crossword_type = ''coded'', settings = ex_config, timer_running = False, solved_notified = False,
      settings_open = False\<rparr>"

definition timer0 :: timer_state where
  "timer0 = \<lparr>xw_timer_seconds = 0, button_text = ''00:00''\<rparr>"

text \<open>The solved grid with the down list active and a repeated id \<open>2D\<close>.\<close>

definition looping :: xw where
  "looping = (cat ''C'' ''A'' ''T'' ''O'' ''O'' (1, 1))
               \<lparr>active_clues := down\<lparr>words_ids := [''1D'', ''2D'', ''2D'']\<rparr>, inactive_clues := across,
                selected_word := word_1d\<rparr>"

text \<open>The same grid, down list active, with the word \<open>1D\<close> selected.\<close>

definition down_active :: xw where
  "down_active = (cat [] [] [] [] [] (1, 1))
                   \<lparr>active_clues := down, inactive_clues := across, selected_word := word_1d\<rparr>"

text \<open>A two-cell puzzle \<open>AB\<close> as the parser returns it (0-based cells).\<close>

definition mini_cell :: "int \<Rightarrow> string \<Rightarrow> pcell" where
  "mini_cell x sol = \<lparr>pc_x = x, pc_y = 0, pc_type = Normal, pc_solution = sol, pc_number = NumUndefined,
                       pc_letter = [], pc_top_bar = False, pc_bottom_bar = False, pc_left_bar = False,
                       pc_right_bar = False, pc_background_color = None, pc_background_shape = None\<rparr>"

definition mini_puzzle :: puzzle where
  "mini_puzzle = \<lparr>pz_type = ''crossword'', pz_width = 2, pz_height = 1,
                   pz_cells = [mini_cell 0 ''A'', mini_cell 1 ''B''],
                   pz_clues = [\<lparr>pcl_title = ''ACROSS'',
                                pcl_clue = [\<lparr>clue_word = ''1A'', clue_number = ''1'', clue_text = ''Ab''\<rparr>]\<rparr>],
                   pz_words = [\<lparr>pw_id = ''1A'', pw_cells = [(0, 0), (1, 0)]\<rparr>],
                   pz_entries = [], pz_across = []\<rparr>"

definition ex_entries :: "(word_id \<times> string) list" where
  "ex_entries = [(''1'', ''AB''), (''2'', ''XY''), (''3'', ''AB'')]"

subsection \<open>Evaluation\<close>

lemmas scenario_defs = cat_def cat_grid_def ex_cell_def ex_block_def word_1a_def word_1d_def
  word_2d_def cat_words_def across_def down_def ex_config_def coded_def no_bars_def mixed_def
  get_cell_by_coordinates_def timer0_def looping_def down_active_def
  mini_cell_def mini_puzzle_def ex_entries_def

lemma cat_box: "cells_in_box (cells (cat a b c d e p)) (grid_width (cat a b c d e p)) (grid_height (cat a b c d e p))"
  by (simp add: cat_def cat_grid_def cells_in_box_def)

lemma cat_solutions:
  "\<forall>p c. cells (cat a b d e f q) p = Some c \<longrightarrow> \<not> empty_cell c \<longrightarrow> solution c \<noteq> []"
  by (auto simp: cat_def cat_grid_def ex_cell_def ex_block_def)

lemma cat_selected_fillable:
  "fillable (cells (cat a b c d e q)) q \<Longrightarrow> \<forall>p. selected_cell (cat a b c d e q) = Some p \<longrightarrow> fillable (cells (cat a b c d e q)) p"
  by (simp add: cat_def)

subsection \<open>Witnesses\<close>

theorem check_reveal_reveal_correct_witness:
  "\<exists>c. cells (check_reveal (cat ''C'' ''X'' ''T'' [] [] (1, 1)) ScopeWord Reveal) (2, 1) = Some c
        \<and> is_correct (letter c) (solution c)"
proof -
  have h1: "(2, 1) \<in> set (reveal_targets (cat ''C'' ''X'' ''T'' [] [] (1, 1)) ScopeWord)"
    by (simp add: reveal_targets_def target_cells_def scenario_defs)
  have h2: "cells (check_reveal (cat ''C'' ''X'' ''T'' [] [] (1, 1)) ScopeWord Reveal) (2, 1)
              = Some ((ex_cell ''A'' NumUndefined ''A'')\<lparr>revealed := True\<rparr>)"
    using h1 by (simp add: cells_check_reveal_at check_reveal_cell_def is_correct_def is_alpha_def scenario_defs)
  have h3: "solution ((ex_cell ''A'' NumUndefined ''A'')\<lparr>revealed := True\<rparr>) \<noteq> []"
    by (simp add: ex_cell_def)
  show ?thesis
    using check_reveal_reveal_correct [OF h1 h2 h3] h2 by blast
qed

theorem get_first_empty_cell_one_empty_witness:
  "get_first_empty_cell (cat_grid ''C'' [] ''T'' [] []) word_1a (Some (3, 1)) = Some (2, 1)"
proof -
  have h: "(2, 1) \<in> set (w_cells word_1a)" "cat_grid ''C'' [] ''T'' [] [] (2, 1) \<noteq> None"
    "letter_at (cat_grid ''C'' [] ''T'' [] []) (2, 1) = []"
    "\<forall>q\<in>set (w_cells word_1a). q \<noteq> (2, 1) \<longrightarrow>
       cat_grid ''C'' [] ''T'' [] [] q = None \<or> letter_at (cat_grid ''C'' [] ''T'' [] []) q \<noteq> []"
    by (simp_all add: scenario_defs letter_at_def)
  show ?thesis
    using get_first_empty_cell_one_empty [OF h] .
qed

theorem get_first_empty_cell_rotate_witness:
  "get_first_empty_cell (cat_grid [] ''A'' ''T'' [] []) word_1a (Some (2, 1)) = Some (1, 1)"
  by (subst get_first_empty_cell_rotate)
     (simp add: first_empty_start_def empty_cell_at_def scenario_defs)

theorem reveal_letter_mates_witness:
  "\<exists>d'. cells (check_reveal coded ScopeLetter Reveal) (3, 1) = Some d' \<and> is_correct (letter d') (solution d')
        \<and> letter d' = ''Q'' \<and> revealed d'"
proof -
  have h: "is_autofill coded" "selected_cell coded = Some (1, 1)"
    "cells coded (1, 1) = Some (ex_cell ''Q'' (Num ''5'') [])" "number (ex_cell ''Q'' (Num ''5'') []) \<noteq> NumNull"
    "number_to_cells coded (number (ex_cell ''Q'' (Num ''5'') [])) = Some [(1, 1), (3, 1)]"
    "(3, 1) \<in> set [(1, 1), (3::int, 1::int)]" "cells coded (3, 1) = Some (ex_cell ''Q'' (Num ''5'') [])"
    "solution (ex_cell ''Q'' (Num ''5'') []) \<noteq> []"
    by (simp_all add: coded_def ex_cell_def)
  have i: "\<not> is_correct (letter (ex_cell ''Q'' (Num ''5'') [])) (solution (ex_cell ''Q'' (Num ''5'') []))"
    by (simp add: ex_cell_def is_correct_def)
  show ?thesis
    using reveal_letter_mates [OF h] i by (auto simp: ex_cell_def)
qed

theorem check_reveal_check_witness:
  "\<exists>c'. cells (check_reveal (cat ''C'' ''X'' ''T'' [] [] (1, 1)) ScopeWord Check) (2, 1) = Some c'
        \<and> letter c' = ''X'' \<and> checked c'"
proof -
  have h: "cells (cat ''C'' ''X'' ''T'' [] [] (1, 1)) (2, 1) = Some (ex_cell ''A'' NumUndefined ''X'')"
    by (simp add: cat_def cat_grid_def)
  have t: "(2, 1) \<in> set (reveal_targets (cat ''C'' ''X'' ''T'' [] [] (1, 1)) ScopeWord)"
    by (simp add: reveal_targets_def target_cells_def scenario_defs)
  have i: "\<not> is_correct ''X'' ''A''"
    by (simp add: is_correct_def is_alpha_def)
  show ?thesis
    using check_reveal_check [OF h, of ScopeWord] t i by (simp add: ex_cell_def)
qed

theorem check_if_solved_spec_witness:
  "solved_notified (check_if_solved (cat ''C'' ''A'' ''T'' ''O'' ''O'' (1, 1)))"
proof -
  have "\<forall>p c. cells (cat ''C'' ''A'' ''T'' ''O'' ''O'' (1, 1)) p = Some c \<longrightarrow> \<not> empty_cell c \<longrightarrow>
          letter c \<noteq> [] \<and> is_correct (letter c) (solution c)"
    by (auto simp: cat_def cat_grid_def ex_cell_def ex_block_def)
  then show ?thesis
    using check_if_solved_spec [OF cat_box] by blast
qed

theorem reveal_puzzle_solves_witness:
  "solved_notified (check_reveal (cat ''C'' ''X'' ''T'' [] [] (1, 1)) ScopePuzzle Reveal)"
proof -
  have "\<not> render_throws (cat ''C'' ''X'' ''T'' [] [] (1, 1))" by (simp add: render_throws_def cat_def)
  then show ?thesis using reveal_puzzle_solves [OF cat_box cat_solutions] by blast
qed

lemma to_upper_q: "to_upper (take 1 ''q'') = ''Q''"
  by code_simp

theorem hidden_input_autofill_witness:
  "\<exists>c'. cells (hidden_input_changed coded ''q'' None) (3, 1) = Some c'
         \<and> letter c' = ''Q'' \<and> \<not> checked c'"
proof -
  have h: "is_autofill coded" "selected_cell coded = Some (1, 1)"
    "cells coded (1, 1) = Some (ex_cell ''Q'' (Num ''5'') [])"
    "number_to_cells coded (number (ex_cell ''Q'' (Num ''5'') [])) = Some [(1, 1), (3, 1)]"
    "((3::int), (1::int)) \<in> set [(1, 1), (3, 1)]"
    "numbers_ok (cells coded) (number_to_cells coded)" "take 1 ''q'' \<noteq> []"
    by (simp_all add: numbers_ok_def scenario_defs)
  show ?thesis
    using hidden_input_autofill [OF h] by (simp only: to_upper_q)
qed

theorem move_selection_by_total_witness:
  "\<exists>r. move_selection_by (cat ''C'' ''A'' ''T'' [] [] (1, 1)) 0 1 = Some r"
proof -
  have f: "fillable (cells (cat ''C'' ''A'' ''T'' [] [] (1, 1))) (1, 1)"
    by (simp add: fillable_def fillable_cell_def scenario_defs)
  show ?thesis
    using move_selection_by_total [OF cat_box cat_selected_fillable [OF f]] .
qed

theorem move_selection_by_edge_witness:
  "move_selection_by (cat ''C'' ''A'' ''T'' [] [] (3, 1)) 1 0 = Some (cat ''C'' ''A'' ''T'' [] [] (3, 1))"
proof -
  have h: "selected_cell (cat ''C'' ''A'' ''T'' [] [] (3, 1)) = Some (3, 1)" "(1::int, 0::int) \<noteq> (0, 0)"
    "\<forall>q. beyond (3, 1) 1 0 q \<longrightarrow> \<not> fillable (cells (cat ''C'' ''A'' ''T'' [] [] (3, 1))) q"
    by (auto simp: beyond_def fillable_def scenario_defs)
  show ?thesis
    using move_selection_by_edge [OF cat_box h] .
qed

theorem get_next_previous_cell_witness:
  "get_previous_cell (cat_grid [] [] [] [] []) word_1a (3, 1) = Some (2, 1)"
proof -
  have h: "distinct (w_cells word_1a)" "(2, 1) \<in> set (w_cells word_1a)"
    "cat_grid [] [] [] [] [] (2, 1) \<noteq> None"
    "get_next_cell (cat_grid [] [] [] [] []) word_1a (2, 1) = Some (3, 1)"
    by (simp_all add: get_next_cell_def scenario_defs)
  show ?thesis
    using get_next_previous_cell [OF h] .
qed

theorem get_next_cell_outside_witness:
  "get_next_cell (cat_grid [] [] [] [] []) word_1a (3, 2) = Some (1, 1)"
proof -
  have h: "(3, 2) \<notin> set (w_cells word_1a)"
    by (simp add: scenario_defs)
  have "get_first_cell (cat_grid [] [] [] [] []) word_1a = Some (1, 1)"
    by (simp add: get_first_cell_def scenario_defs)
  then show ?thesis
    using get_next_cell_outside [OF h] by simp
qed

theorem get_matching_word_sound_witness:
  "(1, 2) \<in> set (w_cells word_1d) \<and> (\<exists>i\<in>set (words_ids down). cat_words i = Some word_1d)"
proof -
  have h: "get_matching_word cat_words word_1a down 1 2 False = Some word_1d"
    by (simp add: get_matching_word_def matching_words_def List.map_filter_def scenario_defs)
  show ?thesis
    using get_matching_word_sound [OF h] .
qed

theorem get_matching_word_two_witness:
  "get_matching_word cat_words word_1a mixed 1 1 True = Some word_1d
   \<and> get_matching_word cat_words word_1d mixed 1 1 True = Some word_1a
   \<and> get_matching_word cat_words word_1d mixed 1 1 False = Some word_1d"
proof -
  have h: "matching_words cat_words mixed (1, 1) = [word_1a, word_1d]" "w_id word_1a \<noteq> w_id word_1d"
    by (simp_all add: matching_words_def List.map_filter_def scenario_defs)
  show ?thesis
    using get_matching_word_two [OF h] .
qed

theorem get_next_previous_word_witness:
  "get_previous_word cat_words down word_2d = Some word_1d"
proof -
  have h: "distinct (words_ids down)" "words_ok cat_words" "cat_words (w_id word_1d) = Some word_1d"
    "w_id word_1d \<in> set (words_ids down)" "get_next_word cat_words down word_1d = Some word_2d"
    by (simp_all add: words_ok_def get_next_word_def scenario_defs)
  show ?thesis
    using get_next_previous_word [OF h] .
qed

theorem matching_words_stop_at_empty_id_witness:
  "matching_words cat_words (down\<lparr>words_ids := [''1D'', [], ''2D'']\<rparr>) (3, 1)
     = matching_words cat_words (down\<lparr>words_ids := [''1D'']\<rparr>) (3, 1)
   \<and> matching_words cat_words (down\<lparr>words_ids := [''1D'']\<rparr>) (3, 1) = []"
proof -
  have h: "words_ids (down\<lparr>words_ids := [''1D'', [], ''2D'']\<rparr>) = [''1D''] @ [] # [''2D'']"
    "[] \<notin> set [''1D'']"
    by simp_all
  have "matching_words cat_words (down\<lparr>words_ids := [''1D'']\<rparr>) (3, 1) = []"
    by (simp add: matching_words_def List.map_filter_def scenario_defs)
  then show ?thesis
    using matching_words_stop_at_empty_id [OF h] by simp
qed

theorem get_first_empty_cell_hint_itself_witness:
  "get_first_empty_cell (cat_grid [] [] [] [] []) word_1a (Some (1, 1)) = Some (1, 1)"
proof -
  have h: "distinct (w_cells word_1a)" "Suc 0 < length (w_cells word_1a)"
    "w_cells word_1a ! 0 = (1, 1)" "(1::int) \<noteq> 0" "(1::int) \<noteq> 0"
    "cat_grid [] [] [] [] [] (1, 1) \<noteq> None" "letter_at (cat_grid [] [] [] [] []) (1, 1) = []"
    by (simp_all add: letter_at_def scenario_defs)
  show ?thesis
    using get_first_empty_cell_hint_itself [OF h] .
qed

theorem reachable_selection_fillable_witness:
  "fillable (cells (fst (mouse_clicked (cat ''C'' ''A'' ''T'' [] [] (1, 1)) (1, 2), timer0))) (1, 2)"
proof -
  have r: "reachable (cat ''C'' ''A'' ''T'' [] [] (1, 1), timer0) (mouse_clicked (cat ''C'' ''A'' ''T'' [] [] (1, 1)) (1, 2), timer0)"
    by (rule reachable.event [OF reachable.start, of _ "Click 1 2"]) simp
  have f: "\<forall>c. selected_cell (fst (cat ''C'' ''A'' ''T'' [] [] (1, 1), timer0)) = Some c
              \<longrightarrow> fillable (cells (fst (cat ''C'' ''A'' ''T'' [] [] (1, 1), timer0))) c"
    by (simp add: fillable_def fillable_cell_def scenario_defs)
  have c: "selected_cell (fst (mouse_clicked (cat ''C'' ''A'' ''T'' [] [] (1, 1)) (1, 2), timer0)) = Some (1, 2)"
    by (simp add: mouse_clicked_selects fillable_def fillable_cell_def scenario_defs)
  show ?thesis using reachable_selection_fillable [OF r f c] .
qed

theorem reachable_settings_closed_witness:
  "\<not> settings_open (fst (mouse_clicked (cat ''C'' ''A'' ''T'' [] [] (1, 1)) (1, 2), timer0))"
proof -
  have r: "reachable (cat ''C'' ''A'' ''T'' [] [] (1, 1), timer0) (mouse_clicked (cat ''C'' ''A'' ''T'' [] [] (1, 1)) (1, 2), timer0)"
    by (rule reachable.event [OF reachable.start, of _ "Click 1 2"]) simp
  show ?thesis
    using reachable_settings_closed [OF r] by (simp add: scenario_defs)
qed

theorem move_to_next_word_diverges_witness:
  "move_to_next_word looping False True = None"
proof -
  have h: "words_ids (active_clues looping) = [''1D''] @ ''2D'' # ''2D'' # []" "''2D'' \<notin> set [''1D'']"
    "words_ok (words looping)" "words looping ''2D'' = Some word_2d"
    "is_filled (cells looping) word_2d" "word_2d \<noteq> selected_word looping"
    "get_next_word (words looping) (active_clues looping) (selected_word looping) = Some word_2d"
    by (simp_all add: words_ok_def is_filled_def get_first_empty_cell_def first_empty_start_def
                      empty_cell_at_def get_next_word_def scenario_defs)
  show ?thesis using move_to_next_word_diverges [OF h] .
qed

theorem move_to_next_word_plain_witness:
  "\<exists>s'. move_to_next_word down_active False False = Some (Inr s') \<and> selected_word s' = word_2d"
proof -
  have h: "get_next_word (words down_active) (active_clues down_active) (selected_word down_active) = Some word_2d"
    by (simp add: get_next_word_def scenario_defs)
  show ?thesis using move_to_next_word_plain [OF h] by blast
qed

theorem move_to_next_word_wrap_witness:
  "\<exists>s'. move_to_next_word (cat [] [] [] [] [] (1, 1)) False False = Some (Inr s')
        \<and> selected_word s' = word_1d \<and> active_clues s' = down"
proof -
  have h: "get_next_word (words (cat [] [] [] [] [] (1, 1))) (active_clues (cat [] [] [] [] [] (1, 1)))
             (selected_word (cat [] [] [] [] [] (1, 1))) = None"
    "clues_bottom (cat [] [] [] [] [] (1, 1)) = Some down"
    "cg_id (active_clues (cat [] [] [] [] [] (1, 1))) = CluesTop"
    "get_first_word (words (cat [] [] [] [] [] (1, 1))) down = Some word_1d"
    by (simp_all add: get_next_word_def get_first_word_def scenario_defs)
  show ?thesis using move_to_next_word_wrap [OF h] by blast
qed

theorem timer_display_digits_witness: "timer_display 754 = ''12:34''"
  using timer_display_digits [of 754] by (simp add: digit_char_def)

theorem timer_display_long_witness: "5 < length (timer_display 6000)"
  using timer_display_long [of 6000] by simp

theorem timer_display_inj_witness: "timer_display 754 \<noteq> timer_display 755"
proof
  assume "timer_display 754 = timer_display 755"
  from timer_display_inj [OF _ _ this] show False by simp
qed

lemma mini_loads:
  "load_puzzle ex_config mini_puzzle = Inr (projr (load_puzzle ex_config mini_puzzle))"
  by (simp add: load_puzzle_def load_groups_def complete_load_def map_clues_def group_of_def get_first_word_def
                load_words_def load_word_def new_word_def parse_ranges_def Let_def render_throws_def scenario_defs)

lemma mini_cells_ok:
  "distinct (map cell_pos (pz_cells mini_puzzle))"
  "\<forall>p\<in>set (pz_cells mini_puzzle). 0 \<le> pc_x p \<and> pc_x p < pz_width mini_puzzle \<and> 0 \<le> pc_y p \<and> pc_y p < pz_height mini_puzzle"
  by (simp_all add: cell_pos_def scenario_defs)

theorem load_puzzle_wf_witness:
  "session_wf (projr (load_puzzle ex_config mini_puzzle))"
  using load_puzzle_wf [OF mini_loads mini_cells_ok] by blast

theorem reachable_wf_witness:
  "session_wf (fst (mouse_clicked (cat ''C'' ''A'' ''T'' [] [] (1, 1)) (1, 2), timer0))"
proof -
  have r: "reachable (cat ''C'' ''A'' ''T'' [] [] (1, 1), timer0) (mouse_clicked (cat ''C'' ''A'' ''T'' [] [] (1, 1)) (1, 2), timer0)"
    by (rule reachable.event [OF reachable.start, of _ "Click 1 2"]) simp
  have "session_wf (fst (cat ''C'' ''A'' ''T'' [] [] (1, 1), timer0))"
    by (auto simp: session_wf_def cells_in_box_def numbers_ok_def words_ok_def fillable_def fillable_cell_def
                   scenario_defs)
  then show ?thesis using reachable_wf [OF r] by blast
qed

theorem load_puzzle_error_witness:
  "load_puzzle ex_config (mini_puzzle\<lparr>pz_clues := []\<rparr>) = Inl TypeErrorUndefined"
proof -
  have h: "pz_type (mini_puzzle\<lparr>pz_clues := []\<rparr>) \<noteq> ''coded''"
    "pz_clues (mini_puzzle\<lparr>pz_clues := []\<rparr>) = [] \<or>
     (\<exists>l0 rest. pz_clues (mini_puzzle\<lparr>pz_clues := []\<rparr>) = l0 # rest
        \<and> (pcl_clue l0 = [] \<or> clue_word (hd (pcl_clue l0)) \<notin> pw_id ` set (pz_words (mini_puzzle\<lparr>pz_clues := []\<rparr>))))"
    by (simp_all add: scenario_defs)
  show ?thesis using load_puzzle_error [OF h] .
qed

theorem coded_groups_partition_witness:
  "words_ids (fst (coded_groups ex_entries [''AB''])) = [''1'', ''3'']
   \<and> words_ids (fst (snd (coded_groups ex_entries [''AB'']))) = [''2'']"
proof -
  have h: "coded_groups ex_entries [''AB''] =
             (fst (coded_groups ex_entries [''AB'']), fst (snd (coded_groups ex_entries [''AB''])),
              snd (snd (coded_groups ex_entries [''AB''])))"
    by simp
  show ?thesis using coded_groups_partition [OF h] by (simp add: ex_entries_def)
qed

theorem load_puzzle_clues_witness:
  "clue_word (the (w_clue (the (words (projr (load_puzzle ex_config mini_puzzle)) ''1A'')))) = ''1A''"
proof -
  have w: "words (projr (load_puzzle ex_config mini_puzzle)) ''1A''
             = Some (the (words (projr (load_puzzle ex_config mini_puzzle)) ''1A''))"
    and c: "w_clue (the (words (projr (load_puzzle ex_config mini_puzzle)) ''1A''))
             = Some (the (w_clue (the (words (projr (load_puzzle ex_config mini_puzzle)) ''1A''))))"
    by (simp_all add: load_puzzle_def load_groups_def complete_load_def map_clues_def group_of_def
                      get_first_word_def load_words_def load_word_def new_word_def parse_ranges_def Let_def
                      set_active_cell_def get_first_cell_def get_cell_by_coordinates_def render_throws_def
                      scenario_defs)
  show ?thesis using load_puzzle_clues [OF mini_loads w c] by blast
qed

theorem get_next_previous_word_refine_witness:
  "get_next_word cat_words down word_1d = Some word_2d \<and> get_previous_word cat_words down word_2d = Some word_1d"
proof -
  have h: "distinct (words_ids down)" "group_resolves cat_words down" "words_ok cat_words"
    "word_1d \<in> set (group_words cat_words down)" "word_2d \<in> set (group_words cat_words down)"
    by (simp_all add: group_resolves_def words_ok_def group_words_def List.map_filter_def scenario_defs)
  have gw: "group_words cat_words down = [word_1d, word_2d]"
    by (simp add: group_words_def List.map_filter_def scenario_defs)
  have ne: "word_1d \<noteq> word_2d" by (simp add: scenario_defs)
  show ?thesis
    using get_next_previous_word_refine [OF h(1-4)] get_next_previous_word_refine [OF h(1-3) h(5)] gw ne
    by simp
qed

theorem settings_click_space_switch_witness:
  "cells (space_pressed ((cat ''C'' ''A'' ''T'' [] [] (1, 1))\<lparr>settings :=
      fst (settings_clicked ex_config (input_click ex_config (''space_switch'', ''radio'', ''space_bar'')))\<rparr>))
     = cells (cat ''C'' ''A'' ''T'' [] [] (1, 1))
   \<and> selected_word (space_pressed ((cat ''C'' ''A'' ''T'' [] [] (1, 1))\<lparr>settings :=
      fst (settings_clicked ex_config (input_click ex_config (''space_switch'', ''radio'', ''space_bar'')))\<rparr>)) = word_1d
   \<and> active_clues (space_pressed ((cat ''C'' ''A'' ''T'' [] [] (1, 1))\<lparr>settings :=
      fst (settings_clicked ex_config (input_click ex_config (''space_switch'', ''radio'', ''space_bar'')))\<rparr>)) = down"
proof -
  let ?s = "cat ''C'' ''A'' ''T'' [] [] (1, 1)"
  let ?s' = "?s\<lparr>settings := fst (settings_clicked ex_config (input_click ex_config (''space_switch'', ''radio'', ''space_bar'')))\<rparr>"
  have h1: "step (?s, timer0) (SettingsClick (input_click (settings ?s) (''space_switch'', ''radio'', ''space_bar'')))
              = Some (Inr (?s', timer0))"
    by (simp add: cat_def)
  have h2: "step (?s', timer0) (KeyDown 32 False [] None) = Some (Inr (space_pressed ?s', timer0))"
    by (simp add: key_pressed_def cat_def)
  have h3: "\<not> settings_open ?s" "selected_cell ?s = Some (1, 1)" "clues_bottom ?s = Some down"
    by (simp_all add: cat_def)
  have h4: "matching ?s (inactive_clues ?s) (1, 1) True = Some word_1d"
    by (simp add: matching_def get_matching_word_def matching_words_def List.map_filter_def scenario_defs)
  show ?thesis
    using settings_click_space_switch [OF h1 h2 h3 h4] by (simp add: cat_def across_def)
qed

theorem settings_reload_witness:
  "merge_config (Some (save_settings ex_config)) (Some [''space_bar'' \<mapsto> JStr ''space_switch'']) ''space_bar''
     = Some (JStr ''space_clear'')"
proof -
  have h: "''space_bar'' \<in> fst ` set default_config" by (simp add: default_config_def)
  show ?thesis
    using settings_reload [OF h, of ex_config "Some [''space_bar'' \<mapsto> JStr ''space_switch'']"]
    by (simp add: ex_config_def)
qed

theorem merge_config_typed_witness:
  "config_typed (merge_config None (Some [''space_bar'' \<mapsto> JStr ''space_switch'']))"
proof -
  have h1: "values_typed None" by (simp add: values_typed_def default_config_def)
  have h2: "values_typed (Some [''space_bar'' \<mapsto> JStr ''space_switch''])"
    by (simp add: values_typed_def default_config_def)
  show ?thesis using merge_config_typed [OF h1 h2] .
qed

theorem settings_click_typed_witness:
  "config_typed (fst (settings_clicked (map_of default_config)
     (input_click (map_of default_config) (''tab_skip'', ''radio'', ''tab_key''))))"
proof -
  have h1: "config_typed (map_of default_config)" by (simp add: config_typed_def default_config_def)
  have h2: "(''tab_skip'', ''radio'', ''tab_key'') \<in> set settings_inputs" by (simp add: settings_inputs_def)
  show ?thesis using settings_click_typed [OF h1 h2] .
qed

theorem settings_click_refine_witness:
  "config_of (fst (settings_clicked ex_config (input_click ex_config (''arrow_stay'', ''radio'', ''arrow_direction''))))
     = (config_of ex_config)\<lparr>arrow_direction := ArrowStay\<rparr>"
proof -
  have h: "(''arrow_stay'', ''radio'', ''arrow_direction'') \<in> set settings_inputs" by (simp add: settings_inputs_def)
  show ?thesis using settings_click_refine [OF h, of ex_config] by (simp add: click_spec_def)
qed

theorem settings_click_shown_witness:
  "\<not> shown_checked (fst (settings_clicked ex_config (input_click ex_config (''space_switch'', ''radio'', ''space_bar''))))
       (''space_clear'', ''radio'', ''space_bar'')"
proof -
  have h1: "(''space_switch'', ''radio'', ''space_bar'') \<in> set settings_inputs" by (simp add: settings_inputs_def)
  have h2: "(''space_clear'', ''radio'', ''space_bar'') \<in> set settings_inputs" by (simp add: settings_inputs_def)
  show ?thesis using settings_click_shown [OF h1 h2, of ex_config] by simp
qed

theorem settings_click_persists_witness:
  "tab_key (config_of (merge_config (Some (snd (settings_clicked (map_of default_config)
     (input_click (map_of default_config) (''tab_skip'', ''radio'', ''tab_key''))))) None)) = TabSkip"
proof -
  have h1: "config_typed (map_of default_config)" by (simp add: config_typed_def default_config_def)
  have h2: "(''tab_skip'', ''radio'', ''tab_key'') \<in> set settings_inputs" by (simp add: settings_inputs_def)
  let ?c' = "settings_clicked (map_of default_config) (input_click (map_of default_config) (''tab_skip'', ''radio'', ''tab_key''))"
  have "tab_key (config_of (merge_config (Some (snd ?c')) None)) = tab_key (config_of (fst ?c'))"
    using settings_click_persists [OF h1 h2, of None] by (rule arg_cong)
  also have "\<dots> = TabSkip" by (simp add: config_of_def settings_clicked_def input_click_def Let_def)
  finally show ?thesis .
qed

definition view40 :: view where
  "view40 = \<lparr>cell_size = 40, hovered_x = None, hovered_y = None\<rparr>"

theorem click_at_cell_witness:
  "click_at ((cat ''C'' ''A'' ''T'' [] [] (1, 1))\<lparr>settings := ex_config(''hover_enabled'' \<mapsto> JBool True)\<rparr>) view40 81 40
     = mouse_clicked ((cat ''C'' ''A'' ''T'' [] [] (1, 1))\<lparr>settings := ex_config(''hover_enabled'' \<mapsto> JBool True)\<rparr>) (3, 1)
   \<and> hovered_x (fst (mouse_moved ((cat ''C'' ''A'' ''T'' [] [] (1, 1))\<lparr>settings := ex_config(''hover_enabled'' \<mapsto> JBool True)\<rparr>) view40 81 40)) = Some 3
   \<and> hovered_y (fst (mouse_moved ((cat ''C'' ''A'' ''T'' [] [] (1, 1))\<lparr>settings := ex_config(''hover_enabled'' \<mapsto> JBool True)\<rparr>) view40 81 40)) = Some 1"
proof -
  have h: "0 < cell_size view40" "0 \<le> (0::int)" "0 < cell_size view40" "0 \<le> (39::int)" "39 < cell_size view40"
    by (simp_all add: view40_def)
  show ?thesis
    using click_at_cell [OF h, of "(cat ''C'' ''A'' ''T'' [] [] (1, 1))\<lparr>settings := ex_config(''hover_enabled'' \<mapsto> JBool True)\<rparr>" 3 1]
    by (simp add: view40_def cell_origin_def)
qed

theorem render_selected_cell_witness:
  "cell_ops ((cat ''C'' ''A'' ''T'' [] [] (1, 1))\<lparr>settings := map_of default_config\<rparr>) view40 (1, 1)
       (ex_cell ''C'' NumUndefined ''C'')
     = Inr [FillRect (Some (JStr ''#FF4136'')), StrokeRect, LetterText ''C'' False False]"
proof -
  let ?s = "(cat ''C'' ''A'' ''T'' [] [] (1, 1))\<lparr>settings := map_of default_config\<rparr>"
  have h1: "selected_cell ?s = Some (1, 1)" by (simp add: cat_def)
  have h2: "cells ?s (1, 1) = Some (ex_cell ''C'' NumUndefined ''C'')" by (simp add: cat_def cat_grid_def)
  have h3: "\<not> empty_cell (ex_cell ''C'' NumUndefined ''C'')" by (simp add: ex_cell_def)
  have h4: "truthy (settings ?s ''color_selected'')" by (simp add: default_config_def)
  show ?thesis
    using render_selected_cell [OF h1 h2 h3 h4, of view40]
    by (simp add: default_config_def cell_marks_def bar_lines_def ex_cell_def no_bars_def)
qed

theorem resize_text_fits_witness:
  "(\<exists>m\<in>{15, 17, 19}. resize_text 1000 [\<lambda>s. 12 < s] = Inr [node_font (\<lambda>s. 12 < s) m]
      \<and> 8 \<le> node_font (\<lambda>s. 12 < s) m \<and> node_font (\<lambda>s. 12 < s) m \<le> m
      \<and> (node_font (\<lambda>s. 12 < s) m < m \<longrightarrow> 12 < node_font (\<lambda>s. 12 < s) m + 1)
      \<and> (\<forall>s. 9 \<le> s \<and> s \<le> node_font (\<lambda>s. 12 < s) m \<longrightarrow> \<not> 12 < s))
   \<and> resize_text 1000 [\<lambda>s. 12 < s] = Inr [12]"
proof
  show "\<exists>m\<in>{15, 17, 19}. resize_text 1000 [\<lambda>s. 12 < s] = Inr [node_font (\<lambda>s. 12 < s) m]
      \<and> 8 \<le> node_font (\<lambda>s. 12 < s) m \<and> node_font (\<lambda>s. 12 < s) m \<le> m
      \<and> (node_font (\<lambda>s. 12 < s) m < m \<longrightarrow> 12 < node_font (\<lambda>s. 12 < s) m + 1)
      \<and> (\<forall>s. 9 \<le> s \<and> s \<le> node_font (\<lambda>s. 12 < s) m \<longrightarrow> \<not> 12 < s)"
    using resize_text_fits [of 1000 "[\<lambda>s. 12 < s]"] by simp
  show "resize_text 1000 [\<lambda>s. 12 < s] = Inr [12]"
    by (simp add: resize_text_def max_clue_size_def max_clue_sizes_def node_font_def grow_font.simps)
qed

end
