(* ===== verification/Spec2Isabelle.thy ===== *)
theory Spec2Isabelle
  imports Scenarios
begin

text \<open>
  \<^bold>\<open>A verification development of the Crossword Nexus HTML5 solver\<close>
  (\<^verbatim>\<open>src/js/crosswords.js\<close>).

  \<^bold>\<open>The program.\<close>  One JavaScript file holds the solver.  Its parts, leaves first:
  \<^item> \<^verbatim>\<open>Cell\<close> objects, built by the cell loop of \<^verbatim>\<open>CrossWord.parsePuzzle\<close> from
    the records of the external parser \<^verbatim>\<open>JSCrossword\<close>: type, solution (the
    wildcard \<^verbatim>\<open>*\<close> when a fillable cell has none), number, letter, flags;
  \<^item> class \<^verbatim>\<open>Word\<close>: a clue's ordered run of cells (\<^verbatim>\<open>parseRanges\<close>,
    \<^verbatim>\<open>hasCell\<close>, \<^verbatim>\<open>getFirstEmptyCell\<close>, \<^verbatim>\<open>isFilled\<close>, first/last/next/previous
    cell, \<^verbatim>\<open>solve\<close>);
  \<^item> class \<^verbatim>\<open>CluesGroup\<close>: one direction's ordered word ids
    (\<^verbatim>\<open>getFirstWord\<close>, \<^verbatim>\<open>getLastWord\<close>, \<^verbatim>\<open>getMatchingWord\<close>,
    \<^verbatim>\<open>getNextWord\<close>, \<^verbatim>\<open>getPreviousWord\<close>);
  \<^item> class \<^verbatim>\<open>CrossWord\<close>: the grid \<^verbatim>\<open>this.cells\<close>, the index
    \<^verbatim>\<open>this.number_to_cells\<close>, the word table, the two clue groups and the selection;
    its methods move the cursor and fill, check and reveal cells in response to
    keyboard and mouse events.
  The words and groups read the crossword (its grid, word table and selected word)
  through a back reference; the crossword calls them and is the only mutator.

  The settings map \<^verbatim>\<open>this.config\<close> is built by the constructor and written by
  the settings dialog; the module-level timer counts seconds beside the crossword;
  \<^verbatim>\<open>renderCells\<close> draws the grid on a canvas after every change, and the
  pointer handlers map canvas offsets back to cells.

  \<^bold>\<open>Theories\<close>, in import order.
  \<^item> \<open>Prelude\<close>: coordinates, \<^verbatim>\<open>Array.prototype.indexOf\<close> (\<open>index_of\<close>, with
    \<open>-1\<close>), the early-return scan \<open>first_some\<close>, the counting loops \<open>for_up\<close>
    and \<open>for_down\<close> (terminating by a measure), a key-writing fold, and their lemmas
    (collections \<open>js_simps\<close>, \<open>frame_simps\<close>, \<open>frame_rules\<close>).
  \<^item> \<open>Cell\<close>: the cell record, \<^verbatim>\<open>isCorrect\<close> (\<open>is_correct\<close>), ASCII
    upper-casing.
  \<^item> \<open>Grid\<close>: the grid as a map from coordinates to cells, \<^verbatim>\<open>getCell\<close>, writes
    through a cell reference (\<open>update_cell\<close>), the enumeration order of the solver's
    \<^verbatim>\<open>for ... in\<close> loops (\<open>grid_coords\<close>), and the cell loop of \<^verbatim>\<open>parsePuzzle\<close>
    (\<open>load_cell\<close>, \<open>load_cells\<close>) with the \<^verbatim>\<open>number_to_cells\<close> index.
  \<^item> \<open>Word\<close>: class \<^verbatim>\<open>Word\<close>; each method takes the grid in place of the back
    reference.  Lemmas: \<^verbatim>\<open>getFirstEmptyCell\<close>'s two loops equal one scan of the
    rotated word; next and previous cell undo each other; range expansion.
  \<^item> \<open>CluesGroup\<close>: class \<^verbatim>\<open>CluesGroup\<close>; the word table and the selected word are
    parameters.  Lemmas: soundness of \<^verbatim>\<open>getMatchingWord\<close>; \<^verbatim>\<open>getNextWord\<close> and
    \<^verbatim>\<open>getPreviousWord\<close> refine the successor and predecessor in the list of the
    group's words (\<open>list_succ\<close>, \<open>list_pred\<close>).
  \<^item> \<open>Settings\<close>: \<^verbatim>\<open>this.config\<close> as a map from keys to JSON values
    (\<open>jconfig\<close>); \<^verbatim>\<open>default_config\<close>; the constructor's merge of saved settings,
    \<^verbatim>\<open>user_config\<close> and defaults (\<open>merge_config\<close>); \<^verbatim>\<open>saveSettings\<close>; the
    dialog of \<^verbatim>\<open>openSettings\<close>: its inputs, what it shows and its click listener
    (\<open>settings_clicked\<close>).  The enumerated record \<open>config\<close> and the abstraction
    \<open>config_of\<close> read the map as the engine's policy branches do.  Lemmas: save and
    reload round trip; typing of the merged map and its preservation by clicks; the
    click listener refines the typed contract \<open>click_spec\<close>.
  \<^item> \<open>Navigation\<close>: the session state \<open>xw\<close> (the fields of \<^verbatim>\<open>CrossWord\<close>
    that the core reads or writes, with the live settings map) and the methods
    \<^verbatim>\<open>changeActiveClues\<close>, \<^verbatim>\<open>setActiveWord\<close>, \<^verbatim>\<open>setActiveCell\<close>,
    \<^verbatim>\<open>autofill\<close>, \<^verbatim>\<open>hiddenInputChanged\<close>, \<^verbatim>\<open>checkIfSolved\<close>,
    \<^verbatim>\<open>check_reveal\<close>, \<^verbatim>\<open>skipToWord\<close>, \<^verbatim>\<open>moveToFirstCell\<close>,
    \<^verbatim>\<open>moveSelectionBy\<close>, each a function from state to state, and the
    throw condition \<open>render_throws\<close> of \<^verbatim>\<open>renderCells\<close>.  Lemmas: what check
    and reveal do to each cell and to its number mates, solving by reveal unless
    the render throws, autofill of number mates, termination of
    \<^verbatim>\<open>moveSelectionBy\<close>.
  \<^item> \<open>Timer\<close>: \<^verbatim>\<open>toggleTimer\<close> and its tick; lemmas on the \<open>mm:ss\<close> text.
  \<^item> \<open>Session\<close>: the event handlers (\<^verbatim>\<open>mouseClicked\<close>, the clue list's
    listeners, \<^verbatim>\<open>clueClicked\<close>, \<^verbatim>\<open>keyPressed\<close> with \<^verbatim>\<open>moveToNextWord\<close>), the
    page (crossword and timer state), the \<open>step\<close> function over all listeners,
    including the settings dialog's click, and the inductive relation \<open>reachable\<close>.
    Lemmas: every handler keeps the session frame (\<open>engine_frame\<close>: same grid
    layout and loader-set fields, cursor on a fillable cell), hence the invariants
    of reachable pages (\<open>session_wf\<close>); \<^verbatim>\<open>moveToNextWord\<close>'s skip loop, its
    normal result and its divergence; a settings click changes the next key press.
  \<^item> \<open>Load\<close>: the rest of \<^verbatim>\<open>parsePuzzle\<close> (clue lists, coded puzzles, clue
    mapping, word table) and \<^verbatim>\<open>completeLoad\<close>, composed as \<open>load_puzzle\<close>.
    Lemmas: a loaded puzzle is a well-formed session (so every reachable page is);
    when the load throws; the coded lists' partition; the word table's keys.
  \<^item> \<open>Render\<close>: \<^verbatim>\<open>renderCells\<close> as the list of canvas operations drawn
    for each cell (\<open>draw_op\<close>, \<open>cell_ops\<close>, \<open>render_cells\<close>), with the fitted
    cell size, the view state (\<open>view\<close>: cell size, hovered cell, crossword type),
    the pointer arithmetic of \<^verbatim>\<open>mouseClicked\<close> and \<^verbatim>\<open>mouseMoved\<close>
    (\<open>pixel_index\<close>, \<open>click_at\<close>, \<open>mouse_moved\<close>) and \<^verbatim>\<open>markActive\<close>
    (\<open>mark_active\<close>).  Lemmas: the pointer index inverts the drawn squares; the
    squares lie in the canvas, which exceeds the fitted rectangle by at most two
    pixels; when the drawing throws; the selected cell's paint; the clue hover
    changes nothing drawn; the active clue list marks the selected word.
  \<^item> \<open>Layout\<close>: \<^verbatim>\<open>resizeText\<close> (\<open>resize_text\<close>, its loop \<open>grow_font\<close>
    terminating by a measure, with the browser's overflow measurement of each node
    as a parameter) and \<^verbatim>\<open>setBreakpointClasses\<close>.  Lemma: the loop's
    invariant, hence the bounds and maximality of the font each node keeps.
  \<^item> \<open>Scenarios\<close>: concrete grids, puzzles and configurations, and a witness for
    every theorem with hypotheses, evaluated by \<open>simp\<close>.

  \<^bold>\<open>Modelling choices.\<close>  Objects become records and object references become
  coordinates (cells) or values (immutable words and groups).  Strings that the code
  tests for truthiness are \<open>[]\<close> when empty or absent.  A thrown
  \<^verbatim>\<open>TypeError\<close> is the value \<open>Inl TypeErrorUndefined\<close> of a sum type, and a
  handler that does not return is \<open>None\<close>.  The one throw of \<^verbatim>\<open>renderCells\<close>
  (an acrostic with no selected cell) is the predicate \<open>render_throws\<close> on the
  session, which \<open>Render\<close> proves equal to the failure of its drawing: it makes
  \<^verbatim>\<open>check_reveal\<close> skip \<^verbatim>\<open>checkIfSolved\<close> and \<^verbatim>\<open>completeLoad\<close> fail.  In the
  other handlers \<^verbatim>\<open>renderCells\<close> comes last, so a throw there leaves the state the
  model computes.  \<^verbatim>\<open>moveSelectionBy\<close> recurses over
  empty cells without a bound and \<^verbatim>\<open>moveToNextWord\<close>'s skip loop runs until it
  meets the selected word again; both are \<^theory_text>\<open>partial_function\<close>s in the option
  monad.  The first terminates on every grid inside its box (a measure on the
  distance to the box's edge); the second terminates without skipping, and diverges
  on lists that repeat a filled word's id, both as theorems.  The \<^verbatim>\<open>for\<close> loops
  of \<^verbatim>\<open>skipToWord\<close> are functions with a measure.  No fuel is used.  The model
  indexes cells by position, so \<^verbatim>\<open>number_to_cells\<close> holds positions.  It agrees
  with the code's cell objects when positions are distinct, which the loader
  theorems assume.  The JSON values of the settings pass \<^verbatim>\<open>JSON.stringify\<close> and
  \<^verbatim>\<open>JSON.parse\<close> unchanged, so storage keeps the saved map itself.

  \<^bold>\<open>Not modelled.\<close>  The DOM side of rendering (\<^verbatim>\<open>renderClues\<close>,
  the DOM writes of \<^verbatim>\<open>resizeText\<close> and \<^verbatim>\<open>setBreakpointClasses\<close>, the scroll animation of
  \<^verbatim>\<open>markActive\<close>, the hidden input's position and focus), fonts and text
  alignment on the canvas, the modal boxes and menus, printing, the page
  skeleton built by \<^verbatim>\<open>init\<close>, and file loading (\<^verbatim>\<open>XMLHttpRequest\<close>,
  \<^verbatim>\<open>FileReader\<close>): they write no state of the core.  \<^verbatim>\<open>moveToNextWord_OLD\<close>
  is never called.  The parsed puzzle of the external \<^verbatim>\<open>JSCrossword\<close> library is
  an input, modelled from its interface in the spec.  The solved message is a
  flag of the state.  The settings dialog's open state is not tracked: its click
  is a page event.  The view state of \<open>Render\<close> is kept beside the page, not in
  it; the \<open>step\<close> events take cell indices, and \<open>click_at\<close> relates them to
  pointer offsets.  Pixel measurements are integers and the cell size is positive
  (\<^verbatim>\<open>Math.ceil\<close> of a division by zero is not modelled).
\<close>

end
